(* ===== verification/Prelude.thy ===== *)
theory Prelude
  imports Main "HOL-Library.State_Monad" "HOL-Library.Sublist"
begin

text \<open>
  Shared vocabulary of the development: the effect monad in which every operation of the server
  that talks to Redis, MySQL, Kafka, MinIO, the agent service or the clock is written, a weakest
  precondition calculus for it, the generic transition systems used for the concurrent
  components, and the \<open>codec\<close> interface.

  An operation runs against an environment that is not part of the repository.  The model keeps
  the sequence of calls made so far (the history); an answer function, a parameter of every
  operation, gives the answer to the next call as a function of the whole history, so quantifying
  over the answer functions quantifies over every behaviour of the services, failures included.
\<close>

named_theorems wp_simps \<open>weakest preconditions of the effect monad and of modelled operations\<close>
named_theorems ext_intros \<open>operations only append to the history\<close>
named_theorems use_intros \<open>the calls an operation may make\<close>
named_theorems keep_intros \<open>operations that keep an invariant of the history\<close>

section \<open>The effect monad\<close>

type_synonym ('c, 'a) io = "('c list, 'a) state"

definition ask :: "('c list \<Rightarrow> 'c \<Rightarrow> 'a) \<Rightarrow> 'c \<Rightarrow> ('c, 'a) io" where
  "ask ans c = State (\<lambda>h. (ans h c, h @ [c]))"

definition ret :: "'a \<Rightarrow> ('c, 'a) io" where
  "ret x = State_Monad.return x"

definition bnd :: "('c, 'a) io \<Rightarrow> ('a \<Rightarrow> ('c, 'b) io) \<Rightarrow> ('c, 'b) io" where
  "bnd m f = State_Monad.bind m f"

definition get_hist :: "('c, 'c list) io" where
  "get_hist = State (\<lambda>h. (h, h))"

text \<open>\<open>bindE\<close> is Go's \<^verbatim>\<open>if err != nil { return ..., err }\<close>; \<open>catchE\<close> lets the caller look at the error.\<close>

definition okE :: "'a \<Rightarrow> ('c, 'e + 'a) io" where
  "okE x = ret (Inr x)"

definition failE :: "'e \<Rightarrow> ('c, 'e + 'a) io" where
  "failE e = ret (Inl e)"

definition bindE :: "('c, 'e + 'a) io \<Rightarrow> ('a \<Rightarrow> ('c, 'e + 'b) io) \<Rightarrow> ('c, 'e + 'b) io" where
  "bindE m f = bnd m (\<lambda>r. case r of Inl e \<Rightarrow> ret (Inl e) | Inr x \<Rightarrow> f x)"

definition catchE :: "('c, 'e + 'a) io \<Rightarrow> ('e \<Rightarrow> ('c, 'b) io) \<Rightarrow> ('a \<Rightarrow> ('c, 'b) io) \<Rightarrow> ('c, 'b) io" where
  "catchE m f g = bnd m (\<lambda>r. case r of Inl e \<Rightarrow> f e | Inr x \<Rightarrow> g x)"

text \<open>Sequencing that ignores the result, as a Go call statement whose results are dropped.\<close>

definition thenI :: "('c, 'a) io \<Rightarrow> ('c, 'b) io \<Rightarrow> ('c, 'b) io" where
  "thenI m k = bnd m (\<lambda>_. k)"

text \<open>An answer that is only an error or success.\<close>

definition ask_err :: "('c list \<Rightarrow> 'c \<Rightarrow> 'e option) \<Rightarrow> 'c \<Rightarrow> ('c, 'e + unit) io" where
  "ask_err ans c = ask (\<lambda>h c. case ans h c of None \<Rightarrow> Inr () | Some e \<Rightarrow> Inl e) c"

fun forE :: "'x list \<Rightarrow> ('x \<Rightarrow> ('c, 'e + unit) io) \<Rightarrow> ('c, 'e + unit) io" where
  "forE [] f = okE ()"
| "forE (x # xs) f = bindE (f x) (\<lambda>_. forE xs f)"

fun forI :: "'x list \<Rightarrow> ('x \<Rightarrow> ('c, 'a) io) \<Rightarrow> ('c, unit) io" where
  "forI [] f = ret ()"
| "forI (x # xs) f = thenI (f x) (forI xs f)"

section \<open>Observing a run\<close>

definition result :: "('c, 'a) io \<Rightarrow> 'c list \<Rightarrow> 'a" where
  "result m h = fst (run_state m h)"

definition final :: "('c, 'a) io \<Rightarrow> 'c list \<Rightarrow> 'c list" where
  "final m h = snd (run_state m h)"

text \<open>The calls a run adds to the history.\<close>

definition calls :: "('c, 'a) io \<Rightarrow> 'c list \<Rightarrow> 'c list" where
  "calls m h = drop (length h) (final m h)"

definition wp :: "('c, 'a) io \<Rightarrow> ('a \<Rightarrow> 'c list \<Rightarrow> bool) \<Rightarrow> 'c list \<Rightarrow> bool" where
  "wp m Q h = Q (result m h) (final m h)"

text \<open>Between \<open>h\<close> and \<open>h'\<close> the call \<open>c\<close> was made, and the environment's answer satisfied \<open>P\<close>.\<close>

definition made :: "('c list \<Rightarrow> 'c \<Rightarrow> bool) \<Rightarrow> 'c list \<Rightarrow> 'c \<Rightarrow> 'c list \<Rightarrow> bool" where
  "made P h c h' = (\<exists>p. prefix h p \<and> prefix (p @ [c]) h' \<and> P p c)"

definition extends :: "('c, 'a) io \<Rightarrow> bool" where
  "extends m = (\<forall>h. prefix h (final m h))"

text \<open>The same over the calls that follow \<open>h\<close>, in a form the simplifier evaluates.\<close>

fun made_in :: "('c list \<Rightarrow> 'c \<Rightarrow> bool) \<Rightarrow> 'c list \<Rightarrow> 'c \<Rightarrow> 'c list \<Rightarrow> bool" where
  "made_in P h c [] = False"
| "made_in P h c (x # xs) = ((x = c \<and> P h c) \<or> made_in P (h @ [x]) c xs)"

text \<open>The footprint of an operation: every call it makes satisfies \<open>P\<close>.\<close>

definition uses :: "('c \<Rightarrow> bool) \<Rightarrow> ('c, 'a) io \<Rightarrow> bool" where
  "uses P m = (\<forall>h. prefix h (final m h) \<and> list_all P (drop (length h) (final m h)))"

section \<open>Weakest preconditions\<close>

lemma run_ask [simp]: "run_state (ask ans c) h = (ans h c, h @ [c])"
  by (simp add: ask_def)

lemma run_ret [simp]: "run_state (ret x) h = (x, h)"
  by (simp add: ret_def)

lemma run_bnd [simp]:
  "run_state (bnd m f) h = (case run_state m h of (a, h') \<Rightarrow> run_state (f a) h')"
  by (simp add: bnd_def)

lemma wp_ask [wp_simps]: "wp (ask ans c) Q h = Q (ans h c) (h @ [c])"
  by (simp add: wp_def result_def final_def)

lemma wp_ret [wp_simps]: "wp (ret x) Q h = Q x h"
  by (simp add: wp_def result_def final_def)

lemma wp_get_hist [wp_simps]: "wp get_hist Q h = Q h h"
  by (simp add: wp_def result_def final_def get_hist_def)

lemma wp_bnd [wp_simps]: "wp (bnd m f) Q h = wp m (\<lambda>r h'. wp (f r) Q h') h"
  by (simp add: wp_def result_def final_def split: prod.splits)

lemma wp_okE [wp_simps]: "wp (okE x) Q h = Q (Inr x) h"
  by (simp add: okE_def wp_simps)

lemma wp_failE [wp_simps]: "wp (failE e) Q h = Q (Inl e) h"
  by (simp add: failE_def wp_simps)

lemma wp_bindE [wp_simps]:
  "wp (bindE m f) Q h = wp m (\<lambda>r h'. case r of Inl e \<Rightarrow> Q (Inl e) h' | Inr x \<Rightarrow> wp (f x) Q h') h"
  by (simp add: bindE_def wp_bnd) (simp add: wp_def result_def final_def split: sum.splits)

lemma wp_catchE [wp_simps]:
  "wp (catchE m f g) Q h = wp m (\<lambda>r h'. case r of Inl e \<Rightarrow> wp (f e) Q h' | Inr x \<Rightarrow> wp (g x) Q h') h"
  by (simp add: catchE_def wp_bnd) (simp add: wp_def split: sum.splits)

lemma wp_thenI [wp_simps]: "wp (thenI m k) Q h = wp m (\<lambda>_ h'. wp k Q h') h"
  by (simp add: thenI_def wp_simps)

lemma wp_ask_err [wp_simps]:
  "wp (ask_err ans c) Q h = (case ans h c of None \<Rightarrow> Q (Inr ()) (h @ [c]) | Some e \<Rightarrow> Q (Inl e) (h @ [c]))"
  by (simp add: ask_err_def wp_simps split: option.splits)

lemma wp_if [wp_simps]: "wp (if b then m else n) Q h = (if b then wp m Q h else wp n Q h)"
  by simp

lemma wp_case_option [wp_simps]:
  "wp (case x of None \<Rightarrow> m | Some y \<Rightarrow> n y) Q h = (case x of None \<Rightarrow> wp m Q h | Some y \<Rightarrow> wp (n y) Q h)"
  by (simp split: option.splits)

lemma wp_case_sum [wp_simps]:
  "wp (case x of Inl y \<Rightarrow> m y | Inr y \<Rightarrow> n y) Q h = (case x of Inl y \<Rightarrow> wp (m y) Q h | Inr y \<Rightarrow> wp (n y) Q h)"
  by (simp split: sum.splits)

lemma wp_case_prod [wp_simps]:
  "wp (case x of (a, b) \<Rightarrow> m a b) Q h = (case x of (a, b) \<Rightarrow> wp (m a b) Q h)"
  by (simp split: prod.splits)

lemma wp_mono: "wp m P h \<Longrightarrow> (\<And>r h'. P r h' \<Longrightarrow> Q r h') \<Longrightarrow> wp m Q h"
  by (simp add: wp_def)

lemma wp_conj: "wp m (\<lambda>r h'. P r h' \<and> Q r h') h \<longleftrightarrow> wp m P h \<and> wp m Q h"
  by (simp add: wp_def)

lemma wp_run: "run_state m h = (r, h') \<Longrightarrow> wp m Q h \<Longrightarrow> Q r h'"
  by (simp add: wp_def result_def final_def)

lemma wp_any: "(\<And>r q. Q r q) \<Longrightarrow> wp m Q h"
  by (simp add: wp_def)

lemma wpI: "(\<And>r h'. run_state m h = (r, h') \<Longrightarrow> Q r h') \<Longrightarrow> wp m Q h"
  by (simp add: wp_def result_def final_def)

section \<open>Histories only grow\<close>

lemma extends_ask [ext_intros]: "extends (ask ans c)"
  by (simp add: extends_def final_def)

lemma extends_ret [ext_intros]: "extends (ret x)"
  by (simp add: extends_def final_def)

lemma extends_get_hist [ext_intros]: "extends get_hist"
  by (simp add: extends_def final_def get_hist_def)

lemma extends_bnd [ext_intros]:
  assumes "extends m" and "\<And>x. extends (f x)"
  shows "extends (bnd m f)"
proof (unfold extends_def, rule allI)
  fix h
  obtain a h1 where m: "run_state m h = (a, h1)" by fastforce
  with assms(1) have "prefix h h1" unfolding extends_def final_def by (metis snd_conv)
  moreover have "prefix h1 (snd (run_state (f a) h1))"
    using assms(2) unfolding extends_def final_def by blast
  ultimately show "prefix h (final (bnd m f) h)"
    by (simp add: final_def m)
qed

lemma extends_okE [ext_intros]: "extends (okE x)"
  by (simp add: okE_def ext_intros)

lemma extends_failE [ext_intros]: "extends (failE x)"
  by (simp add: failE_def ext_intros)

lemma extends_bindE [ext_intros]:
  "extends m \<Longrightarrow> (\<And>x. extends (f x)) \<Longrightarrow> extends (bindE m f)"
  unfolding bindE_def by (intro ext_intros) (auto split: sum.splits intro: ext_intros)

lemma extends_catchE [ext_intros]:
  "extends m \<Longrightarrow> (\<And>x. extends (f x)) \<Longrightarrow> (\<And>x. extends (g x)) \<Longrightarrow> extends (catchE m f g)"
  unfolding catchE_def by (intro ext_intros) (auto split: sum.splits intro: ext_intros)

lemma extends_thenI [ext_intros]: "extends m \<Longrightarrow> extends k \<Longrightarrow> extends (thenI m k)"
  unfolding thenI_def by (intro ext_intros)

lemma extends_ask_err [ext_intros]: "extends (ask_err ans c)"
  unfolding ask_err_def by (intro ext_intros)

lemma extends_if [ext_intros]: "(b \<Longrightarrow> extends m) \<Longrightarrow> (\<not> b \<Longrightarrow> extends n) \<Longrightarrow> extends (if b then m else n)"
  by simp

lemma extends_case_option [ext_intros]:
  "extends m \<Longrightarrow> (\<And>y. extends (n y)) \<Longrightarrow> extends (case x of None \<Rightarrow> m | Some y \<Rightarrow> n y)"
  by (simp split: option.splits)

lemma extends_case_sum [ext_intros]:
  "(\<And>y. extends (m y)) \<Longrightarrow> (\<And>y. extends (n y)) \<Longrightarrow> extends (case x of Inl y \<Rightarrow> m y | Inr y \<Rightarrow> n y)"
  by (simp split: sum.splits)

lemma extends_case_prod [ext_intros]: "(\<And>a b. extends (m a b)) \<Longrightarrow> extends (case x of (a, b) \<Rightarrow> m a b)"
  by (simp split: prod.splits)

lemma extends_forE [ext_intros]: "(\<And>x. extends (f x)) \<Longrightarrow> extends (forE xs f)"
  by (induction xs) (auto intro: ext_intros)

lemma extends_forI [ext_intros]: "(\<And>x. extends (f x)) \<Longrightarrow> extends (forI xs f)"
  by (induction xs) (auto intro: ext_intros)

lemma extendsD: "extends m \<Longrightarrow> prefix h (final m h)"
  by (simp add: extends_def)

lemma wp_extends: "extends m \<Longrightarrow> wp m (\<lambda>_ h'. prefix h h') h"
  by (simp add: wp_def extendsD)

text \<open>All a caller can observe of an operation that returns nothing is a longer history.\<close>

lemma wp_quiet: "extends m \<Longrightarrow> (\<And>h'. prefix h h' \<Longrightarrow> Q () h') \<Longrightarrow> wp m Q h"
  by (simp add: wp_def extendsD)

lemma final_calls: "extends m \<Longrightarrow> final m h = h @ calls m h"
  by (metis append_eq_conv_conj calls_def extendsD prefix_def)

section \<open>Calls that were made\<close>

lemma made_last: "prefix h p \<Longrightarrow> P p c \<Longrightarrow> made P h c (p @ [c])"
  by (auto simp: made_def)

lemma made_weaken: "made P h0 c h1 \<Longrightarrow> prefix h h0 \<Longrightarrow> prefix h1 h2 \<Longrightarrow> made P h c h2"
  unfolding made_def by (meson prefix_order.trans)

lemma made_later: "made P h c h1 \<Longrightarrow> prefix h1 h2 \<Longrightarrow> made P h c h2"
  by (erule made_weaken) (auto intro: prefix_order.refl)

lemma made_earlier: "made P h1 c h2 \<Longrightarrow> prefix h h1 \<Longrightarrow> made P h c h2"
  by (erule made_weaken) (auto intro: prefix_order.refl)

lemma made_in_calls: "made P h c h' \<Longrightarrow> c \<in> set (drop (length h) h')"
  by (auto simp: made_def prefix_def)

lemma made_append: "made P h c (h @ xs) \<longleftrightarrow> made_in P h c xs"
proof (induction xs arbitrary: h)
  case Nil
  then show ?case by (auto simp: made_def prefix_def)
next
  case (Cons x xs)
  have "made P h c (h @ x # xs) \<longleftrightarrow> (x = c \<and> P h c) \<or> made P (h @ [x]) c ((h @ [x]) @ xs)"
  proof
    assume "made P h c (h @ x # xs)"
    then obtain p where p: "prefix h p" "prefix (p @ [c]) (h @ x # xs)" "P p c" by (auto simp: made_def)
    then obtain q where q: "p = h @ q" by (auto simp: prefix_def)
    show "(x = c \<and> P h c) \<or> made P (h @ [x]) c ((h @ [x]) @ xs)"
    proof (cases q)
      case (Cons y ys)
      with p q have "prefix (h @ [x]) p" by (auto simp: prefix_def)
      with p show ?thesis by (auto simp: made_def)
    qed (use p q in auto)
  next
    assume "(x = c \<and> P h c) \<or> made P (h @ [x]) c ((h @ [x]) @ xs)"
    then show "made P h c (h @ x # xs)"
    proof
      assume "x = c \<and> P h c"
      then show ?thesis unfolding made_def by (intro exI [of _ h]) auto
    next
      assume "made P (h @ [x]) c ((h @ [x]) @ xs)"
      then show ?thesis by (auto intro: made_earlier)
    qed
  qed
  with Cons.IH [of "h @ [x]"] show ?case by simp
qed

lemma made_in_append: "made_in P h c (xs @ ys) \<longleftrightarrow> made_in P h c xs \<or> made_in P (h @ xs) c ys"
  by (induction xs arbitrary: h) auto

lemma made_self [simp]: "made P h c h \<longleftrightarrow> False"
  using made_append [of P h c "[]"] by simp

section \<open>Footprints\<close>

lemma uses_extends: "uses P m \<Longrightarrow> extends m"
  by (simp add: uses_def extends_def)

lemma uses_mono: "uses P m \<Longrightarrow> (\<And>c. P c \<Longrightarrow> Q c) \<Longrightarrow> uses Q m"
  by (auto simp: uses_def list_all_iff)

lemma wp_uses: "uses P m \<Longrightarrow> wp m (\<lambda>_ h'. \<exists>xs. h' = h @ xs \<and> list_all P xs) h"
  by (auto simp: wp_def uses_def prefix_def dest!: spec [of _ h])

text \<open>A footprint and a postcondition of the same operation together.\<close>

lemma wp_uses_conj:
  "uses P m \<Longrightarrow> wp m R h \<Longrightarrow> (\<And>r xs. list_all P xs \<Longrightarrow> R r (h @ xs) \<Longrightarrow> Q r (h @ xs)) \<Longrightarrow> wp m Q h"
  using wp_uses [of P m h] by (auto simp: wp_def)

lemma wp_usesI: "uses P m \<Longrightarrow> (\<And>r xs. list_all P xs \<Longrightarrow> Q r (h @ xs)) \<Longrightarrow> wp m Q h"
  using wp_uses [of P m h] by (auto simp: wp_def)

lemma uses_ask [use_intros]: "P c \<Longrightarrow> uses P (ask ans c)"
  by (simp add: uses_def final_def)

lemma uses_ret [use_intros]: "uses P (ret x)"
  by (simp add: uses_def final_def)

lemma uses_get_hist [use_intros]: "uses P get_hist"
  by (simp add: uses_def final_def get_hist_def)

lemma uses_bnd [use_intros]:
  assumes "uses P m" and "\<And>x. uses P (f x)"
  shows "uses P (bnd m f)"
proof (unfold uses_def, rule allI)
  fix h
  obtain a h1 where m: "run_state m h = (a, h1)" by fastforce
  with assms(1) obtain xs where xs: "h1 = h @ xs" "list_all P xs"
    unfolding uses_def final_def prefix_def by (metis append_eq_conv_conj snd_conv)
  from assms(2) obtain ys where "snd (run_state (f a) h1) = h1 @ ys" "list_all P ys"
    unfolding uses_def final_def prefix_def by (metis append_eq_conv_conj)
  with xs show "prefix h (final (bnd m f) h) \<and> list_all P (drop (length h) (final (bnd m f) h))"
    by (simp add: final_def m)
qed

lemma uses_okE [use_intros]: "uses P (okE x)"
  by (simp add: okE_def use_intros)

lemma uses_failE [use_intros]: "uses P (failE x)"
  by (simp add: failE_def use_intros)

lemma uses_bindE [use_intros]: "uses P m \<Longrightarrow> (\<And>x. uses P (f x)) \<Longrightarrow> uses P (bindE m f)"
  unfolding bindE_def by (intro use_intros) (auto split: sum.splits intro: use_intros)

lemma uses_catchE [use_intros]:
  "uses P m \<Longrightarrow> (\<And>x. uses P (f x)) \<Longrightarrow> (\<And>x. uses P (g x)) \<Longrightarrow> uses P (catchE m f g)"
  unfolding catchE_def by (intro use_intros) (auto split: sum.splits intro: use_intros)

lemma uses_thenI [use_intros]: "uses P m \<Longrightarrow> uses P k \<Longrightarrow> uses P (thenI m k)"
  unfolding thenI_def by (intro use_intros)

lemma uses_ask_err [use_intros]: "P c \<Longrightarrow> uses P (ask_err ans c)"
  unfolding ask_err_def by (intro use_intros)

lemma uses_if [use_intros]: "(b \<Longrightarrow> uses P m) \<Longrightarrow> (\<not> b \<Longrightarrow> uses P n) \<Longrightarrow> uses P (if b then m else n)"
  by simp

lemma uses_case_option [use_intros]:
  "uses P m \<Longrightarrow> (\<And>y. uses P (n y)) \<Longrightarrow> uses P (case x of None \<Rightarrow> m | Some y \<Rightarrow> n y)"
  by (simp split: option.splits)

lemma uses_case_sum [use_intros]:
  "(\<And>y. uses P (m y)) \<Longrightarrow> (\<And>y. uses P (n y)) \<Longrightarrow> uses P (case x of Inl y \<Rightarrow> m y | Inr y \<Rightarrow> n y)"
  by (simp split: sum.splits)

lemma uses_case_prod [use_intros]: "(\<And>a b. uses P (m a b)) \<Longrightarrow> uses P (case x of (a, b) \<Rightarrow> m a b)"
  by (simp split: prod.splits)

lemma uses_forE [use_intros]: "(\<And>x. x \<in> set xs \<Longrightarrow> uses P (f x)) \<Longrightarrow> uses P (forE xs f)"
  by (induction xs) (auto intro: use_intros)

lemma uses_forI [use_intros]: "(\<And>x. x \<in> set xs \<Longrightarrow> uses P (f x)) \<Longrightarrow> uses P (forI xs f)"
  by (induction xs) (auto intro: use_intros)

section \<open>Guarded calls\<close>

text \<open>Every call made since \<open>h\<close> satisfied \<open>G\<close> at the history before it.\<close>

fun guarded_in :: "('c list \<Rightarrow> 'c \<Rightarrow> bool) \<Rightarrow> 'c list \<Rightarrow> 'c list \<Rightarrow> bool" where
  "guarded_in G h [] = True"
| "guarded_in G h (x # xs) = (G h x \<and> guarded_in G (h @ [x]) xs)"

definition guarded :: "('c list \<Rightarrow> 'c \<Rightarrow> bool) \<Rightarrow> 'c list \<Rightarrow> 'c list \<Rightarrow> bool" where
  "guarded G h h' = (\<exists>xs. h' = h @ xs \<and> guarded_in G h xs)"

lemma guarded_in_append: "guarded_in G h (xs @ ys) \<longleftrightarrow> guarded_in G h xs \<and> guarded_in G (h @ xs) ys"
  by (induction xs arbitrary: h) auto

lemma guarded_refl [simp]: "guarded G h h"
  unfolding guarded_def by (rule exI [of _ "[]"]) simp

lemma guarded_append: "guarded G h p \<Longrightarrow> guarded_in G p xs \<Longrightarrow> guarded G h (p @ xs)"
  by (auto simp: guarded_def guarded_in_append)

lemma guarded_prefix: "guarded G h p \<Longrightarrow> prefix h p"
  by (auto simp: guarded_def)

lemma guarded_in_list: "list_all P xs \<Longrightarrow> (\<And>q c. prefix p q \<Longrightarrow> P c \<Longrightarrow> G q c) \<Longrightarrow> guarded_in G p xs"
  by (induction xs arbitrary: p) (auto dest: append_prefixD)

lemma wp_guarded:
  assumes "uses P m" and "guarded G h p" and "\<And>q c. prefix p q \<Longrightarrow> P c \<Longrightarrow> G q c"
  shows "wp m (\<lambda>r q. guarded G h q \<and> prefix p q) p"
  by (rule wp_usesI [OF assms(1)]) (auto intro: guarded_append [OF assms(2)] guarded_in_list assms(3))

lemma guarded_in_mem: "guarded_in G h xs \<Longrightarrow> c \<in> set xs \<Longrightarrow> \<exists>ys zs. xs = ys @ c # zs \<and> G (h @ ys) c"
proof (induction xs arbitrary: h)
  case (Cons x xs)
  show ?case
  proof (cases "x = c")
    case False
    with Cons obtain ys zs where "xs = ys @ c # zs" "G ((h @ [x]) @ ys) c" by (metis guarded_in.simps(2) set_ConsD)
    then show ?thesis by (intro exI [of _ "x # ys"] exI [of _ zs]) simp
  qed (use Cons.prems in fastforce)
qed simp

lemma guarded_mem:
  "guarded G h h' \<Longrightarrow> c \<in> set (drop (length h) h') \<Longrightarrow> \<exists>p. prefix h p \<and> prefix (p @ [c]) h' \<and> G p c"
  by (auto simp: guarded_def dest!: guarded_in_mem) (metis append.assoc append_Cons append_Nil prefixI)

section \<open>Invariants of the history\<close>

definition keeps :: "('c list \<Rightarrow> bool) \<Rightarrow> ('c, 'a) io \<Rightarrow> bool" where
  "keeps J m = (\<forall>h. J h \<longrightarrow> J (final m h))"

lemma keeps_wp: "keeps J m \<longleftrightarrow> (\<forall>h. J h \<longrightarrow> wp m (\<lambda>r. J) h)"
  by (simp add: keeps_def wp_def)

lemma wp_keeps: "keeps J m \<Longrightarrow> J h \<Longrightarrow> wp m (\<lambda>r. J) h"
  by (simp add: keeps_wp)

lemma keeps_ret [keep_intros]: "keeps J (ret x)" "keeps J get_hist" "keeps J (okE y)" "keeps J (failE e)"
  by (auto simp: keeps_wp wp_simps)

lemma keeps_bnd [keep_intros]: "keeps J m \<Longrightarrow> (\<And>x. keeps J (f x)) \<Longrightarrow> keeps J (bnd m f)"
  unfolding keeps_wp wp_bnd by (blast intro: wp_mono)

lemma keeps_case_sum [keep_intros]:
  "(\<And>y. keeps J (m y)) \<Longrightarrow> (\<And>y. keeps J (n y)) \<Longrightarrow> keeps J (case x of Inl y \<Rightarrow> m y | Inr y \<Rightarrow> n y)"
  by (simp split: sum.splits)

lemma keeps_case_option [keep_intros]:
  "(x = None \<Longrightarrow> keeps J m) \<Longrightarrow> (\<And>y. x = Some y \<Longrightarrow> keeps J (n y)) \<Longrightarrow> keeps J (case x of None \<Rightarrow> m | Some y \<Rightarrow> n y)"
  by (simp split: option.splits)

lemma keeps_case_prod [keep_intros]: "(\<And>a b. keeps J (m a b)) \<Longrightarrow> keeps J (case x of (a, b) \<Rightarrow> m a b)"
  by (simp split: prod.splits)

lemma keeps_if [keep_intros]: "(b \<Longrightarrow> keeps J m) \<Longrightarrow> (\<not> b \<Longrightarrow> keeps J n) \<Longrightarrow> keeps J (if b then m else n)"
  by simp

lemma keeps_bindE [keep_intros]: "keeps J m \<Longrightarrow> (\<And>x. keeps J (f x)) \<Longrightarrow> keeps J (bindE m f)"
  unfolding bindE_def by (intro keep_intros)

lemma keeps_catchE [keep_intros]: "keeps J m \<Longrightarrow> (\<And>x. keeps J (f x)) \<Longrightarrow> (\<And>x. keeps J (g x)) \<Longrightarrow> keeps J (catchE m f g)"
  unfolding catchE_def by (intro keep_intros)

lemma keeps_thenI [keep_intros]: "keeps J m \<Longrightarrow> keeps J k \<Longrightarrow> keeps J (thenI m k)"
  unfolding thenI_def by (intro keep_intros)

lemma keeps_uses:
  assumes "uses P m" and "\<And>q c. J q \<Longrightarrow> P c \<Longrightarrow> J (q @ [c])"
  shows "keeps J m"
proof -
  have "list_all P xs \<Longrightarrow> J h \<Longrightarrow> J (h @ xs)" for h xs
  proof (induction xs arbitrary: h)
    case (Cons x xs)
    then show ?case using Cons.IH [of "h @ [x]"] assms(2) by simp
  qed simp
  then show ?thesis by (auto simp: keeps_wp intro!: wp_usesI [OF assms(1)])
qed

text \<open>The next operation may rely on what the result of this one says of the history.\<close>

lemma keeps_bnd_post:
  "(\<And>h. J h \<Longrightarrow> wp m (\<lambda>r q. J q \<and> R r q) h) \<Longrightarrow> (\<And>r. keeps (\<lambda>q. J q \<and> R r q) (f r)) \<Longrightarrow> keeps J (bnd m f)"
  unfolding keeps_wp wp_bnd by (blast intro: wp_mono)

lemma keeps_weaken: "keeps (\<lambda>q. J q \<and> R q) m \<Longrightarrow> R h \<Longrightarrow> J h \<Longrightarrow> wp m (\<lambda>r. J) h"
  unfolding keeps_wp by (blast intro: wp_mono)

lemma keeps_catchE_post:
  assumes "\<And>h. J h \<Longrightarrow> wp m (\<lambda>r q. J q \<and> (\<forall>x. r = Inr x \<longrightarrow> R x q)) h"
    and "\<And>e. keeps J (f e)" and "\<And>x. keeps (\<lambda>q. J q \<and> R x q) (g x)"
  shows "keeps J (catchE m f g)"
  unfolding keeps_wp wp_catchE
proof (intro allI impI)
  fix h assume "J h"
  have "wp (g x) (\<lambda>r. J) q" if "J q" "R x q" for x q
    by (rule keeps_weaken [OF assms(3) that(2,1)])
  with assms(2) show "wp m (\<lambda>r h'. case r of Inl e \<Rightarrow> wp (f e) (\<lambda>r. J) h' | Inr x \<Rightarrow> wp (g x) (\<lambda>r. J) h') h"
    by (intro wp_mono [OF assms(1) [OF \<open>J h\<close>]]) (auto simp: keeps_wp split: sum.splits)
qed

section \<open>Transition systems\<close>

inductive reach :: "('s \<Rightarrow> bool) \<Rightarrow> ('s \<Rightarrow> 's \<Rightarrow> bool) \<Rightarrow> 's \<Rightarrow> bool"
  for init :: "'s \<Rightarrow> bool" and step :: "'s \<Rightarrow> 's \<Rightarrow> bool" where
  reach_init: "init s \<Longrightarrow> reach init step s"
| reach_step: "reach init step s \<Longrightarrow> step s t \<Longrightarrow> reach init step t"

text \<open>What a component that runs as a transition system promises: an inductive invariant.\<close>

locale inductive_system =
  fixes init :: "'s \<Rightarrow> bool" and step :: "'s \<Rightarrow> 's \<Rightarrow> bool" and inv :: "'s \<Rightarrow> bool"
  assumes inv_init: "init s \<Longrightarrow> inv s"
    and inv_step: "step s t \<Longrightarrow> inv s \<Longrightarrow> inv t"
begin

lemma reach_inv: "reach init step s \<Longrightarrow> inv s"
  by (induction rule: reach.induct) (auto intro: inv_init inv_step)

end

section \<open>Codecs\<close>

text \<open>An encoding that is read back: what the headers, the keys and the stored values rely on.\<close>

locale codec =
  fixes valid :: "'a \<Rightarrow> bool" and enc :: "'a \<Rightarrow> 'b" and dec :: "'b \<Rightarrow> 'a option"
  assumes dec_enc: "valid x \<Longrightarrow> dec (enc x) = Some x"
begin

lemma enc_inj: "valid x \<Longrightarrow> valid y \<Longrightarrow> enc x = enc y \<Longrightarrow> x = y"
  by (metis dec_enc option.inject)

end

section \<open>Lists and options\<close>

lemma prefix_snoc_self [simp]: "prefix h (h @ [c])"
  by simp

lemma dropWhile_rev_idem: "dropWhile P (rev (dropWhile P (rev (dropWhile P xs)))) = rev (dropWhile P (rev (dropWhile P xs)))"
proof (cases "dropWhile P xs")
  case Nil
  then show ?thesis by (simp only: rev.simps dropWhile.simps)
next
  case (Cons y ys)
  then have "\<not> P y" by (metis hd_dropWhile list.distinct(1) list.sel(1))
  then have "dropWhile P (rev (y # ys)) = dropWhile P (rev ys) @ [y]"
    by (simp add: dropWhile_append)
  with Cons \<open>\<not> P y\<close> show ?thesis by simp
qed

end
