(* ===== verification/GoStrings.thy ===== *)
theory GoStrings
  imports Prelude "HOL-Library.Char_ord"
begin

text \<open>
  The parts of Go's strings, unicode, utf8, utf16 and strconv packages the server uses.  A Go
  string is a sequence of bytes, modelled as a \<open>string\<close> (a list of 8-bit characters); runes are
  natural numbers.  \<open>next_rune\<close> is utf8.DecodeRune: an invalid byte is U+FFFD with width 1.
\<close>

type_synonym gostr = string

section \<open>UTF-8\<close>

definition byte :: "char \<Rightarrow> nat" where
  "byte c = of_char c"

definition rune_error :: nat where
  "rune_error = 0xFFFD"

definition in_range :: "nat \<Rightarrow> nat \<Rightarrow> char \<Rightarrow> bool" where
  "in_range lo hi c = (lo \<le> byte c \<and> byte c \<le> hi)"

text \<open>The accepted range of the second byte depends on the first (no overlong forms, no surrogates).\<close>

definition second_ok :: "nat \<Rightarrow> char \<Rightarrow> bool" where
  "second_ok b c = in_range (if b = 0xE0 then 0xA0 else if b = 0xF0 then 0x90 else 0x80)
     (if b = 0xED then 0x9F else if b = 0xF4 then 0x8F else 0xBF) c"

definition cont_ok :: "char \<Rightarrow> bool" where
  "cont_ok c = in_range 0x80 0xBF c"

fun next_rune :: "gostr \<Rightarrow> nat \<times> nat" where
  "next_rune [] = (rune_error, 0)"
| "next_rune (c # cs) =
     (let b = byte c in
      if b < 0x80 then (b, 1)
      else if 0xC2 \<le> b \<and> b \<le> 0xDF then
        (case cs of
           c1 # _ \<Rightarrow> if second_ok b c1
                     then ((b - 0xC0) * 64 + (byte c1 - 0x80), 2) else (rune_error, 1)
         | _ \<Rightarrow> (rune_error, 1))
      else if 0xE0 \<le> b \<and> b \<le> 0xEF then
        (case cs of
           c1 # c2 # _ \<Rightarrow>
             if second_ok b c1 \<and> cont_ok c2
             then ((b - 0xE0) * 4096 + (byte c1 - 0x80) * 64 + (byte c2 - 0x80), 3)
             else (rune_error, 1)
         | _ \<Rightarrow> (rune_error, 1))
      else if 0xF0 \<le> b \<and> b \<le> 0xF4 then
        (case cs of
           c1 # c2 # c3 # _ \<Rightarrow>
             if second_ok b c1 \<and> cont_ok c2 \<and> cont_ok c3
             then ((b - 0xF0) * 262144 + (byte c1 - 0x80) * 4096 + (byte c2 - 0x80) * 64
                     + (byte c3 - 0x80), 4)
             else (rune_error, 1)
         | _ \<Rightarrow> (rune_error, 1))
      else (rune_error, 1))"

lemma next_rune_width_pos: "s \<noteq> [] \<Longrightarrow> 0 < snd (next_rune s)"
  by (cases s) (auto simp: Let_def split: list.splits)

lemma next_rune_width_le: "snd (next_rune s) \<le> length s"
  by (cases s) (auto simp: Let_def split: list.splits)

text \<open>The runes of a string, each with the bytes it was decoded from (Go's \<^verbatim>\<open>for _, r := range s\<close>).\<close>

function runes :: "gostr \<Rightarrow> (nat \<times> gostr) list" where
  "runes s = (if s = [] then [] else
     (let (r, w) = next_rune s in (r, take w s) # runes (drop w s)))"
  by pat_completeness auto
termination
proof (relation "measure length", goal_cases)
  case 1
  then show ?case by simp
next
  case (2 s x r w)
  then have "0 < w" using next_rune_width_pos[of s] by (simp add: prod_eq_iff)
  with 2 show ?case by simp
qed

declare runes.simps [simp del]

definition unrunes :: "(nat \<times> gostr) list \<Rightarrow> gostr" where
  "unrunes rs = concat (map snd rs)"

definition valid_utf8 :: "gostr \<Rightarrow> bool" where
  "valid_utf8 s = list_all (\<lambda>(r, bs). \<not> (r = rune_error \<and> length bs = 1)) (runes s)"

section \<open>Trimming and case\<close>

text \<open>unicode.IsSpace.\<close>

definition is_space :: "nat \<Rightarrow> bool" where
  "is_space r = (r \<in> {9, 10, 11, 12, 13, 32, 0x85, 0xA0, 0x1680, 0x2028, 0x2029, 0x202F, 0x205F, 0x3000}
     \<or> (0x2000 \<le> r \<and> r \<le> 0x200A))"

text \<open>strings.TrimFunc, strings.TrimSpace and the blank test built on it.\<close>

definition trim_func :: "(nat \<Rightarrow> bool) \<Rightarrow> gostr \<Rightarrow> gostr" where
  "trim_func p s = unrunes (rev (dropWhile (p \<circ> fst) (rev (dropWhile (p \<circ> fst) (runes s)))))"

definition trim_space :: "gostr \<Rightarrow> gostr" where
  "trim_space s = trim_func is_space s"

definition is_blank :: "gostr \<Rightarrow> bool" where
  "is_blank s = (trim_space s = [])"

text \<open>
  strings.ToUpper and strings.ToLower as far as the server can observe them: their results are only
  compared with ASCII strings, so the runes that matter are the ASCII letters and the four other
  runes whose case mapping is ASCII.
\<close>

definition upper_rune :: "nat \<times> gostr \<Rightarrow> gostr" where
  "upper_rune rb = (case rb of (r, bs) \<Rightarrow>
     if 97 \<le> r \<and> r \<le> 122 then [char_of (r - 32)]
     else if r = 0x131 then ''I'' else if r = 0x17F then ''S'' else bs)"

definition lower_rune :: "nat \<times> gostr \<Rightarrow> gostr" where
  "lower_rune rb = (case rb of (r, bs) \<Rightarrow>
     if 65 \<le> r \<and> r \<le> 90 then [char_of (r + 32)]
     else if r = 0x130 then ''i'' else if r = 0x212A then ''k'' else bs)"

definition to_upper :: "gostr \<Rightarrow> gostr" where
  "to_upper s = concat (map upper_rune (runes s))"

definition to_lower :: "gostr \<Rightarrow> gostr" where
  "to_lower s = concat (map lower_rune (runes s))"

section \<open>Lengths in UTF-16 code units\<close>

text \<open>len(utf16.Encode([]rune(s))): a rune at or above U+10000 takes two units.\<close>

definition rune_units :: "nat \<Rightarrow> nat" where
  "rune_units r = (if 0x10000 \<le> r then 2 else 1)"

definition utf16_len :: "gostr \<Rightarrow> nat" where
  "utf16_len s = sum_list (map (rune_units \<circ> fst) (runes s))"

text \<open>strings.Builder.WriteRune: an invalid byte was read as U+FFFD and is written as such.\<close>

definition write_rune :: "nat \<times> gostr \<Rightarrow> nat \<times> gostr" where
  "write_rune rb = (if fst rb = rune_error \<and> length (snd rb) = 1
     then (rune_error, map char_of [0xEF, 0xBF, 0xBD :: nat]) else rb)"

section \<open>Prefixes, searching and splitting\<close>

definition has_prefix :: "gostr \<Rightarrow> gostr \<Rightarrow> bool" where
  "has_prefix s p = (take (length p) s = p)"

definition has_suffix :: "gostr \<Rightarrow> gostr \<Rightarrow> bool" where
  "has_suffix s p = (length p \<le> length s \<and> drop (length s - length p) s = p)"

text \<open>The part of a string from its last occurrence of a byte, if there is one (LastIndex).\<close>

definition from_last :: "char \<Rightarrow> gostr \<Rightarrow> gostr option" where
  "from_last c s = (if c \<in> set s then Some (c # rev (takeWhile (\<lambda>x. x \<noteq> c) (rev s))) else None)"

definition after_last :: "char \<Rightarrow> gostr \<Rightarrow> gostr" where
  "after_last c s = rev (takeWhile (\<lambda>x. x \<noteq> c) (rev s))"

fun split_on :: "char \<Rightarrow> gostr \<Rightarrow> gostr list" where
  "split_on c [] = [[]]"
| "split_on c (x # xs) =
     (if x = c then [] # split_on c xs
      else (case split_on c xs of [] \<Rightarrow> [[x]] | p # ps \<Rightarrow> (x # p) # ps))"

fun join :: "gostr \<Rightarrow> gostr list \<Rightarrow> gostr" where
  "join sep [] = []"
| "join sep [x] = x"
| "join sep (x # y # zs) = x @ sep @ join sep (y # zs)"

section \<open>strconv\<close>

definition digit_char :: "nat \<Rightarrow> char" where
  "digit_char d = char_of (48 + d)"

fun nat_digits :: "nat \<Rightarrow> gostr" where
  "nat_digits n = (if n < 10 then [digit_char n] else nat_digits (n div 10) @ [digit_char (n mod 10)])"

declare nat_digits.simps [simp del]

text \<open>strconv.Itoa and strconv.FormatInt in base 10.\<close>

definition itoa :: "int \<Rightarrow> gostr" where
  "itoa n = (if n < 0 then CHR ''-'' # nat_digits (nat (- n)) else nat_digits (nat n))"

definition is_digit :: "char \<Rightarrow> bool" where
  "is_digit c = (48 \<le> byte c \<and> byte c \<le> 57)"

definition digits_val :: "gostr \<Rightarrow> nat" where
  "digits_val ds = foldl (\<lambda>n c. n * 10 + (byte c - 48)) 0 ds"

definition parse_nat :: "gostr \<Rightarrow> nat option" where
  "parse_nat s = (if s \<noteq> [] \<and> list_all is_digit s then Some (digits_val s) else None)"

definition in_bits :: "nat \<Rightarrow> int \<Rightarrow> bool" where
  "in_bits w n = (- (2 ^ (w - 1)) \<le> n \<and> n < 2 ^ (w - 1))"

text \<open>strconv.ParseInt(s, 10, w): an optional sign, digits, and a range check.\<close>

definition parse_int :: "nat \<Rightarrow> gostr \<Rightarrow> int option" where
  "parse_int w s =
     (let m = (case s of
                 c # cs \<Rightarrow> if c = CHR ''-'' then map_option (\<lambda>n. - int n) (parse_nat cs)
                           else if c = CHR ''+'' then map_option int (parse_nat cs)
                           else map_option int (parse_nat s)
               | [] \<Rightarrow> None)
      in case m of Some n \<Rightarrow> if in_bits w n then Some n else None | None \<Rightarrow> None)"

abbreviation "atoi \<equiv> parse_int 64"

section \<open>Hexadecimal strings\<close>

definition is_hex :: "char \<Rightarrow> bool" where
  "is_hex c = (is_digit c \<or> (97 \<le> byte c \<and> byte c \<le> 102) \<or> (65 \<le> byte c \<and> byte c \<le> 70))"

text \<open>The regular expression \<^verbatim>\<open>^[a-fA-F0-9]{32}$\<close> used for MD5 digests.\<close>

definition md5_pattern :: "gostr \<Rightarrow> bool" where
  "md5_pattern s = (length s = 32 \<and> list_all is_hex s)"

section \<open>Facts\<close>

lemma runes_Nil [simp]: "runes [] = []"
  by (simp add: runes.simps)

lemma runes_step: "s \<noteq> [] \<Longrightarrow> runes s = (fst (next_rune s), take (snd (next_rune s)) s) # runes (drop (snd (next_rune s)) s)"
  by (simp add: runes.simps [of s] case_prod_beta Let_def)

lemma unrunes_runes [simp]: "unrunes (runes s) = s"
proof (induction s rule: runes.induct)
  case (1 s)
  then show ?case
    by (cases "s = []") (auto simp: runes_step unrunes_def prod_eq_iff)
qed

lemma runes_bytes_nonempty: "(r, bs) \<in> set (runes s) \<Longrightarrow> bs \<noteq> []"
proof (induction s rule: runes.induct)
  case (1 s)
  show ?case
  proof (cases "s = []")
    case False
    then have "(r, bs) \<in> set (runes (drop (snd (next_rune s)) s)) \<Longrightarrow> bs \<noteq> []"
      using "1.IH" [OF False refl, of "fst (next_rune s)" "snd (next_rune s)"] by simp
    with False "1.prems" next_rune_width_pos [OF False] show ?thesis
      by (auto simp: runes_step)
  qed (use "1.prems" in simp)
qed

lemma runes_eq_Nil [simp]: "runes s = [] \<longleftrightarrow> s = []"
  by (metis runes_Nil unrunes_runes unrunes_def list.map(1) concat.simps(1))

lemma ascii_next_rune: "byte c < 0x80 \<Longrightarrow> next_rune (c # cs) = (byte c, 1)"
  by (simp add: Let_def)

lemma runes_ascii_Cons: "byte c < 0x80 \<Longrightarrow> runes (c # cs) = (byte c, [c]) # runes cs"
  by (subst runes_step) (auto simp: ascii_next_rune simp del: next_rune.simps)

lemma runes_ascii: "list_all (\<lambda>c. byte c < 0x80) s \<Longrightarrow> runes s = map (\<lambda>c. (byte c, [c])) s"
  by (induction s) (auto simp: runes_ascii_Cons)

lemma is_hex_ascii: "is_hex c \<Longrightarrow> byte c < 0x80"
  by (auto simp: is_hex_def is_digit_def)

text \<open>Decoding a string cut at a rune boundary gives the runes before the cut.\<close>

lemma next_rune_take:
  assumes "snd (next_rune s) \<le> n"
  shows "next_rune (take n s) = next_rune s"
proof (cases s)
  case (Cons c cs)
  with assms next_rune_width_pos [of s] obtain m where n: "n = Suc m" by (cases n) auto
  define b where "b = byte c"
  consider "b < 0x80" | "0xC2 \<le> b" "b \<le> 0xDF" | "0xE0 \<le> b" "b \<le> 0xEF" | "0xF0 \<le> b" "b \<le> 0xF4"
    | "b = 0x80 \<or> (0x80 \<le> b \<and> b < 0xC2) \<or> 0xF4 < b" by linarith
  then show ?thesis
  proof cases
    case 2
    with assms show ?thesis
      unfolding Cons n by (cases cs; cases m) (auto simp: Let_def simp flip: b_def split: if_splits)
  next
    case 3
    with assms show ?thesis
      unfolding Cons n
      by (cases cs; cases "tl cs"; cases m; cases "m - 1") (auto simp: Let_def simp flip: b_def split: if_splits)
  next
    case 4
    with assms show ?thesis
      unfolding Cons n
      by (cases cs; cases "tl cs"; cases "tl (tl cs)"; cases m; cases "m - 1"; cases "m - 2")
         (auto simp: Let_def simp flip: b_def split: if_splits)
  qed (auto simp: Cons n Let_def simp flip: b_def)
qed simp

lemma runes_prefix: "\<exists>t. s = unrunes (take k (runes s)) @ t \<and> runes (unrunes (take k (runes s))) = take k (runes s)"
proof (induction k arbitrary: s)
  case 0
  then show ?case by (simp add: unrunes_def)
next
  case (Suc k)
  show ?case
  proof (cases "s = []")
    case False
    let ?w = "snd (next_rune s)" and ?d = "drop (snd (next_rune s)) s"
    from Suc.IH [of ?d] obtain t where t: "?d = unrunes (take k (runes ?d)) @ t"
      and r: "runes (unrunes (take k (runes ?d))) = take k (runes ?d)" by blast
    let ?u = "unrunes (take k (runes ?d))"
    let ?v = "take ?w s @ ?u"
    have v: "unrunes (take (Suc k) (runes s)) = ?v"
      using False by (simp add: runes_step unrunes_def)
    have s: "s = ?v @ t" using t by (metis append_take_drop_id append.assoc)
    have lw: "length (take ?w s) = ?w" using next_rune_width_le [of s] by simp
    have wl: "?w \<le> length ?v" using lw by simp
    have "?v = take (length ?v) s" using s by (metis append_eq_conv_conj)
    with next_rune_take [OF wl] have nr: "next_rune ?v = next_rune s" by metis
    have "?v \<noteq> []" using next_rune_width_pos [OF False] False by auto
    then have "runes ?v = (fst (next_rune s), take ?w ?v) # runes (drop ?w ?v)"
      by (subst runes_step) (simp_all add: nr)
    also have "take ?w ?v = take ?w s" using lw by simp
    also have "drop ?w ?v = ?u" using lw by simp
    finally have "runes ?v = take (Suc k) (runes s)"
      using r False by (simp add: runes_step)
    with s v show ?thesis by metis
  qed (simp add: unrunes_def)
qed

lemma runes_drop: "runes (unrunes (drop k (runes s))) = drop k (runes s)"
proof (induction k arbitrary: s)
  case (Suc k)
  show ?case
  proof (cases "s = []")
    case False
    with Suc.IH [of "drop (snd (next_rune s)) s"] show ?thesis by (simp add: runes_step)
  qed (simp add: unrunes_def)
qed simp

lemma runes_trim_func:
  "runes (trim_func p s) = rev (dropWhile (p \<circ> fst) (rev (dropWhile (p \<circ> fst) (runes s))))"
proof -
  let ?q = "p \<circ> fst"
  obtain k where k: "dropWhile ?q (runes s) = drop k (runes s)"
    by (metis dropWhile_eq_drop)
  let ?t = "unrunes (drop k (runes s))"
  have t: "runes ?t = dropWhile ?q (runes s)" by (simp add: runes_drop k)
  obtain j where "dropWhile ?q (rev (runes ?t)) = drop j (rev (runes ?t))"
    by (metis dropWhile_eq_drop)
  then have j: "rev (dropWhile ?q (rev (runes ?t))) = take (length (runes ?t) - j) (runes ?t)"
    by (simp add: rev_drop)
  show ?thesis
    using runes_prefix [of ?t "length (runes ?t) - j"] by (simp add: trim_func_def j flip: t)
qed

lemma trim_func_idem [simp]: "trim_func p (trim_func p s) = trim_func p s"
proof -
  have "rev (dropWhile (p \<circ> fst) (rev (dropWhile (p \<circ> fst) (runes (trim_func p s))))) = runes (trim_func p s)"
    by (simp add: runes_trim_func dropWhile_rev_idem dropWhile_idem)
  then show ?thesis by (metis trim_func_def unrunes_runes)
qed

lemma trim_space_idem [simp]: "trim_space (trim_space s) = trim_space s"
  by (simp add: trim_space_def)

lemma is_blank_trim [simp]: "is_blank (trim_space s) = is_blank s"
  by (simp add: is_blank_def)

lemma trim_func_eq_Nil: "trim_func p s = [] \<longleftrightarrow> (\<forall>rb \<in> set (runes s). p (fst rb))"
proof -
  have "trim_func p s = [] \<longleftrightarrow> runes (trim_func p s) = []" by simp
  also have "\<dots> \<longleftrightarrow> dropWhile (p \<circ> fst) (rev (dropWhile (p \<circ> fst) (runes s))) = []"
    by (simp only: runes_trim_func rev_is_Nil_conv)
  also have "\<dots> \<longleftrightarrow> (\<forall>rb \<in> set (dropWhile (p \<circ> fst) (runes s)). p (fst rb))"
    by (simp add: dropWhile_eq_Nil_conv)
  also have "\<dots> \<longleftrightarrow> (\<forall>rb \<in> set (runes s). p (fst rb))"
  proof
    assume a: "\<forall>rb \<in> set (dropWhile (p \<circ> fst) (runes s)). p (fst rb)"
    then have "dropWhile (p \<circ> fst) (runes s) = []"
      by (metis comp_apply hd_dropWhile list.set_sel(1))
    then show "\<forall>rb \<in> set (runes s). p (fst rb)" by (simp add: dropWhile_eq_Nil_conv)
  qed (auto dest: set_dropWhileD)
  finally show ?thesis .
qed

text \<open>Decimal numerals are read back.\<close>

lemma byte_digit_char [simp]: "d < 10 \<Longrightarrow> byte (digit_char d) = 48 + d"
  by (simp add: byte_def digit_char_def)

lemma is_digit_digit_char [simp]: "d < 10 \<Longrightarrow> is_digit (digit_char d)"
  by (simp add: is_digit_def)

lemma nat_digits_digits: "list_all is_digit (nat_digits n)"
proof (induction n rule: nat_digits.induct)
  case (1 n)
  then show ?case by (cases "n < 10") (simp_all add: nat_digits.simps [of n])
qed

lemma nat_digits_nonempty [simp]: "nat_digits n \<noteq> []"
  by (subst nat_digits.simps) simp

lemma digits_val_nat_digits: "digits_val (nat_digits n) = n"
proof (induction n rule: nat_digits.induct)
  case (1 n)
  then show ?case
    by (cases "n < 10") (simp_all add: nat_digits.simps [of n] digits_val_def)
qed

lemma parse_nat_digits [simp]: "parse_nat (nat_digits n) = Some n"
  by (simp add: parse_nat_def nat_digits_digits digits_val_nat_digits)

lemma nat_digits_hd: "nat_digits n = c # cs \<Longrightarrow> is_digit c"
  using nat_digits_digits [of n] by simp

lemma digit_not_sign: "is_digit c \<Longrightarrow> c \<noteq> CHR ''-'' \<and> c \<noteq> CHR ''+''"
  by (auto simp: is_digit_def byte_def)

lemma parse_int_itoa: "in_bits w n \<Longrightarrow> parse_int w (itoa n) = Some n"
proof (cases "n < 0")
  case True
  assume "in_bits w n"
  with True show ?thesis by (simp add: parse_int_def itoa_def)
next
  case False
  assume b: "in_bits w n"
  obtain c cs where c: "nat_digits (nat n) = c # cs" by (meson nat_digits_nonempty neq_Nil_conv)
  then have "c \<noteq> CHR ''-''" "c \<noteq> CHR ''+''" using digit_not_sign [OF nat_digits_hd [OF c]] by auto
  with False b c show ?thesis
    using parse_nat_digits [of "nat n"] by (simp add: parse_int_def itoa_def)
qed

interpretation int64: codec "in_bits 64" itoa "parse_int 64"
  by unfold_locales (rule parse_int_itoa)

lemma itoa_nonempty [simp]: "itoa n \<noteq> []"
  by (simp add: itoa_def)

lemma parse_int_bits: "parse_int w s = Some n \<Longrightarrow> in_bits w n"
  by (auto simp: parse_int_def Let_def split: option.splits if_splits)

lemma next_rune_width_4: "snd (next_rune s) \<le> 4"
  by (cases s) (auto simp: Let_def split: list.splits)

lemma rune_bytes_4: "(r, bs) \<in> set (runes s) \<Longrightarrow> length bs \<le> 4"
proof (induction s rule: runes.induct)
  case (1 s)
  show ?case
  proof (cases "s = []")
    case False
    then have "(r, bs) \<in> set (runes (drop (snd (next_rune s)) s)) \<Longrightarrow> length bs \<le> 4"
      using "1.IH" [OF False refl, of "fst (next_rune s)" "snd (next_rune s)"] by simp
    with False "1.prems" next_rune_width_4 [of s] show ?thesis
      by (auto simp: runes_step)
  qed (use "1.prems" in simp)
qed

text \<open>A rune and its encoding: a list of them decodes to itself.\<close>

definition chunk :: "nat \<times> gostr \<Rightarrow> bool" where
  "chunk rb = (snd rb \<noteq> [] \<and> next_rune (snd rb) = (fst rb, length (snd rb)) \<and> \<not> (fst rb = rune_error \<and> length (snd rb) = 1))"

lemma next_rune_append:
  assumes "snd (next_rune s) = length s" and "\<not> (fst (next_rune s) = rune_error \<and> length s = 1)"
    and "s \<noteq> []"
  shows "next_rune (s @ t) = next_rune s"
proof -
  from assms(3) obtain c cs where s: "s = c # cs" by (cases s) auto
  have "length s \<le> 4" using next_rune_width_4 [of s] assms(1) by simp
  then consider "cs = []" | c1 where "cs = [c1]" | c1 c2 where "cs = [c1, c2]" | c1 c2 c3 where "cs = [c1, c2, c3]"
    unfolding s by (cases cs; cases "tl cs"; cases "tl (tl cs)"; cases "tl (tl (tl cs))") auto
  then show ?thesis
    using assms(1,2) unfolding s by cases (auto simp: Let_def rune_error_def split: if_splits)
qed

lemma runes_chunks: "list_all chunk rs \<Longrightarrow> runes (unrunes rs) = rs"
proof (induction rs)
  case (Cons rb rs)
  then have c: "chunk rb" by simp
  have n: "next_rune (snd rb @ unrunes rs) = (fst rb, length (snd rb))"
    using c next_rune_append [of "snd rb" "unrunes rs"] by (auto simp: chunk_def)
  have "unrunes (rb # rs) = snd rb @ unrunes rs" by (simp add: unrunes_def)
  then show ?case
    using c n Cons by (subst runes_step) (auto simp: chunk_def)
qed (simp add: unrunes_def)

lemma runes_mem: "(r, bs) \<in> set (runes s) \<Longrightarrow> next_rune bs = (r, length bs)"
proof (induction s rule: runes.induct)
  case (1 s)
  show ?case
  proof (cases "s = []")
    case False
    let ?w = "snd (next_rune s)"
    have ih: "(r, bs) \<in> set (runes (drop ?w s)) \<Longrightarrow> next_rune bs = (r, length bs)"
      using "1.IH" [OF False refl, of "fst (next_rune s)" ?w] by simp
    have "next_rune (take ?w s) = next_rune s" by (rule next_rune_take) simp
    then have "next_rune (take ?w s) = (fst (next_rune s), length (take ?w s))"
      using next_rune_width_le [of s] by simp
    with ih "1.prems" False show ?thesis by (auto simp: runes_step)
  qed (use "1.prems" in simp)
qed

lemma write_rune_fst [simp]: "fst (write_rune rb) = fst rb"
  by (simp add: write_rune_def)

lemma write_rune_chunk: "rb \<in> set (runes s) \<Longrightarrow> chunk (write_rune rb)"
proof (cases "fst rb = rune_error \<and> length (snd rb) = 1")
  case True
  then show ?thesis
    by (simp add: write_rune_def chunk_def rune_error_def byte_def Let_def second_ok_def cont_ok_def in_range_def)
next
  case False
  assume "rb \<in> set (runes s)"
  with False show ?thesis
    using runes_mem [of "fst rb" "snd rb" s] runes_bytes_nonempty [of "fst rb" "snd rb" s]
    by (auto simp: write_rune_def chunk_def)
qed

lemma byte_lt: "byte c < 256"
  by (simp add: byte_def)

lemma byte_char_of [simp]: "n < 256 \<Longrightarrow> byte (char_of n) = n"
  by (simp add: byte_def)

lemma char_of_byte [simp]: "char_of (byte c) = c"
  by (simp add: byte_def)

text \<open>Evaluation of the string functions on ASCII literals.\<close>

lemmas str_eval = is_blank_def trim_space_def trim_func_def runes_ascii_Cons byte_def is_space_def
  unrunes_def to_upper_def upper_rune_def to_lower_def lower_rune_def is_hex_def is_digit_def

lemma is_blank_Nil [simp]: "is_blank []"
  by (simp add: str_eval)

end
