(* ===== verification/Messages.thy ===== *)
theory Messages
  imports GoStrings
begin

text \<open>
  The user-visible texts of the server that are not ASCII, as the UTF-8 bytes of the source
  literals.  The comment after each constant gives its meaning.
\<close>

definition utf8 :: "nat list \<Rightarrow> gostr" where
  "utf8 bs = map char_of bs"

definition m_request_failed :: gostr where \<comment> \<open>the request failed\<close>
  "m_request_failed = utf8 [232, 175, 183, 230, 177, 130, 229, 164, 132, 231, 144, 134, 229, 164, 177, 232, 180, 165]"

definition m_validation_failed :: gostr where \<comment> \<open>request validation failed\<close>
  "m_validation_failed = utf8 [232, 175, 183, 230, 177, 130, 229, 143, 130, 230, 149, 176, 230, 160, 161, 233, 170,
    140, 229, 164, 177, 232, 180, 165]"

definition m_bad_params :: gostr where \<comment> \<open>invalid request parameters\<close>
  "m_bad_params = utf8 [232, 175, 183, 230, 177, 130, 229, 143, 130, 230, 149, 176, 228, 184, 141, 229, 144,
    136, 230, 179, 149]"

definition m_resource_missing :: gostr where \<comment> \<open>the resource does not exist\<close>
  "m_resource_missing = utf8 [232, 181, 132, 230, 186, 144, 228, 184, 141, 229, 173, 152, 229, 156, 168]"

definition m_no_permission :: gostr where \<comment> \<open>no permission\<close>
  "m_no_permission = utf8 [230, 151, 160, 232, 174, 191, 233, 151, 174, 230, 157, 131, 233, 153, 144]"

definition m_over_budget :: gostr where \<comment> \<open>the task exceeded its budget\<close>
  "m_over_budget = utf8 [228, 187, 187, 229, 138, 161, 229, 183, 178, 232, 182, 133, 229, 135, 186, 233, 162,
    132, 231, 174, 151]"

definition m_context_not_ready :: gostr where \<comment> \<open>the video context is not ready\<close>
  "m_context_not_ready = utf8 [232, 167, 134, 233, 162, 145, 228, 184, 138, 228, 184, 139, 230, 150, 135, 229, 176,
    154, 230, 156, 170, 229, 176, 177, 231, 187, 170]"

definition m_unavailable :: gostr where \<comment> \<open>service temporarily unavailable\<close>
  "m_unavailable = utf8 [230, 156, 141, 229, 138, 161, 230, 154, 130, 230, 151, 182, 228, 184, 141, 229, 143,
    175, 231, 148, 168]"

definition m_not_ready :: gostr where \<comment> \<open>the video has not been analysed yet\<close>
  "m_not_ready = utf8 [232, 167, 134, 233, 162, 145, 229, 134, 133, 229, 174, 185, 229, 176, 154, 230, 156,
    170, 232, 167, 163, 230, 158, 144, 229, 174, 140, 230, 136, 144, 239, 188, 140, 232,
    175, 183, 229, 133, 136, 229, 174, 140, 230, 136, 144, 228, 184, 128, 230, 172, 161,
    32, 86, 105, 100, 101, 111, 32, 65, 103, 101, 110, 116, 32, 229, 136, 134, 230, 158, 144]"

definition m_unsupported_mode :: gostr where \<comment> \<open>unsupported analysis mode (prefix)\<close>
  "m_unsupported_mode = utf8 [228, 184, 141, 230, 148, 175, 230, 140, 129, 231, 154, 132, 229, 136, 134, 230, 158,
    144, 230, 168, 161, 229, 188, 143, 58, 32]"

definition m_done :: gostr where \<comment> \<open>task completed\<close>
  "m_done = utf8 [228, 187, 187, 229, 138, 161, 229, 174, 140, 230, 136, 144]"

definition m_general_reason :: gostr where \<comment> \<open>analysed in general mode\<close>
  "m_general_reason = utf8 [229, 183, 178, 230, 140, 137, 233, 128, 154, 231, 148, 168, 230, 168, 161, 229, 188,
    143, 229, 136, 134, 230, 158, 144]"

definition m_unit_separator :: gostr where \<comment> \<open>the symbol for unit separator, U+241F\<close>
  "m_unit_separator = utf8 [226, 144, 159]"

definition m_quota_exhausted :: gostr where \<comment> \<open>daily allowance used up\<close>
  "m_quota_exhausted = utf8 [232, 191, 153, 228, 184, 170, 232, 180, 166, 229, 143, 183, 228, 187, 138, 229, 164,
    169, 231, 154, 132, 32, 65, 73, 32, 233, 162, 157, 229, 186, 166, 229, 183, 178, 231,
    148, 168, 229, 174, 140, 239, 188, 140, 230, 152, 142, 229, 164, 169, 229, 134, 141,
    230, 157, 165, 239, 188, 140, 230, 136, 150, 232, 129, 148, 231, 179, 187, 228, 189,
    156, 232, 128, 133, 232, 142, 183, 229, 143, 150, 229, 134, 133, 230, 181, 139, 232,
    180, 166, 229, 143, 183]"

definition m_msg_empty :: gostr where \<comment> \<open>empty message body\<close>
  "m_msg_empty = utf8 [230, 182, 136, 230, 129, 175, 228, 189, 147, 228, 184, 186, 231, 169, 186]"

definition m_msg_no_media :: gostr where \<comment> \<open>mediaId is missing\<close>
  "m_msg_no_media = utf8 [231, 188, 186, 229, 176, 145, 32, 109, 101, 100, 105, 97, 73, 100]"

definition m_msg_no_goal :: gostr where \<comment> \<open>the goal is missing\<close>
  "m_msg_no_goal = utf8 [231, 188, 186, 229, 176, 145, 229, 136, 134, 230, 158, 144, 231, 155, 174, 230, 160, 135]"

definition m_msg_bad_action :: gostr where \<comment> \<open>unsupported action (prefix)\<close>
  "m_msg_bad_action = utf8 [228, 184, 141, 230, 148, 175, 230, 140, 129, 231, 154, 132, 32, 97, 99, 116, 105, 111,
    110, 61]"

definition m_msg_undecodable :: gostr where \<comment> \<open>the message cannot be parsed (prefix)\<close>
  "m_msg_undecodable = utf8 [230, 182, 136, 230, 129, 175, 230, 151, 160, 230, 179, 149, 232, 167, 163, 230, 158,
    144, 58, 32]"

definition m_retry_waiting :: gostr where \<comment> \<open>attempt failed, waiting for the retry\<close>
  "m_retry_waiting = utf8 [230, 156, 172, 230, 172, 161, 230, 137, 167, 232, 161, 140, 229, 164, 177, 232, 180,
    165, 239, 188, 140, 231, 173, 137, 229, 190, 133, 232, 135, 170, 229, 138, 168, 233,
    135, 141, 232, 175, 149]"

definition m_dead_lettered :: gostr where \<comment> \<open>failed, handed to manual processing\<close>
  "m_dead_lettered = utf8 [229, 136, 134, 230, 158, 144, 229, 164, 177, 232, 180, 165, 239, 188, 140, 229, 183,
    178, 232, 191, 155, 229, 133, 165, 228, 186, 186, 229, 183, 165, 229, 164, 132, 231,
    144, 134, 233, 152, 159, 229, 136, 151]"

definition m_budget_reached :: gostr where \<comment> \<open>the agent reached the task budget\<close>
  "m_budget_reached = utf8 [65, 103, 101, 110, 116, 32, 229, 183, 178, 232, 190, 190, 229, 136, 176, 230, 156, 172,
    230, 172, 161, 228, 187, 187, 229, 138, 161, 233, 162, 132, 231, 174, 151]"

definition m_task_started :: gostr where \<comment> \<open>the analysis task started\<close>
  "m_task_started = utf8 [232, 167, 134, 233, 162, 145, 229, 136, 134, 230, 158, 144, 228, 187, 187, 229, 138,
    161, 229, 188, 128, 229, 167, 139, 230, 137, 167, 232, 161, 140]"

definition m_revision_missing :: gostr where \<comment> \<open>the staged revision is missing\<close>
  "m_revision_missing = utf8 [228, 191, 174, 232, 174, 162, 228, 187, 187, 229, 138, 161, 231, 138, 182, 230, 128,
    129, 228, 184, 141, 229, 173, 152, 229, 156, 168, 239, 188, 140, 231, 173, 137, 229,
    190, 133, 233, 135, 141, 232, 175, 149]"

definition m_poison_stuck :: gostr where \<comment> \<open>poison message cannot be parked\<close>
  "m_poison_stuck = utf8 [230, 175, 146, 230, 182, 136, 230, 129, 175, 230, 151, 160, 230, 179, 149, 230, 148,
    182, 230, 149, 155, 239, 188, 154, 229, 164, 177, 232, 180, 165, 229, 143, 176, 232,
    180, 166, 228, 184, 142, 230, 173, 187, 228, 191, 161, 228, 184, 187, 233, 162, 152,
    229, 157, 135, 228, 184, 141, 229, 143, 175, 231, 148, 168, 239, 188, 140, 230, 154,
    130, 228, 184, 141, 230, 143, 144, 228, 186, 164, 228, 189, 141, 231, 130, 185]"

definition m_poison_ended :: gostr where \<comment> \<open>illegal task message, terminated\<close>
  "m_poison_ended = utf8 [228, 187, 187, 229, 138, 161, 230, 182, 136, 230, 129, 175, 233, 157, 158, 230, 179,
    149, 239, 188, 140, 229, 183, 178, 231, 187, 136, 230, 173, 162]"

definition m_queued_async :: gostr where \<comment> \<open>the task entered the analysis queue\<close>
  "m_queued_async = utf8 [228, 187, 187, 229, 138, 161, 229, 183, 178, 232, 191, 155, 229, 133, 165, 229, 188,
    130, 230, 173, 165, 229, 136, 134, 230, 158, 144, 233, 152, 159, 229, 136, 151]"

definition m_limiter_down :: gostr where \<comment> \<open>the rate limiter is unavailable\<close>
  "m_limiter_down = utf8 [65, 73, 32, 230, 156, 141, 229, 138, 161, 233, 153, 144, 230, 181, 129, 229, 153, 168,
    230, 154, 130, 228, 184, 141, 229, 143, 175, 231, 148, 168, 239, 188, 140, 232, 175,
    183, 231, 168, 141, 229, 144, 142, 229, 134, 141, 232, 175, 149]"

definition m_too_frequent :: gostr where \<comment> \<open>too many AI requests\<close>
  "m_too_frequent = utf8 [65, 73, 32, 232, 175, 183, 230, 177, 130, 232, 191, 135, 228, 186, 142, 233, 162, 145,
    231, 185, 129, 239, 188, 140, 232, 175, 183, 231, 168, 141, 229, 144, 142, 229, 134,
    141, 232, 175, 149]"

definition m_no_goal_column :: gostr where \<comment> \<open>(the message has no goal)\<close>
  "m_no_goal_column = utf8 [40, 230, 182, 136, 230, 129, 175, 231, 188, 186, 229, 176, 145, 229, 136, 134, 230,
    158, 144, 231, 155, 174, 230, 160, 135, 41]"

definition m_failed_missing :: gostr where \<comment> \<open>the failed task does not exist\<close>
  "m_failed_missing = utf8 [229, 164, 177, 232, 180, 165, 228, 187, 187, 229, 138, 161, 228, 184, 141, 229, 173,
    152, 229, 156, 168]"

definition m_already_replayed :: gostr where \<comment> \<open>already replayed\<close>
  "m_already_replayed = utf8 [232, 175, 165, 229, 164, 177, 232, 180, 165, 228, 187, 187, 229, 138, 161, 229, 183,
    178, 231, 187, 143, 233, 135, 141, 230, 148, 190]"

definition m_not_replayable :: gostr where \<comment> \<open>a poison record cannot be replayed\<close>
  "m_not_replayable = utf8 [232, 175, 165, 232, 174, 176, 229, 189, 149, 230, 157, 165, 232, 135, 170, 233, 157,
    158, 230, 179, 149, 228, 187, 187, 229, 138, 161, 230, 182, 136, 230, 129, 175, 239,
    188, 140, 231, 188, 186, 229, 176, 145, 229, 143, 175, 233, 135, 141, 230, 148, 190,
    231, 154, 132, 229, 142, 159, 229, 167, 139, 229, 143, 130, 230, 149, 176]"

definition m_same_task_running :: gostr where \<comment> \<open>the same task is being processed\<close>
  "m_same_task_running = utf8 [231, 155, 184, 229, 144, 140, 228, 187, 187, 229, 138, 161, 230, 173, 163, 229, 156,
    168, 229, 164, 132, 231, 144, 134, 228, 184, 173]"

definition m_replay_ledger_failed :: gostr where \<comment> \<open>the replay could not be recorded\<close>
  "m_replay_ledger_failed = utf8 [229, 164, 177, 232, 180, 165, 228, 187, 187, 229, 138, 161, 233, 135, 141, 230, 148,
    190, 229, 143, 176, 232, 180, 166, 230, 155, 180, 230, 150, 176, 229, 164, 177, 232,
    180, 165]"

definition m_requeued_by_admin :: gostr where \<comment> \<open>requeued by an administrator\<close>
  "m_requeued_by_admin = utf8 [229, 164, 177, 232, 180, 165, 228, 187, 187, 229, 138, 161, 229, 183, 178, 231, 148,
    177, 231, 174, 161, 231, 144, 134, 229, 145, 152, 233, 135, 141, 230, 150, 176, 229,
    133, 165, 233, 152, 159]"

definition m_budget_retry :: gostr where \<comment> \<open>budget reached, adjust the goal\<close>
  "m_budget_retry = utf8 [65, 103, 101, 110, 116, 32, 229, 183, 178, 232, 190, 190, 229, 136, 176, 230, 156, 172,
    230, 172, 161, 228, 187, 187, 229, 138, 161, 233, 162, 132, 231, 174, 151, 239, 188,
    140, 232, 175, 183, 232, 176, 131, 230, 149, 180, 231, 155, 174, 230, 160, 135, 229,
    144, 142, 233, 135, 141, 232, 175, 149]"

definition m_analysis_failed :: gostr where \<comment> \<open>analysis failed, try again\<close>
  "m_analysis_failed = utf8 [229, 136, 134, 230, 158, 144, 229, 164, 177, 232, 180, 165, 239, 188, 140, 232, 175,
    183, 231, 168, 141, 229, 144, 142, 233, 135, 141, 232, 175, 149]"

definition m_not_submitted :: gostr where \<comment> \<open>no analysis submitted yet\<close>
  "m_not_submitted = utf8 [229, 176, 154, 230, 156, 170, 230, 143, 144, 228, 186, 164, 229, 136, 134, 230, 158,
    144, 228, 187, 187, 229, 138, 161]"

definition m_st_queued :: gostr where \<comment> \<open>the task is queued\<close>
  "m_st_queued = utf8 [228, 187, 187, 229, 138, 161, 229, 183, 178, 230, 142, 146, 233, 152, 159]"

definition m_st_context :: gostr where \<comment> \<open>extracting speech and key frames\<close>
  "m_st_context = utf8 [230, 173, 163, 229, 156, 168, 232, 167, 163, 230, 158, 144, 232, 167, 134, 233, 162,
    145, 232, 175, 173, 233, 159, 179, 229, 146, 140, 229, 133, 179, 233, 148, 174, 231,
    148, 187, 233, 157, 162]"

definition m_st_retrieval :: gostr where \<comment> \<open>retrieving evidence\<close>
  "m_st_retrieval = utf8 [230, 173, 163, 229, 156, 168, 230, 163, 128, 231, 180, 162, 228, 184, 142, 231, 155,
    174, 230, 160, 135, 231, 155, 184, 229, 133, 179, 231, 154, 132, 232, 167, 134, 233,
    162, 145, 232, 175, 129, 230, 141, 174]"

definition m_st_planned :: gostr where \<comment> \<open>the planner finished\<close>
  "m_st_planned = utf8 [80, 108, 97, 110, 110, 101, 114, 32, 229, 183, 178, 229, 174, 140, 230, 136, 144, 228,
    187, 187, 229, 138, 161, 230, 139, 134, 232, 167, 163]"

definition m_st_executor :: gostr where \<comment> \<open>the executor is working\<close>
  "m_st_executor = utf8 [69, 120, 101, 99, 117, 116, 111, 114, 32, 230, 173, 163, 229, 156, 168, 231, 148, 159,
    230, 136, 144, 231, 187, 147, 230, 158, 132, 229, 140, 150, 228, 186, 167, 231, 137, 169]"

definition m_st_critic :: gostr where \<comment> \<open>the critic is checking\<close>
  "m_st_critic = utf8 [67, 114, 105, 116, 105, 99, 32, 230, 173, 163, 229, 156, 168, 230, 160, 184, 233, 170,
    140, 231, 187, 147, 232, 174, 186, 229, 146, 140, 232, 175, 129, 230, 141, 174]"

definition m_st_refresh :: gostr where \<comment> \<open>adding evidence after the critic\<close>
  "m_st_refresh = utf8 [230, 173, 163, 229, 156, 168, 230, 160, 185, 230, 141, 174, 32, 67, 114, 105, 116, 105,
    99, 32, 229, 143, 141, 233, 166, 136, 232, 161, 165, 229, 133, 133, 232, 175, 129, 230,
    141, 174]"

definition m_st_retrying :: gostr where \<comment> \<open>retrying automatically\<close>
  "m_st_retrying = utf8 [228, 187, 187, 229, 138, 161, 230, 137, 167, 232, 161, 140, 229, 188, 130, 229, 184,
    184, 239, 188, 140, 230, 173, 163, 229, 156, 168, 232, 135, 170, 229, 138, 168, 233,
    135, 141, 232, 175, 149]"

definition m_st_analysing :: gostr where \<comment> \<open>analysing the video\<close>
  "m_st_analysing = utf8 [230, 173, 163, 229, 156, 168, 229, 136, 134, 230, 158, 144, 232, 167, 134, 233, 162, 145]"

definition m_context_ready :: gostr where \<comment> \<open>context ready, agent starting\<close>
  "m_context_ready = utf8 [229, 164, 154, 230, 168, 161, 230, 128, 129, 228, 184, 138, 228, 184, 139, 230, 150,
    135, 229, 183, 178, 229, 176, 177, 231, 187, 170, 239, 188, 140, 65, 103, 101, 110,
    116, 32, 229, 188, 128, 229, 167, 139, 229, 136, 134, 230, 158, 144]"

definition m_lock_interrupted :: gostr where \<comment> \<open>waiting for the context lock was interrupted\<close>
  "m_lock_interrupted = utf8 [231, 173, 137, 229, 190, 133, 232, 167, 134, 233, 162, 145, 228, 184, 138, 228, 184,
    139, 230, 150, 135, 230, 158, 132, 229, 187, 186, 233, 148, 129, 232, 162, 171, 228,
    184, 173, 230, 150, 173]"

definition m_context_building :: gostr where \<comment> \<open>the context is being built elsewhere\<close>
  "m_context_building = utf8 [229, 144, 140, 228, 184, 128, 232, 167, 134, 233, 162, 145, 231, 154, 132, 228, 184,
    138, 228, 184, 139, 230, 150, 135, 230, 173, 163, 229, 156, 168, 230, 158, 132, 229,
    187, 186, 228, 184, 173, 239, 188, 140, 231, 168, 141, 229, 144, 142, 233, 135, 141,
    232, 175, 149]"

definition m_extracting :: gostr where \<comment> \<open>extracting speech and frames in parallel\<close>
  "m_extracting = utf8 [230, 173, 163, 229, 156, 168, 229, 185, 182, 232, 161, 140, 230, 143, 144, 229, 143,
    150, 232, 175, 173, 233, 159, 179, 228, 184, 142, 229, 133, 179, 233, 148, 174, 229,
    184, 167]"

definition m_cp_read :: gostr where \<comment> \<open>reading a checkpoint failed (prefix)\<close>
  "m_cp_read = utf8 [232, 175, 187, 229, 143, 150, 32, 65, 103, 101, 110, 116, 32, 67, 104, 101, 99, 107,
    112, 111, 105, 110, 116, 32, 229, 164, 177, 232, 180, 165, 58, 32]"

definition m_cp_save :: gostr where \<comment> \<open>saving a checkpoint failed\<close>
  "m_cp_save = utf8 [228, 191, 157, 229, 173, 152, 32, 65, 103, 101, 110, 116, 32, 67, 104, 101, 99, 107,
    112, 111, 105, 110, 116, 32, 229, 164, 177, 232, 180, 165]"

definition m_tr_queued :: gostr where \<comment> \<open>transcription queued\<close>
  "m_tr_queued = utf8 [230, 150, 135, 229, 173, 151, 230, 143, 144, 229, 143, 150, 228, 187, 187, 229, 138,
    161, 229, 183, 178, 230, 142, 146, 233, 152, 159]"

definition m_tr_failed :: gostr where \<comment> \<open>transcription failed\<close>
  "m_tr_failed = utf8 [230, 150, 135, 229, 173, 151, 230, 143, 144, 229, 143, 150, 229, 164, 177, 232, 180,
    165, 239, 188, 140, 232, 175, 183, 231, 168, 141, 229, 144, 142, 233, 135, 141, 232,
    175, 149]"

definition m_tr_running :: gostr where \<comment> \<open>recognising speech\<close>
  "m_tr_running = utf8 [230, 173, 163, 229, 156, 168, 232, 175, 134, 229, 136, 171, 232, 167, 134, 233, 162,
    145, 232, 175, 173, 233, 159, 179]"

definition m_tr_full :: gostr where \<comment> \<open>the task queue is full\<close>
  "m_tr_full = utf8 [228, 187, 187, 229, 138, 161, 233, 152, 159, 229, 136, 151, 229, 183, 178, 230, 187,
    161, 239, 188, 140, 232, 175, 183, 231, 168, 141, 229, 144, 142, 233, 135, 141, 232,
    175, 149]"

definition m_tr_extracting :: gostr where \<comment> \<open>extracting text\<close>
  "m_tr_extracting = utf8 [230, 173, 163, 229, 156, 168, 230, 143, 144, 229, 143, 150, 230, 150, 135, 229, 173, 151]"

definition m_tr_none :: gostr where \<comment> \<open>no transcription submitted\<close>
  "m_tr_none = utf8 [229, 176, 154, 230, 156, 170, 230, 143, 144, 228, 186, 164, 230, 150, 135, 229, 173,
    151, 230, 143, 144, 229, 143, 150, 228, 187, 187, 229, 138, 161]"

definition m_tr_unknown :: gostr where \<comment> \<open>task state unavailable\<close>
  "m_tr_unknown = utf8 [228, 187, 187, 229, 138, 161, 231, 138, 182, 230, 128, 129, 228, 184, 141, 229, 143,
    175, 231, 148, 168]"

definition m_merging :: gostr where \<comment> \<open>the upload is being merged\<close>
  "m_merging = utf8 [232, 175, 165, 228, 184, 138, 228, 188, 160, 228, 187, 187, 229, 138, 161, 230, 173,
    163, 229, 156, 168, 229, 144, 136, 229, 185, 182, 228, 184, 173, 239, 188, 140, 232,
    175, 183, 231, 168, 141, 229, 144, 142, 233, 135, 141, 232, 175, 149]"

definition m_chunks_missing1 :: gostr where \<comment> \<open>not all chunks are uploaded (prefix)\<close>
  "m_chunks_missing1 = utf8 [229, 136, 134, 231, 137, 135, 229, 176, 154, 230, 156, 170, 229, 133, 168, 233, 131,
    168, 228, 184, 138, 228, 188, 160, 229, 174, 140, 230, 136, 144, 239, 188, 136, 229,
    183, 178, 228, 188, 160, 32]"

definition m_chunks_missing2 :: gostr where \<comment> \<open>closing bracket\<close>
  "m_chunks_missing2 = utf8 [239, 188, 137]"

definition m_upload_forbidden :: gostr where \<comment> \<open>no access to this upload\<close>
  "m_upload_forbidden = utf8 [230, 151, 160, 230, 157, 131, 232, 174, 191, 233, 151, 174, 232, 175, 165, 228, 184,
    138, 228, 188, 160, 228, 187, 187, 229, 138, 161]"

definition m_md5_bad :: gostr where \<comment> \<open>md5 must be 32 hexadecimal digits\<close>
  "m_md5_bad = utf8 [109, 100, 53, 32, 229, 191, 133, 233, 161, 187, 230, 152, 175, 32, 51, 50, 32, 228,
    189, 141, 229, 141, 129, 229, 133, 173, 232, 191, 155, 229, 136, 182, 229, 173, 151,
    231, 172, 166, 228, 184, 178]"

definition m_size_bad :: gostr where \<comment> \<open>invalid file size\<close>
  "m_size_bad = utf8 [230, 150, 135, 228, 187, 182, 229, 164, 167, 229, 176, 143, 230, 151, 160, 230, 149, 136]"

definition m_challenge_bad :: gostr where \<comment> \<open>invalid challenge id\<close>
  "m_challenge_bad = utf8 [99, 104, 97, 108, 108, 101, 110, 103, 101, 73, 100, 32, 230, 151, 160, 230, 149, 136]"

definition m_challenge_expired :: gostr where \<comment> \<open>the challenge expired\<close>
  "m_challenge_expired = utf8 [231, 167, 146, 228, 188, 160, 230, 160, 161, 233, 170, 140, 229, 183, 178, 232, 191,
    135, 230, 156, 159, 239, 188, 140, 232, 175, 183, 233, 135, 141, 230, 150, 176, 228,
    184, 138, 228, 188, 160]"

definition m_range_md5_bad :: gostr where \<comment> \<open>rangeMd5 must be 32 hexadecimal digits\<close>
  "m_range_md5_bad = utf8 [114, 97, 110, 103, 101, 77, 100, 53, 32, 229, 191, 133, 233, 161, 187, 230, 152, 175,
    32, 51, 50, 32, 228, 189, 141, 229, 141, 129, 229, 133, 173, 232, 191, 155, 229, 136,
    182, 229, 173, 151, 231, 172, 166, 228, 184, 178]"

definition m_challenge_foreign :: gostr where \<comment> \<open>the challenge belongs to another user\<close>
  "m_challenge_foreign = utf8 [230, 151, 160, 230, 157, 131, 228, 189, 191, 231, 148, 168, 232, 175, 165, 231, 167,
    146, 228, 188, 160, 230, 160, 161, 233, 170, 140]"

definition m_challenge_corrupt :: gostr where \<comment> \<open>the challenge state is corrupt\<close>
  "m_challenge_corrupt = utf8 [231, 167, 146, 228, 188, 160, 230, 160, 161, 233, 170, 140, 231, 138, 182, 230, 128,
    129, 230, 141, 159, 229, 157, 143]"

definition m_file_busy :: gostr where \<comment> \<open>the file is being processed\<close>
  "m_file_busy = utf8 [230, 150, 135, 228, 187, 182, 230, 173, 163, 229, 156, 168, 232, 162, 171, 229, 164,
    132, 231, 144, 134, 239, 188, 140, 232, 175, 183, 231, 168, 141, 229, 144, 142, 233,
    135, 141, 232, 175, 149]"

definition m_proof_failed :: gostr where \<comment> \<open>the proof failed\<close>
  "m_proof_failed = utf8 [231, 167, 146, 228, 188, 160, 230, 160, 161, 233, 170, 140, 229, 164, 177, 232, 180,
    165, 239, 188, 140, 232, 175, 183, 230, 148, 185, 231, 148, 168, 230, 153, 174, 233,
    128, 154, 228, 184, 138, 228, 188, 160]"

definition m_filename_empty :: gostr where \<comment> \<open>the file name is empty\<close>
  "m_filename_empty = utf8 [232, 167, 134, 233, 162, 145, 230, 150, 135, 228, 187, 182, 229, 144, 141, 228, 184,
    141, 232, 131, 189, 228, 184, 186, 231, 169, 186]"

definition m_filename_bad :: gostr where \<comment> \<open>the file name is invalid or too long\<close>
  "m_filename_bad = utf8 [232, 167, 134, 233, 162, 145, 230, 150, 135, 228, 187, 182, 229, 144, 141, 230, 151,
    160, 230, 149, 136, 230, 136, 150, 232, 191, 135, 233, 149, 191]"

definition m_suffix_bad :: gostr where \<comment> \<open>unsupported video suffix\<close>
  "m_suffix_bad = utf8 [228, 187, 133, 230, 148, 175, 230, 140, 129, 32, 77, 80, 52, 227, 128, 129, 77, 79, 86,
    227, 128, 129, 77, 75, 86, 227, 128, 129, 65, 86, 73, 227, 128, 129, 87, 69, 66, 77,
    32, 229, 146, 140, 32, 77, 52, 86, 32, 232, 167, 134, 233, 162, 145]"

definition m_file_missing :: gostr where \<comment> \<open>the file does not exist\<close>
  "m_file_missing = utf8 [230, 150, 135, 228, 187, 182, 228, 184, 141, 229, 173, 152, 229, 156, 168]"

definition m_file_forbidden :: gostr where \<comment> \<open>no access to this file\<close>
  "m_file_forbidden = utf8 [230, 151, 160, 230, 157, 131, 232, 174, 191, 233, 151, 174, 232, 175, 165, 230, 150,
    135, 228, 187, 182]"

definition m_upload_empty :: gostr where \<comment> \<open>the uploaded file is empty\<close>
  "m_upload_empty = utf8 [228, 184, 138, 228, 188, 160, 230, 150, 135, 228, 187, 182, 228, 184, 141, 232, 131,
    189, 228, 184, 186, 231, 169, 186]"

definition m_url_empty :: gostr where \<comment> \<open>the link is empty\<close>
  "m_url_empty = utf8 [232, 167, 134, 233, 162, 145, 233, 147, 190, 230, 142, 165, 228, 184, 141, 232, 131,
    189, 228, 184, 186, 231, 169, 186]"

definition m_invite :: gostr where \<comment> \<open>an invite code is required\<close>
  "m_invite = utf8 [233, 161, 185, 231, 155, 174, 229, 134, 133, 230, 181, 139, 228, 184, 173, 239, 188,
    140, 232, 175, 183, 232, 129, 148, 231, 179, 187, 228, 189, 156, 232, 128, 133, 231,
    180, 162, 232, 166, 129, 229, 134, 133, 230, 181, 139, 231, 160, 129]"

definition m_reg_rules :: gostr where \<comment> \<open>account and password rules\<close>
  "m_reg_rules = utf8 [232, 180, 166, 229, 143, 183, 233, 156, 128, 228, 184, 186, 32, 51, 45, 51, 50, 32,
    228, 189, 141, 229, 173, 151, 230, 175, 141, 227, 128, 129, 230, 149, 176, 229, 173,
    151, 230, 136, 150, 228, 184, 139, 229, 136, 146, 231, 186, 191, 239, 188, 140, 229,
    175, 134, 231, 160, 129, 233, 156, 128, 228, 184, 186, 32, 56, 45, 49, 50, 56, 32, 228,
    189, 141]"

definition m_nick_long :: gostr where \<comment> \<open>the nickname is too long\<close>
  "m_nick_long = utf8 [230, 152, 181, 231, 167, 176, 228, 184, 141, 232, 131, 189, 232, 182, 133, 232, 191,
    135, 32, 53, 48, 32, 228, 184, 170, 229, 173, 151, 231, 172, 166]"

definition m_user_exists :: gostr where \<comment> \<open>the account exists\<close>
  "m_user_exists = utf8 [232, 175, 165, 232, 180, 166, 229, 143, 183, 229, 183, 178, 229, 173, 152, 229, 156, 168]"

definition m_user_prefix :: gostr where \<comment> \<open>user (prefix)\<close>
  "m_user_prefix = utf8 [231, 148, 168, 230, 136, 183]"

definition m_registered :: gostr where \<comment> \<open>registered\<close>
  "m_registered = utf8 [230, 179, 168, 229, 134, 140, 230, 136, 144, 229, 138, 159]"

definition m_need_credentials :: gostr where \<comment> \<open>account and password are needed\<close>
  "m_need_credentials = utf8 [232, 175, 183, 232, 190, 147, 229, 133, 165, 232, 180, 166, 229, 143, 183, 229, 146,
    140, 229, 175, 134, 231, 160, 129]"

definition m_login_throttled :: gostr where \<comment> \<open>too many login attempts\<close>
  "m_login_throttled = utf8 [231, 153, 187, 229, 189, 149, 229, 176, 157, 232, 175, 149, 232, 191, 135, 228, 186,
    142, 233, 162, 145, 231, 185, 129, 239, 188, 140, 232, 175, 183, 231, 168, 141, 229,
    144, 142, 229, 134, 141, 232, 175, 149]"

definition m_bad_credentials :: gostr where \<comment> \<open>wrong account or password\<close>
  "m_bad_credentials = utf8 [232, 180, 166, 229, 143, 183, 230, 136, 150, 229, 175, 134, 231, 160, 129, 233, 148,
    153, 232, 175, 175]"

definition m_logged_in :: gostr where \<comment> \<open>logged in\<close>
  "m_logged_in = utf8 [231, 153, 187, 229, 189, 149, 230, 136, 144, 229, 138, 159]"

definition m_admin_only :: gostr where \<comment> \<open>administrators only\<close>
  "m_admin_only = utf8 [228, 187, 133, 231, 174, 161, 231, 144, 134, 229, 145, 152, 229, 143, 175, 230, 147,
    141, 228, 189, 156, 229, 164, 177, 232, 180, 165, 228, 187, 187, 229, 138, 161]"

definition m_session_invalid :: gostr where \<comment> \<open>the session is no longer valid\<close>
  "m_session_invalid = utf8 [231, 153, 187, 229, 189, 149, 231, 138, 182, 230, 128, 129, 229, 183, 178, 229, 164,
    177, 230, 149, 136]"

definition m_login_first :: gostr where \<comment> \<open>please log in\<close>
  "m_login_first = utf8 [232, 175, 183, 229, 133, 136, 231, 153, 187, 229, 189, 149]"

definition m_bad_token :: gostr where \<comment> \<open>invalid credential\<close>
  "m_bad_token = utf8 [230, 151, 160, 230, 149, 136, 231, 154, 132, 231, 153, 187, 229, 189, 149, 229, 135,
    173, 232, 175, 129]"

definition m_vc_failed :: gostr where \<comment> \<open>building the video context failed\<close>
  "m_vc_failed = utf8 [86, 105, 100, 101, 111, 67, 111, 110, 116, 101, 120, 116, 32, 230, 158, 132, 229, 187,
    186, 229, 164, 177, 232, 180, 165]"

definition m_vc_timeout :: gostr where \<comment> \<open>a branch exceeded the total budget\<close>
  "m_vc_timeout = utf8 [86, 105, 100, 101, 111, 67, 111, 110, 116, 101, 120, 116, 32, 229, 136, 134, 230, 148,
    175, 229, 164, 132, 231, 144, 134, 232, 182, 133, 232, 191, 135, 230, 128, 187, 230,
    151, 182, 233, 151, 180, 233, 162, 132, 231, 174, 151]"

definition m_both_failed :: gostr where \<comment> \<open>both branches failed\<close>
  "m_both_failed = utf8 [65, 83, 82, 32, 229, 146, 140, 32, 79, 67, 82, 32, 229, 136, 134, 230, 148, 175, 229,
    157, 135, 229, 164, 177, 232, 180, 165]"

definition m_nothing_found :: gostr where \<comment> \<open>nothing was recognised\<close>
  "m_nothing_found = utf8 [232, 167, 134, 233, 162, 145, 230, 156, 170, 232, 167, 163, 230, 158, 144, 229, 135,
    186, 230, 156, 137, 230, 149, 136, 232, 175, 173, 233, 159, 179, 230, 136, 150, 231,
    148, 187, 233, 157, 162, 230, 150, 135, 229, 173, 151]"

definition m_ocr_all_failed :: gostr where \<comment> \<open>all key frames failed\<close>
  "m_ocr_all_failed = utf8 [230, 137, 128, 230, 156, 137, 32, 79, 67, 82, 32, 229, 133, 179, 233, 148, 174, 229,
    184, 167, 229, 157, 135, 229, 164, 132, 231, 144, 134, 229, 164, 177, 232, 180, 165]"

definition m_asr_empty :: gostr where \<comment> \<open>ASR returned an empty text\<close>
  "m_asr_empty = utf8 [65, 83, 82, 32, 232, 191, 148, 229, 155, 158, 231, 169, 186, 230, 150, 135, 230, 156,
    172]"

definition m_asr_exhausted :: gostr where \<comment> \<open>ASR failed after all attempts\<close>
  "m_asr_exhausted = utf8 [65, 83, 82, 32, 232, 176, 131, 231, 148, 168, 229, 164, 177, 232, 180, 165, 239, 188,
    140, 229, 183, 178, 232, 190, 190, 229, 136, 176, 230, 156, 128, 229, 164, 167, 233,
    135, 141, 232, 175, 149, 230, 172, 161, 230, 149, 176]"

definition m_asr_all_failed :: gostr where \<comment> \<open>all audio segments failed\<close>
  "m_asr_all_failed = utf8 [230, 137, 128, 230, 156, 137, 32, 65, 83, 82, 32, 229, 136, 134, 231, 137, 135, 229,
    157, 135, 229, 164, 132, 231, 144, 134, 229, 164, 177, 232, 180, 165]"

definition m_transcribe_failed :: gostr where \<comment> \<open>transcription failed\<close>
  "m_transcribe_failed = utf8 [232, 167, 134, 233, 162, 145, 232, 189, 172, 229, 134, 153, 229, 164, 177, 232, 180, 165]"

definition m_path_empty :: gostr where \<comment> \<open>the video path is empty\<close>
  "m_path_empty = utf8 [232, 167, 134, 233, 162, 145, 232, 183, 175, 229, 190, 132, 228, 184, 186, 231, 169, 186]"

definition m_video_missing :: gostr where \<comment> \<open>the video file does not exist\<close>
  "m_video_missing = utf8 [232, 167, 134, 233, 162, 145, 230, 150, 135, 228, 187, 182, 228, 184, 141, 229, 173,
    152, 229, 156, 168]"

definition m_minio_read :: gostr where \<comment> \<open>reading an object failed\<close>
  "m_minio_read = utf8 [77, 105, 110, 73, 79, 32, 230, 150, 135, 228, 187, 182, 232, 175, 187, 229, 143, 150,
    229, 164, 177, 232, 180, 165]"

definition m_minio_stat :: gostr where \<comment> \<open>reading object info failed\<close>
  "m_minio_stat = utf8 [77, 105, 110, 73, 79, 32, 230, 150, 135, 228, 187, 182, 228, 191, 161, 230, 129, 175,
    232, 175, 187, 229, 143, 150, 229, 164, 177, 232, 180, 165]"

definition m_minio_remove :: gostr where \<comment> \<open>deleting an object failed\<close>
  "m_minio_remove = utf8 [77, 105, 110, 73, 79, 32, 230, 150, 135, 228, 187, 182, 229, 136, 160, 233, 153, 164,
    229, 164, 177, 232, 180, 165]"

definition m_minio_presign :: gostr where \<comment> \<open>presigning failed\<close>
  "m_minio_presign = utf8 [77, 105, 110, 73, 79, 32, 233, 162, 132, 231, 173, 190, 229, 144, 141, 229, 156, 176,
    229, 157, 128, 231, 148, 159, 230, 136, 144, 229, 164, 177, 232, 180, 165]"

definition m_minio_init :: gostr where \<comment> \<open>initialising MinIO failed\<close>
  "m_minio_init = utf8 [77, 105, 110, 73, 79, 32, 229, 136, 157, 229, 167, 139, 229, 140, 150, 229, 164, 177,
    232, 180, 165]"

definition m_minio_public :: gostr where \<comment> \<open>invalid MINIO_PUBLIC_ENDPOINT\<close>
  "m_minio_public = utf8 [77, 73, 78, 73, 79, 95, 80, 85, 66, 76, 73, 67, 95, 69, 78, 68, 80, 79, 73, 78, 84, 32,
    230, 151, 160, 230, 149, 136]"

definition m_source_missing :: gostr where \<comment> \<open>the source video does not exist\<close>
  "m_source_missing = utf8 [232, 167, 134, 233, 162, 145, 230, 186, 144, 230, 150, 135, 228, 187, 182, 228, 184,
    141, 229, 173, 152, 229, 156, 168]"

definition m_audio_failed :: gostr where \<comment> \<open>audio conversion failed\<close>
  "m_audio_failed = utf8 [233, 159, 179, 233, 162, 145, 232, 189, 172, 230, 141, 162, 229, 164, 177, 232, 180, 165]"

definition m_audio_timeout :: gostr where \<comment> \<open>audio conversion timed out\<close>
  "m_audio_timeout = utf8 [233, 159, 179, 233, 162, 145, 232, 189, 172, 230, 141, 162, 232, 182, 133, 230, 151, 182]"

definition m_ffmpeg_timeout :: gostr where \<comment> \<open>ffmpeg timed out\<close>
  "m_ffmpeg_timeout = utf8 [70, 70, 109, 112, 101, 103, 32, 230, 137, 167, 232, 161, 140, 232, 182, 133, 230, 151,
    182]"

definition m_ffmpeg_failed :: gostr where \<comment> \<open>ffmpeg failed\<close>
  "m_ffmpeg_failed = utf8 [70, 70, 109, 112, 101, 103, 32, 230, 137, 167, 232, 161, 140, 229, 164, 177, 232, 180,
    165]"

definition m_tr_busy :: gostr where \<comment> \<open>a transcription is running\<close>
  "m_tr_busy = utf8 [230, 150, 135, 229, 173, 151, 230, 143, 144, 229, 143, 150, 228, 187, 187, 229, 138,
    161, 230, 173, 163, 229, 156, 168, 229, 164, 132, 231, 144, 134, 228, 184, 173]"

definition m_f_goal :: gostr where \<comment> \<open>the field: analysis goal\<close>
  "m_f_goal = utf8 [229, 136, 134, 230, 158, 144, 231, 155, 174, 230, 160, 135]"

definition m_f_question :: gostr where \<comment> \<open>the field: follow-up question\<close>
  "m_f_question = utf8 [232, 191, 189, 233, 151, 174, 229, 134, 133, 229, 174, 185]"

definition m_f_orig_goal :: gostr where \<comment> \<open>the field: original goal\<close>
  "m_f_orig_goal = utf8 [229, 142, 159, 229, 167, 139, 229, 136, 134, 230, 158, 144, 231, 155, 174, 230, 160, 135]"

definition m_f_query :: gostr where \<comment> \<open>the field: search query\<close>
  "m_f_query = utf8 [230, 163, 128, 231, 180, 162, 233, 151, 174, 233, 162, 152]"

definition m_text_bounds :: gostr where \<comment> \<open>must not be empty nor exceed 500 characters\<close>
  "m_text_bounds = utf8 [228, 184, 141, 232, 131, 189, 228, 184, 186, 231, 169, 186, 228, 184, 148, 228, 184,
    141, 232, 131, 189, 232, 182, 133, 232, 191, 135, 32, 53, 48, 48, 32, 229, 173, 151]"

definition m_default_goal :: gostr where \<comment> \<open>the default goal\<close>
  "m_default_goal = utf8 [231, 144, 134, 232, 167, 163, 232, 167, 134, 233, 162, 145, 230, 160, 184, 229, 191,
    131, 229, 134, 133, 229, 174, 185, 229, 185, 182, 231, 148, 159, 230, 136, 144, 231,
    187, 147, 230, 158, 132, 229, 140, 150, 229, 136, 134, 230, 158, 144, 230, 138, 165,
    229, 145, 138]"

definition m_rt_quota :: gostr where \<comment> \<open>today's allowance is used up, general mode\<close>
  "m_rt_quota = utf8 [228, 187, 138, 230, 151, 165, 233, 162, 157, 229, 186, 166, 229, 183, 178, 231, 148,
    168, 229, 174, 140, 44, 229, 183, 178, 230, 140, 137, 233, 128, 154, 231, 148, 168,
    230, 168, 161, 229, 188, 143, 229, 136, 134, 230, 158, 144]"

definition m_rt_busy :: gostr where \<comment> \<open>routing is busy, general mode\<close>
  "m_rt_busy = utf8 [232, 135, 170, 229, 138, 168, 232, 183, 175, 231, 148, 177, 229, 189, 147, 229, 137,
    141, 231, 185, 129, 229, 191, 153, 44, 229, 183, 178, 230, 140, 137, 233, 128, 154,
    231, 148, 168, 230, 168, 161, 229, 188, 143, 229, 136, 134, 230, 158, 144]"

definition m_rt_down :: gostr where \<comment> \<open>classification unavailable, general mode\<close>
  "m_rt_down = utf8 [230, 132, 143, 229, 155, 190, 232, 175, 134, 229, 136, 171, 230, 154, 130, 228, 184,
    141, 229, 143, 175, 231, 148, 168, 44, 229, 183, 178, 230, 140, 137, 233, 128, 154,
    231, 148, 168, 230, 168, 161, 229, 188, 143, 229, 136, 134, 230, 158, 144]"

definition m_sub_limited :: gostr where \<comment> \<open>busy, try again later\<close>
  "m_sub_limited = utf8 [231, 179, 187, 231, 187, 159, 231, 185, 129, 229, 191, 153, 239, 188, 140, 232, 175,
    183, 231, 168, 141, 229, 144, 142, 229, 134, 141, 232, 175, 149]"

definition m_sub_duplicate :: gostr where \<comment> \<open>the same analysis is running\<close>
  "m_sub_duplicate = utf8 [231, 155, 184, 229, 144, 140, 232, 167, 134, 233, 162, 145, 229, 146, 140, 229, 136,
    134, 230, 158, 144, 231, 155, 174, 230, 160, 135, 230, 173, 163, 229, 156, 168, 229,
    164, 132, 231, 144, 134, 228, 184, 173]"

definition m_sub_failed :: gostr where \<comment> \<open>submission failed\<close>
  "m_sub_failed = utf8 [228, 187, 187, 229, 138, 161, 230, 143, 144, 228, 186, 164, 229, 164, 177, 232, 180, 165]"

definition m_rating :: gostr where \<comment> \<open>rating must be -1 or 1\<close>
  "m_rating = utf8 [114, 97, 116, 105, 110, 103, 32, 229, 143, 170, 232, 131, 189, 230, 152, 175, 32, 45,
    49, 32, 230, 136, 150, 32, 49]"

definition m_method :: gostr where \<comment> \<open>method not allowed\<close>
  "m_method = utf8 [232, 175, 183, 230, 177, 130, 230, 150, 185, 230, 179, 149, 228, 184, 141, 232, 162,
    171, 230, 148, 175, 230, 140, 129]"

definition m_ai_busy :: gostr where \<comment> \<open>too many interactive requests\<close>
  "m_ai_busy = utf8 [65, 73, 32, 232, 175, 183, 230, 177, 130, 232, 190, 131, 229, 164, 154, 239, 188, 140,
    232, 175, 183, 231, 168, 141, 229, 144, 142, 229, 134, 141, 232, 175, 149]"

definition m_ai_timeout :: gostr where \<comment> \<open>interactive request timed out\<close>
  "m_ai_timeout = utf8 [65, 73, 32, 232, 175, 183, 230, 177, 130, 229, 164, 132, 231, 144, 134, 232, 182, 133,
    230, 151, 182, 239, 188, 140, 232, 175, 183, 231, 168, 141, 229, 144, 142, 229, 134,
    141, 232, 175, 149]"

definition m_file_too_large :: gostr where \<comment> \<open>the upload exceeds the size limit\<close>
  "m_file_too_large = utf8 [228, 184, 138, 228, 188, 160, 230, 150, 135, 228, 187, 182, 232, 182, 133, 232, 191,
    135, 229, 164, 167, 229, 176, 143, 233, 153, 144, 229, 136, 182]"

definition m_v_user_blank :: gostr where \<comment> \<open>validation: account required\<close>
  "m_v_user_blank = utf8 [232, 180, 166, 229, 143, 183, 228, 184, 141, 232, 131, 189, 228, 184, 186, 231, 169, 186]"

definition m_v_user_range :: gostr where \<comment> \<open>validation: account length\<close>
  "m_v_user_range = utf8 [232, 180, 166, 229, 143, 183, 233, 156, 128, 228, 184, 186, 32, 51, 45, 51, 50, 32,
    228, 189, 141]"

definition m_v_pass_blank :: gostr where \<comment> \<open>validation: password required\<close>
  "m_v_pass_blank = utf8 [229, 175, 134, 231, 160, 129, 228, 184, 141, 232, 131, 189, 228, 184, 186, 231, 169, 186]"

definition m_v_pass_max :: gostr where \<comment> \<open>validation: password too long\<close>
  "m_v_pass_max = utf8 [229, 175, 134, 231, 160, 129, 228, 184, 141, 232, 131, 189, 232, 182, 133, 232, 191,
    135, 32, 49, 50, 56, 32, 228, 189, 141]"

definition m_v_pass_min :: gostr where \<comment> \<open>validation: password too short\<close>
  "m_v_pass_min = utf8 [229, 175, 134, 231, 160, 129, 233, 156, 128, 232, 135, 179, 229, 176, 145, 32, 56, 32,
    228, 189, 141]"

definition m_v_user_max :: gostr where \<comment> \<open>validation: account too long\<close>
  "m_v_user_max = utf8 [232, 180, 166, 229, 143, 183, 228, 184, 141, 232, 131, 189, 232, 182, 133, 232, 191,
    135, 32, 51, 50, 32, 228, 189, 141]"

definition m_v_goal_blank :: gostr where \<comment> \<open>validation: goal required\<close>
  "m_v_goal_blank = utf8 [229, 136, 134, 230, 158, 144, 231, 155, 174, 230, 160, 135, 228, 184, 141, 232, 131,
    189, 228, 184, 186, 231, 169, 186]"

definition m_v_goal_max :: gostr where \<comment> \<open>validation: goal too long\<close>
  "m_v_goal_max = utf8 [229, 136, 134, 230, 158, 144, 231, 155, 174, 230, 160, 135, 228, 184, 141, 232, 131,
    189, 232, 182, 133, 232, 191, 135, 32, 53, 48, 48, 32, 229, 173, 151]"

definition m_v_media :: gostr where \<comment> \<open>validation: media id required\<close>
  "m_v_media = utf8 [109, 101, 100, 105, 97, 73, 100, 32, 228, 184, 141, 232, 131, 189, 228, 184, 186, 231,
    169, 186]"

definition m_v_error_type :: gostr where \<comment> \<open>validation: error type too long\<close>
  "m_v_error_type = utf8 [233, 148, 153, 232, 175, 175, 231, 177, 187, 229, 158, 139, 228, 184, 141, 232, 131,
    189, 232, 182, 133, 232, 191, 135, 32, 54, 52, 32, 229, 173, 151]"

definition m_v_comment :: gostr where \<comment> \<open>validation: comment too long\<close>
  "m_v_comment = utf8 [229, 143, 141, 233, 166, 136, 232, 175, 180, 230, 152, 142, 228, 184, 141, 232, 131,
    189, 232, 182, 133, 232, 191, 135, 32, 50, 48, 48, 48, 32, 229, 173, 151]"

definition m_v_corrected :: gostr where \<comment> \<open>validation: corrected goal too long\<close>
  "m_v_corrected = utf8 [228, 191, 174, 230, 173, 163, 229, 144, 142, 231, 154, 132, 229, 136, 134, 230, 158,
    144, 231, 155, 174, 230, 160, 135, 228, 184, 141, 232, 131, 189, 232, 182, 133, 232,
    191, 135, 32, 53, 48, 48, 32, 229, 173, 151]"

definition m_v_tasks :: gostr where \<comment> \<open>validation: too many corrected tasks\<close>
  "m_v_tasks = utf8 [228, 191, 174, 230, 173, 163, 228, 187, 187, 229, 138, 161, 230, 156, 128, 229, 164,
    154, 32, 53, 32, 230, 157, 161]"

definition m_v_task :: gostr where \<comment> \<open>validation: corrected task too long\<close>
  "m_v_task = utf8 [230, 175, 143, 230, 157, 161, 228, 191, 174, 230, 173, 163, 228, 187, 187, 229, 138,
    161, 228, 184, 141, 232, 131, 189, 232, 182, 133, 232, 191, 135, 32, 53, 48, 48, 32,
    229, 173, 151]"

definition m_v_evidence :: gostr where \<comment> \<open>validation: negative evidence time\<close>
  "m_v_evidence = utf8 [232, 175, 129, 230, 141, 174, 230, 151, 182, 233, 151, 180, 230, 136, 179, 228, 184,
    141, 232, 131, 189, 228, 184, 186, 232, 180, 159, 230, 149, 176]"

definition m_yd_bad_url :: gostr where \<comment> \<open>only public HTTP links\<close>
  "m_yd_bad_url = utf8 [228, 187, 133, 230, 148, 175, 230, 140, 129, 229, 144, 136, 230, 179, 149, 231, 154,
    132, 229, 133, 172, 231, 189, 145, 32, 72, 84, 84, 80, 47, 72, 84, 84, 80, 83, 32, 232,
    167, 134, 233, 162, 145, 233, 147, 190, 230, 142, 165]"

definition m_yd_no_address :: gostr where \<comment> \<open>the host has no address\<close>
  "m_yd_no_address = utf8 [230, 151, 160, 230, 179, 149, 232, 167, 163, 230, 158, 144, 232, 167, 134, 233, 162,
    145, 233, 147, 190, 230, 142, 165, 231, 154, 132, 228, 184, 187, 230, 156, 186, 229,
    156, 176, 229, 157, 128]"

definition m_yd_private :: gostr where \<comment> \<open>local, private and reserved addresses are refused\<close>
  "m_yd_private = utf8 [228, 184, 141, 229, 133, 129, 232, 174, 184, 232, 174, 191, 233, 151, 174, 230, 156,
    172, 230, 156, 186, 227, 128, 129, 229, 134, 133, 231, 189, 145, 230, 136, 150, 228,
    191, 157, 231, 149, 153, 231, 189, 145, 230, 174, 181, 229, 156, 176, 229, 157, 128]"

definition m_yd_timeout :: gostr where \<comment> \<open>the download timed out\<close>
  "m_yd_timeout = utf8 [232, 167, 134, 233, 162, 145, 233, 147, 190, 230, 142, 165, 228, 184, 139, 232, 189,
    189, 232, 182, 133, 230, 151, 182]"

definition m_yd_failed :: gostr where \<comment> \<open>yt-dlp failed\<close>
  "m_yd_failed = utf8 [121, 116, 45, 100, 108, 112, 32, 228, 184, 139, 232, 189, 189, 229, 164, 177, 232, 180,
    165, 58, 32]"

definition m_yd_too_large :: gostr where \<comment> \<open>the video exceeds 2 GB\<close>
  "m_yd_too_large = utf8 [232, 167, 134, 233, 162, 145, 232, 182, 133, 232, 191, 135, 32, 50, 32, 71, 66, 239,
    188, 140, 230, 151, 160, 230, 179, 149, 233, 128, 154, 232, 191, 135, 233, 147, 190,
    230, 142, 165, 229, 175, 188, 229, 133, 165]"

definition m_yd_refused :: gostr where \<comment> \<open>the site refused the server\<close>
  "m_yd_refused = utf8 [232, 175, 165, 231, 189, 145, 231, 171, 153, 230, 139, 146, 231, 187, 157, 228, 186,
    134, 230, 156, 141, 229, 138, 161, 229, 153, 168, 231, 154, 132, 228, 184, 139, 232,
    189, 189, 232, 175, 183, 230, 177, 130, 239, 188, 140, 232, 175, 183, 229, 133, 136,
    230, 138, 138, 232, 167, 134, 233, 162, 145, 228, 191, 157, 229, 173, 152, 229, 136,
    176, 230, 156, 172, 229, 156, 176, 239, 188, 140, 229, 134, 141, 231, 148, 168, 228,
    184, 138, 228, 188, 160, 229, 138, 159, 232, 131, 189, 229, 175, 188, 229, 133, 165]"

definition m_yd_no_video :: gostr where \<comment> \<open>no video at the link\<close>
  "m_yd_no_video = utf8 [232, 191, 153, 228, 184, 170, 233, 147, 190, 230, 142, 165, 233, 135, 140, 230, 178,
    161, 230, 156, 137, 230, 137, 190, 229, 136, 176, 229, 143, 175, 228, 184, 139, 232,
    189, 189, 231, 154, 132, 232, 167, 134, 233, 162, 145, 239, 188, 140, 232, 175, 183,
    230, 141, 162, 230, 136, 144, 232, 167, 134, 233, 162, 145, 230, 150, 135, 228, 187,
    182, 231, 154, 132, 231, 155, 180, 233, 147, 190, 239, 188, 136, 229, 166, 130, 32, 46,
    109, 112, 52, 239, 188, 137]"

definition m_yd_site_timeout :: gostr where \<comment> \<open>the site timed out\<close>
  "m_yd_site_timeout = utf8 [232, 191, 158, 230, 142, 165, 232, 167, 134, 233, 162, 145, 231, 189, 145, 231, 171,
    153, 232, 182, 133, 230, 151, 182, 239, 188, 140, 232, 175, 183, 231, 168, 141, 229,
    144, 142, 233, 135, 141, 232, 175, 149, 230, 136, 150, 230, 148, 185, 228, 184, 186,
    228, 184, 138, 228, 188, 160, 230, 150, 135, 228, 187, 182]"

definition m_bl_connect :: gostr where \<comment> \<open>connecting to the site timed out\<close>
  "m_bl_connect = utf8 [232, 191, 158, 230, 142, 165, 32, 66, 32, 231, 171, 153, 232, 182, 133, 230, 151, 182,
    239, 188, 140, 232, 175, 183, 231, 168, 141, 229, 144, 142, 233, 135, 141, 232, 175,
    149, 230, 136, 150, 230, 148, 185, 228, 184, 186, 228, 184, 138, 228, 188, 160, 230,
    150, 135, 228, 187, 182]"

definition m_bl_short :: gostr where \<comment> \<open>the short link leads to no video page\<close>
  "m_bl_short = utf8 [232, 191, 153, 228, 184, 170, 32, 66, 32, 231, 171, 153, 231, 159, 173, 233, 147, 190,
    230, 178, 161, 230, 156, 137, 230, 140, 135, 229, 144, 145, 232, 167, 134, 233, 162,
    145, 233, 161, 181, 239, 188, 140, 232, 175, 183, 229, 164, 141, 229, 136, 182, 232,
    167, 134, 233, 162, 145, 233, 161, 181, 231, 154, 132, 233, 147, 190, 230, 142, 165]"

definition m_bl_http_a :: gostr where \<comment> \<open>the site refused the request (1)\<close>
  "m_bl_http_a = utf8 [66, 32, 231, 171, 153, 230, 139, 146, 231, 187, 157, 228, 186, 134, 230, 156, 141, 229,
    138, 161, 229, 153, 168, 231, 154, 132, 232, 175, 183, 230, 177, 130, 239, 188, 136,
    72, 84, 84, 80, 32]"

definition m_bl_http_b :: gostr where \<comment> \<open>the site refused the request (2)\<close>
  "m_bl_http_b = utf8 [239, 188, 137, 239, 188, 140, 232, 175, 183, 229, 133, 136, 230, 138, 138, 232, 167,
    134, 233, 162, 145, 228, 191, 157, 229, 173, 152, 229, 136, 176, 230, 156, 172, 229,
    156, 176, 229, 134, 141, 228, 184, 138, 228, 188, 160]"

definition m_bl_gone :: gostr where \<comment> \<open>the site does not return the video\<close>
  "m_bl_gone = utf8 [66, 32, 231, 171, 153, 230, 178, 161, 230, 156, 137, 232, 191, 148, 229, 155, 158, 232,
    191, 153, 228, 184, 170, 232, 167, 134, 233, 162, 145, 239, 188, 136, 229, 143, 175,
    232, 131, 189, 229, 183, 178, 229, 136, 160, 233, 153, 164, 227, 128, 129, 228, 187,
    133, 228, 188, 154, 229, 145, 152, 229, 143, 175, 231, 156, 139, 230, 136, 150, 230,
    156, 137, 229, 156, 176, 229, 140, 186, 233, 153, 144, 229, 136, 182, 239, 188, 137]"

definition m_bl_colon :: gostr where \<comment> \<open>a full-width colon\<close>
  "m_bl_colon = utf8 [239, 188, 154]"

definition m_bl_no_bv :: gostr where \<comment> \<open>only video page links\<close>
  "m_bl_no_bv = utf8 [229, 143, 170, 230, 148, 175, 230, 140, 129, 32, 66, 32, 231, 171, 153, 232, 167, 134,
    233, 162, 145, 233, 161, 181, 231, 154, 132, 233, 147, 190, 230, 142, 165, 239, 188,
    136, 229, 156, 176, 229, 157, 128, 233, 135, 140, 229, 184, 166, 32, 66, 86, 32, 229,
    143, 183, 239, 188, 137]"

definition m_bl_no_pages :: gostr where \<comment> \<open>no playable part\<close>
  "m_bl_no_pages = utf8 [232, 191, 153, 228, 184, 170, 32, 66, 32, 231, 171, 153, 232, 167, 134, 233, 162, 145,
    230, 178, 161, 230, 156, 137, 229, 143, 175, 230, 146, 173, 230, 148, 190, 231, 154,
    132, 229, 136, 134, 32, 80]"

definition m_bl_no_file :: gostr where \<comment> \<open>no file to download\<close>
  "m_bl_no_file = utf8 [66, 32, 231, 171, 153, 230, 178, 161, 230, 156, 137, 231, 187, 153, 229, 135, 186, 229,
    143, 175, 231, 155, 180, 230, 142, 165, 228, 184, 139, 232, 189, 189, 231, 154, 132,
    232, 167, 134, 233, 162, 145, 230, 150, 135, 228, 187, 182, 239, 188, 140, 232, 175,
    183, 229, 133, 136, 228, 191, 157, 229, 173, 152, 229, 136, 176, 230, 156, 172, 229,
    156, 176, 229, 134, 141, 228, 184, 138, 228, 188, 160]"

definition m_bl_off_cdn :: gostr where \<comment> \<open>the address is not on the CDN\<close>
  "m_bl_off_cdn = utf8 [66, 32, 231, 171, 153, 232, 191, 148, 229, 155, 158, 231, 154, 132, 228, 184, 139, 232,
    189, 189, 229, 156, 176, 229, 157, 128, 228, 184, 141, 229, 156, 168, 229, 133, 182,
    232, 167, 134, 233, 162, 145, 32, 67, 68, 78, 32, 228, 184, 138, 239, 188, 140, 229,
    183, 178, 230, 139, 146, 231, 187, 157]"

definition m_bl_cdn_a :: gostr where \<comment> \<open>the CDN refused the download\<close>
  "m_bl_cdn_a = utf8 [66, 32, 231, 171, 153, 232, 167, 134, 233, 162, 145, 230, 156, 141, 229, 138, 161, 229,
    153, 168, 230, 139, 146, 231, 187, 157, 228, 186, 134, 228, 184, 139, 232, 189, 189,
    239, 188, 136, 72, 84, 84, 80, 32]"

definition m_bl_cut :: gostr where \<comment> \<open>the connection broke\<close>
  "m_bl_cut = utf8 [228, 187, 142, 32, 66, 32, 231, 171, 153, 228, 184, 139, 232, 189, 189, 232, 167, 134,
    233, 162, 145, 230, 151, 182, 232, 191, 158, 230, 142, 165, 228, 184, 173, 230, 150,
    173, 239, 188, 140, 232, 175, 183, 231, 168, 141, 229, 144, 142, 233, 135, 141, 232,
    175, 149]"

definition m_bl_cut_often :: gostr where \<comment> \<open>the connection broke repeatedly\<close>
  "m_bl_cut_often = utf8 [228, 187, 142, 32, 66, 32, 231, 171, 153, 228, 184, 139, 232, 189, 189, 232, 167, 134,
    233, 162, 145, 230, 151, 182, 232, 191, 158, 230, 142, 165, 229, 143, 141, 229, 164,
    141, 228, 184, 173, 230, 150, 173, 239, 188, 140, 232, 175, 183, 231, 168, 141, 229,
    144, 142, 233, 135, 141, 232, 175, 149, 230, 136, 150, 230, 148, 185, 228, 184, 186,
    228, 184, 138, 228, 188, 160, 230, 150, 135, 228, 187, 182]"

definition m_bl_empty :: gostr where \<comment> \<open>an empty file\<close>
  "m_bl_empty = utf8 [66, 32, 231, 171, 153, 232, 191, 148, 229, 155, 158, 228, 186, 134, 231, 169, 186, 230,
    150, 135, 228, 187, 182, 239, 188, 140, 232, 175, 183, 229, 133, 136, 228, 191, 157,
    229, 173, 152, 229, 136, 176, 230, 156, 172, 229, 156, 176, 229, 134, 141, 228, 184,
    138, 228, 188, 160]"

lemma utf8_Nil_iff [simp]: "utf8 bs = [] \<longleftrightarrow> bs = []"
  by (simp add: utf8_def)

end
