(* ===== verification/Errors.thy ===== *)
theory Errors
  imports Messages
begin

text \<open>
  The error taxonomy of internal/common/errors.go and the response envelope of
  internal/common/result.go.  A Go error is a chain: \<open>TErr\<close> is the repository's \<^verbatim>\<open>*common.Error\<close>,
  the two context errors are their own constructors, and \<open>Plain\<close> is any other error, with its text
  and what errors.Unwrap returns.  A nil error is \<open>None\<close>.
\<close>

section \<open>Codes, kinds and errors\<close>

record error_code =
  ec_code :: int
  ec_status :: int

datatype kind =
    KindInternal | KindTransient | KindInvalidArgument | KindForbidden | KindNotFound
  | KindBudgetExhausted | KindNotReady | KindBusiness | KindValidation

datatype goerr =
    TErr (err_kind: kind) (err_code: error_code) (err_msg: gostr) (err_cause: "goerr option")
  | DeadlineExceeded
  | Canceled
  | Plain gostr "goerr option"

type_synonym 'a res = "goerr + 'a"

definition no_code :: error_code where "no_code = \<lparr>ec_code = 0, ec_status = 0\<rparr>"
definition CodeInvalidArgument :: error_code where "CodeInvalidArgument = \<lparr>ec_code = 40000, ec_status = 400\<rparr>"
definition CodeValidationFailed :: error_code where "CodeValidationFailed = \<lparr>ec_code = 40001, ec_status = 400\<rparr>"
definition CodeUnauthorized :: error_code where "CodeUnauthorized = \<lparr>ec_code = 40100, ec_status = 401\<rparr>"
definition CodeForbidden :: error_code where "CodeForbidden = \<lparr>ec_code = 40300, ec_status = 403\<rparr>"
definition CodeInviteRequired :: error_code where "CodeInviteRequired = \<lparr>ec_code = 40301, ec_status = 403\<rparr>"
definition CodeNotFound :: error_code where "CodeNotFound = \<lparr>ec_code = 40400, ec_status = 404\<rparr>"
definition CodeConflict :: error_code where "CodeConflict = \<lparr>ec_code = 40900, ec_status = 409\<rparr>"
definition CodeUnprocessable :: error_code where "CodeUnprocessable = \<lparr>ec_code = 42200, ec_status = 422\<rparr>"
definition CodeSourceBlocked :: error_code where "CodeSourceBlocked = \<lparr>ec_code = 42202, ec_status = 422\<rparr>"
definition CodeSourceUnsupported :: error_code where "CodeSourceUnsupported = \<lparr>ec_code = 42203, ec_status = 422\<rparr>"
definition CodeSourceTooLarge :: error_code where "CodeSourceTooLarge = \<lparr>ec_code = 42204, ec_status = 422\<rparr>"
definition CodeSourceTimeout :: error_code where "CodeSourceTimeout = \<lparr>ec_code = 42205, ec_status = 422\<rparr>"
definition CodeRateLimited :: error_code where "CodeRateLimited = \<lparr>ec_code = 42900, ec_status = 429\<rparr>"
definition CodeQuotaExhausted :: error_code where "CodeQuotaExhausted = \<lparr>ec_code = 42901, ec_status = 429\<rparr>"
definition CodeInternalError :: error_code where "CodeInternalError = \<lparr>ec_code = 50000, ec_status = 500\<rparr>"
definition CodeServiceUnavailable :: error_code where "CodeServiceUnavailable = \<lparr>ec_code = 50300, ec_status = 503\<rparr>"

fun error_text :: "goerr \<Rightarrow> gostr" where
  "error_text (TErr k c m u) = m"
| "error_text DeadlineExceeded = ''context deadline exceeded''"
| "error_text Canceled = ''context canceled''"
| "error_text (Plain m u) = m"

fun unwrap :: "goerr \<Rightarrow> goerr option" where
  "unwrap (TErr k c m u) = u"
| "unwrap (Plain m u) = u"
| "unwrap DeadlineExceeded = None"
| "unwrap Canceled = None"

definition reason_code :: "kind \<Rightarrow> gostr" where
  "reason_code k = (case k of
      KindTransient \<Rightarrow> ''TRANSIENT''
    | KindInvalidArgument \<Rightarrow> ''INVALID_ARGUMENT''
    | KindForbidden \<Rightarrow> ''FORBIDDEN''
    | KindNotFound \<Rightarrow> ''NOT_FOUND''
    | KindBudgetExhausted \<Rightarrow> ''BUDGET_EXHAUSTED''
    | KindNotReady \<Rightarrow> ''NOT_READY''
    | KindBusiness \<Rightarrow> ''REJECTED''
    | KindValidation \<Rightarrow> ''VALIDATION_FAILED''
    | KindInternal \<Rightarrow> ''INTERNAL'')"

definition InvalidArgument :: "gostr \<Rightarrow> goerr" where
  "InvalidArgument m = TErr KindInvalidArgument no_code m None"
definition Forbidden :: "gostr \<Rightarrow> goerr" where
  "Forbidden m = TErr KindForbidden no_code m None"
definition NotFound :: "gostr \<Rightarrow> goerr" where
  "NotFound m = TErr KindNotFound no_code m None"
definition Internal :: "gostr \<Rightarrow> goerr option \<Rightarrow> goerr" where
  "Internal m cause = TErr KindInternal no_code m cause"
definition Transient :: "gostr \<Rightarrow> goerr option \<Rightarrow> goerr" where
  "Transient m cause = TErr KindTransient no_code m cause"
definition BudgetExhausted :: "gostr \<Rightarrow> goerr option \<Rightarrow> goerr" where
  "BudgetExhausted m cause = TErr KindBudgetExhausted no_code m cause"
definition Business :: "error_code \<Rightarrow> gostr \<Rightarrow> goerr" where
  "Business c m = TErr KindBusiness c m None"
definition Validation :: "gostr \<Rightarrow> goerr" where
  "Validation m = TErr KindValidation no_code m None"
definition NotReady :: goerr where
  "NotReady = TErr KindNotReady no_code m_not_ready None"

section \<open>Walking the chain\<close>

text \<open>The loop \<^verbatim>\<open>for cur := err; cur != nil; cur = errors.Unwrap(cur)\<close> as the list of its values.\<close>

fun chain :: "goerr \<Rightarrow> goerr list" where
  "chain (TErr k c m (Some e)) = TErr k c m (Some e) # chain e"
| "chain (TErr k c m None) = [TErr k c m None]"
| "chain (Plain m (Some e)) = Plain m (Some e) # chain e"
| "chain (Plain m None) = [Plain m None]"
| "chain DeadlineExceeded = [DeadlineExceeded]"
| "chain Canceled = [Canceled]"

fun is_typed :: "goerr \<Rightarrow> bool" where
  "is_typed (TErr k c m u) = True"
| "is_typed e = False"

definition has_kind :: "goerr \<Rightarrow> kind \<Rightarrow> bool" where
  "has_kind e k = list_ex (\<lambda>c. is_typed c \<and> err_kind c = k) (chain e)"

text \<open>The reason code of the last (innermost) typed error seen by the loop, "" if there is none.\<close>

definition innermost_code :: "goerr \<Rightarrow> gostr" where
  "innermost_code e = foldl (\<lambda>acc c. if is_typed c then reason_code (err_kind c) else acc) [] (chain e)"

definition code_of :: "goerr option \<Rightarrow> gostr" where
  "code_of err = (case err of None \<Rightarrow> ''UNKNOWN'' | Some e \<Rightarrow>
     (let code = innermost_code e in
      if code \<noteq> [] \<and> code \<noteq> ''INTERNAL'' then code
      else if DeadlineExceeded \<in> set (chain e) then ''DEADLINE_EXCEEDED''
      else if Canceled \<in> set (chain e) then ''CANCELED''
      else if code \<noteq> [] then code
      else ''INTERNAL''))"

fun root_cause :: "goerr \<Rightarrow> goerr" where
  "root_cause (TErr k c m (Some e)) = root_cause e"
| "root_cause (Plain m (Some e)) = root_cause e"
| "root_cause e = e"

definition max_cause_depth :: nat where "max_cause_depth = 16"

definition permanent_kind :: "kind \<Rightarrow> bool" where
  "permanent_kind k = (k = KindInvalidArgument \<or> k = KindForbidden \<or> k = KindNotFound)"

text \<open>IsPermanentFailure: the depth counter is the remaining fuel, 16 at the start.\<close>

fun permanent_walk :: "nat \<Rightarrow> goerr option \<Rightarrow> bool" where
  "permanent_walk 0 cur = False"
| "permanent_walk (Suc n) None = False"
| "permanent_walk (Suc n) (Some e) =
     (if is_typed e \<and> permanent_kind (err_kind e) then True else permanent_walk n (unwrap e))"

definition is_permanent_failure :: "goerr option \<Rightarrow> bool" where
  "is_permanent_failure err = permanent_walk max_cause_depth err"

text \<open>Describe: the messages of the chain, skipping empty ones and repetitions of a suffix.\<close>

fun describe_walk :: "nat \<Rightarrow> goerr option \<Rightarrow> gostr list \<Rightarrow> gostr list" where
  "describe_walk 0 cur parts = parts"
| "describe_walk (Suc n) None parts = parts"
| "describe_walk (Suc n) (Some e) parts =
     (let msg = error_text e;
          parts' = (if msg \<noteq> [] \<and> (parts = [] \<or> \<not> has_suffix (last parts) msg) then parts @ [msg] else parts)
      in if is_typed e then describe_walk n (unwrap e) parts' else parts')"

definition describe :: "goerr \<Rightarrow> gostr" where
  "describe e = join '': '' (describe_walk max_cause_depth (Some e) [])"

section \<open>The response envelope and the HTTP mapping\<close>

record 'd envelope =
  r_code :: int
  r_message :: gostr
  r_data :: "'d option"

definition Ok :: "'d option \<Rightarrow> 'd envelope" where
  "Ok d = \<lparr>r_code = 0, r_message = ''success'', r_data = d\<rparr>"

definition Fail :: "error_code \<Rightarrow> gostr \<Rightarrow> 'd envelope" where
  "Fail c m = \<lparr>r_code = ec_code c, r_message = m, r_data = None\<rparr>"

definition safe :: "gostr \<Rightarrow> gostr \<Rightarrow> gostr" where
  "safe msg fallback = (if is_blank msg then fallback else msg)"

text \<open>errors.As into \<^verbatim>\<open>*Error\<close>: the first typed error of the chain.\<close>

definition as_typed :: "goerr \<Rightarrow> goerr option" where
  "as_typed e = find is_typed (chain e)"

definition to_http :: "goerr \<Rightarrow> int \<times> 'd envelope" where
  "to_http e =
     (let internal = (ec_status CodeInternalError, Fail CodeInternalError m_unavailable) in
      case as_typed e of
        None \<Rightarrow> internal
      | Some je \<Rightarrow>
          (case err_kind je of
             KindBusiness \<Rightarrow> (ec_status (err_code je), Fail (err_code je) (safe (err_msg je) m_request_failed))
           | KindValidation \<Rightarrow> (ec_status CodeValidationFailed, Fail CodeValidationFailed (safe (err_msg je) m_validation_failed))
           | KindInvalidArgument \<Rightarrow> (ec_status CodeInvalidArgument, Fail CodeInvalidArgument (safe (err_msg je) m_bad_params))
           | KindNotFound \<Rightarrow> (ec_status CodeNotFound, Fail CodeNotFound (safe (err_msg je) m_resource_missing))
           | KindForbidden \<Rightarrow> (ec_status CodeForbidden, Fail CodeForbidden (safe (err_msg je) m_no_permission))
           | KindBudgetExhausted \<Rightarrow> (ec_status CodeUnprocessable, Fail CodeUnprocessable (safe (err_msg je) m_over_budget))
           | KindNotReady \<Rightarrow> (ec_status CodeConflict, Fail CodeConflict (safe (err_msg je) m_context_not_ready))
           | KindInternal \<Rightarrow> internal
           | KindTransient \<Rightarrow> internal))"

lemmas error_ctor_defs = InvalidArgument_def Forbidden_def NotFound_def Internal_def Transient_def
  BudgetExhausted_def Business_def Validation_def NotReady_def

section \<open>Facts about chains\<close>

lemma chain_nonempty [simp]: "chain e \<noteq> []"
  by (cases e rule: chain.cases) auto

lemma chain_unwrap: "chain e = e # (case unwrap e of None \<Rightarrow> [] | Some u \<Rightarrow> chain u)"
  by (cases e rule: chain.cases) auto

lemma hd_chain [simp]: "hd (chain e) = e"
  by (subst chain_unwrap) simp

lemma last_chain_root: "last (chain e) = root_cause e"
  by (induction e rule: chain.induct) auto

lemma permanent_walk_take:
  "permanent_walk n (Some e) = list_ex (\<lambda>c. is_typed c \<and> permanent_kind (err_kind c)) (take n (chain e))"
proof (induction n arbitrary: e)
  case (Suc n)
  show ?case
  proof (cases "unwrap e")
    case None
    then show ?thesis by (cases n) (simp_all add: chain_unwrap [of e] del: chain.simps)
  qed (auto simp: chain_unwrap [of e] Suc.IH simp del: chain.simps)
qed simp

lemma reason_code_nonempty [simp]: "reason_code k \<noteq> []"
  by (simp add: reason_code_def split: kind.splits)

lemma foldl_typed_start:
  "list_ex is_typed xs \<Longrightarrow>
   foldl (\<lambda>acc c. if is_typed c then reason_code (err_kind c) else acc) a xs =
   foldl (\<lambda>acc c. if is_typed c then reason_code (err_kind c) else acc) b xs"
  by (induction xs arbitrary: a b) (auto split: if_splits)

lemma innermost_wrap:
  "list_ex is_typed (chain e) \<Longrightarrow> innermost_code (TErr k c m (Some e)) = innermost_code e"
  by (simp add: innermost_code_def foldl_typed_start [of _ "reason_code k" "[]"])

section \<open>Properties\<close>

text \<open>Wrapping a classified failure in common.Internal, as the analyzer and the builders do,
  does not change the reason code that the ledger and the failure checkpoint record.\<close>

theorem code_of_wrapped:
  assumes "list_ex is_typed (chain e)"
  shows "code_of (Some (Internal m (Some e))) = code_of (Some e)"
  using innermost_wrap [OF assms] by (simp add: code_of_def Internal_def Let_def)

theorem code_of_wrapped_witness:
  "code_of (Some (Internal ''AI analysis failed'' (Some (Transient ''agent'' (Some DeadlineExceeded)))))
     = ''TRANSIENT''"
proof -
  have "list_ex is_typed (chain (Transient ''agent'' (Some DeadlineExceeded)))"
    by (simp add: Transient_def)
  from code_of_wrapped [OF this, of "''AI analysis failed''"] show ?thesis
    by (simp add: code_of_def innermost_code_def Transient_def Let_def reason_code_def)
qed

text \<open>The consumer's retry decision looks at the whole cause chain: on every chain of at most
  sixteen errors the bounded walk of IsPermanentFailure finds exactly the chains that contain an
  invalid-argument, forbidden or not-found error, wherever it is wrapped.\<close>

theorem is_permanent_failure_complete:
  assumes "length (chain e) \<le> 16"
  shows "is_permanent_failure (Some e) \<longleftrightarrow>
    has_kind e KindInvalidArgument \<or> has_kind e KindForbidden \<or> has_kind e KindNotFound"
  using assms
  by (auto simp: is_permanent_failure_def max_cause_depth_def permanent_walk_take permanent_kind_def
      has_kind_def list_ex_iff)

theorem is_permanent_failure_complete_witness:
  "is_permanent_failure (Some (Internal ''AI analysis failed'' (Some (InvalidArgument ''bad''))))"
proof -
  let ?e = "Internal ''AI analysis failed'' (Some (InvalidArgument ''bad''))"
  have "length (chain ?e) \<le> 16" by (simp add: Internal_def InvalidArgument_def)
  moreover have "has_kind ?e KindInvalidArgument" by (simp add: has_kind_def Internal_def InvalidArgument_def)
  ultimately show ?thesis using is_permanent_failure_complete by blast
qed

text \<open>Internal and transient details never reach a client: two errors whose first typed error is
  internal or transient (or that carry no typed error) produce the same response, whatever their
  messages and causes are.\<close>

theorem to_http_hides_internals:
  assumes "\<forall>e \<in> {e1, e2}. case as_typed e of None \<Rightarrow> True
             | Some je \<Rightarrow> err_kind je \<in> {KindInternal, KindTransient}"
  shows "to_http e1 = to_http e2 \<and> fst (to_http e1) = 500"
  using assms by (auto simp: to_http_def Let_def CodeInternalError_def split: option.splits)

theorem to_http_hides_internals_witness:
  "(to_http (Internal ''dial tcp 10.0.0.7'' None) :: int \<times> unit envelope) = to_http (Plain ''ERR'' None)"
proof -
  have "\<forall>e \<in> {Internal ''dial tcp 10.0.0.7'' None, Plain ''ERR'' None}.
      case as_typed e of None \<Rightarrow> True | Some je \<Rightarrow> err_kind je \<in> {KindInternal, KindTransient}"
    by (simp add: as_typed_def Internal_def)
  from to_http_hides_internals [OF this] show ?thesis by blast
qed

end
