(* ===== verification/Model.thy ===== *)
theory Model
  imports Errors
begin

text \<open>
  Entities and DTOs: internal/model/enums.go, dto.go and entity.go.  Modes, stages and states are Go
  string types and stay strings here; a pointer field is an option.  A nil slice and an empty slice
  are the same list.
\<close>

section \<open>Modes, stages, states (enums.go)\<close>

type_synonym analysis_mode = gostr
type_synonym task_stage = gostr
type_synonym task_state = gostr

abbreviation "ModeGeneral \<equiv> ''GENERAL''"
abbreviation "ModeLearning \<equiv> ''LEARNING''"
abbreviation "ModeReview \<equiv> ''REVIEW''"
abbreviation "ModeCreation \<equiv> ''CREATION''"

definition all_modes :: "analysis_mode list" where
  "all_modes = [ModeGeneral, ModeLearning, ModeReview, ModeCreation]"

definition valid_mode :: "gostr \<Rightarrow> analysis_mode option" where
  "valid_mode s = (let m = to_upper (trim_space s) in if m \<in> set all_modes then Some m else None)"

definition mode_from_nullable :: "gostr \<Rightarrow> analysis_mode" where
  "mode_from_nullable v =
     (if is_blank v then ModeGeneral else case valid_mode v of Some m \<Rightarrow> m | None \<Rightarrow> ModeGeneral)"

definition mode_from_request :: "gostr \<Rightarrow> analysis_mode res" where
  "mode_from_request v =
     (if is_blank v then Inr ModeGeneral
      else case valid_mode v of Some m \<Rightarrow> Inr m | None \<Rightarrow> Inl (InvalidArgument (m_unsupported_mode @ v)))"

definition resolve_mode :: "analysis_mode \<Rightarrow> analysis_mode" where
  "resolve_mode m = (if m = [] then ModeGeneral else m)"

abbreviation "StageQueued \<equiv> ''QUEUED''"
abbreviation "StageConsuming \<equiv> ''CONSUMING''"
abbreviation "StageVideoContext \<equiv> ''VIDEO_CONTEXT''"
abbreviation "StageContextCompleted \<equiv> ''CONTEXT_COMPLETED''"
abbreviation "StageChunksCompleted \<equiv> ''CHUNKS_COMPLETED''"
abbreviation "StageRetrieval \<equiv> ''RETRIEVAL''"
abbreviation "StageAgentLoop \<equiv> ''AGENT_LOOP''"
abbreviation "StagePlanCompleted \<equiv> ''PLAN_COMPLETED''"
abbreviation "StageExecutorStarted \<equiv> ''EXECUTOR_STARTED''"
abbreviation "StageExecutorCompleted \<equiv> ''EXECUTOR_COMPLETED''"
abbreviation "StageCriticStarted \<equiv> ''CRITIC_STARTED''"
abbreviation "StageCriticPassed \<equiv> ''CRITIC_PASSED''"
abbreviation "StageCriticRetryRequired \<equiv> ''CRITIC_RETRY_REQUIRED''"
abbreviation "StageEvidenceRefreshed \<equiv> ''EVIDENCE_REFRESHED''"
abbreviation "StageAnalysisCompleted \<equiv> ''ANALYSIS_COMPLETED''"
abbreviation "StageAnalysisCompletedWarnings \<equiv> ''ANALYSIS_COMPLETED_WITH_WARNINGS''"
abbreviation "StageBudgetExhausted \<equiv> ''BUDGET_EXHAUSTED''"
abbreviation "StageRetrying \<equiv> ''RETRYING''"
abbreviation "StageCompleted \<equiv> ''COMPLETED''"
abbreviation "StageCompletedReused \<equiv> ''COMPLETED_REUSED''"
abbreviation "StageFailed \<equiv> ''FAILED''"
abbreviation "StageDeadLettered \<equiv> ''DEAD_LETTERED''"
abbreviation "StageManualReplay \<equiv> ''MANUAL_REPLAY''"
abbreviation "StageRevisionPending \<equiv> ''REVISION_PENDING''"
abbreviation "StageRevisionApplied \<equiv> ''REVISION_APPLIED''"
abbreviation "StageTranscription \<equiv> ''TRANSCRIPTION''"
abbreviation "StageASR \<equiv> ''ASR''"
abbreviation "StageDispatchFailed \<equiv> ''DISPATCH_FAILED''"

definition all_stages :: "task_stage list" where
  "all_stages = [StageQueued, StageConsuming, StageVideoContext, StageContextCompleted,
     StageChunksCompleted, StageRetrieval, StageAgentLoop, StagePlanCompleted, StageExecutorStarted,
     StageExecutorCompleted, StageCriticStarted, StageCriticPassed, StageCriticRetryRequired,
     StageEvidenceRefreshed, StageAnalysisCompleted, StageAnalysisCompletedWarnings, StageBudgetExhausted,
     StageRetrying, StageCompleted, StageCompletedReused, StageFailed, StageDeadLettered, StageManualReplay,
     StageRevisionPending, StageRevisionApplied, StageTranscription, StageASR, StageDispatchFailed]"

definition task_stage_from :: "gostr \<Rightarrow> task_stage" where
  "task_stage_from v = (if is_blank v then [] else if v \<in> set all_stages then v else [])"

abbreviation "StateNotStarted \<equiv> ''NOT_STARTED''"
abbreviation "StateQueued \<equiv> ''QUEUED''"
abbreviation "StateProcessing \<equiv> ''PROCESSING''"
abbreviation "StateCompleted \<equiv> ''COMPLETED''"
abbreviation "StateFailed \<equiv> ''FAILED''"

definition valid_state :: "gostr \<Rightarrow> bool" where
  "valid_state s = (s \<in> set [StateNotStarted, StateQueued, StateProcessing, StateCompleted, StateFailed])"

section \<open>DTOs (dto.go)\<close>

record task_status =
  ts_state :: task_state
  ts_result :: "gostr option"
  ts_message :: "gostr option"

definition status_of :: "task_state \<Rightarrow> gostr \<Rightarrow> task_status" where
  "status_of st m = \<lparr>ts_state = st, ts_result = None, ts_message = Some m\<rparr>"

definition status_completed :: "gostr \<Rightarrow> task_status" where
  "status_completed r = \<lparr>ts_state = StateCompleted, ts_result = Some r, ts_message = Some m_done\<rparr>"

definition status_completed_nullable :: "gostr option \<Rightarrow> task_status" where
  "status_completed_nullable r = \<lparr>ts_state = StateCompleted, ts_result = r, ts_message = Some m_done\<rparr>"

record task_event =
  ev_state :: task_state
  ev_result :: "gostr option"
  ev_message :: "gostr option"
  ev_stage :: "task_stage option"

definition event_of :: "task_status \<Rightarrow> task_stage \<Rightarrow> task_event" where
  "event_of st stage = \<lparr>ev_state = ts_state st, ev_result = ts_result st, ev_message = ts_message st,
     ev_stage = (if stage \<noteq> [] then Some stage else None)\<rparr>"

definition terminal :: "task_event \<Rightarrow> bool" where
  "terminal e = (ev_state e = StateCompleted \<or> ev_state e = StateFailed)"

abbreviation "ActionStart \<equiv> ''START_ANALYSIS''"
abbreviation "ActionRevise \<equiv> ''REVISE_ANALYSIS''"

record analysis_task_msg =
  tm_media :: "int option"
  tm_action :: "gostr option"
  tm_hash :: "gostr option"
  tm_goal :: "gostr option"
  tm_mode :: "gostr option"

definition empty_msg :: analysis_task_msg where
  "empty_msg = \<lparr>tm_media = None, tm_action = None, tm_hash = None, tm_goal = None, tm_mode = None\<rparr>"

definition is_revision :: "analysis_task_msg \<Rightarrow> bool" where
  "is_revision m = (tm_action m = Some ActionRevise)"

definition is_supported_action :: "gostr \<Rightarrow> bool" where
  "is_supported_action a = (a = ActionStart \<or> a = ActionRevise)"

definition has_supported_action :: "analysis_task_msg \<Rightarrow> bool" where
  "has_supported_action m = (case tm_action m of None \<Rightarrow> False | Some a \<Rightarrow> is_supported_action a)"

definition new_task_msg :: "int \<Rightarrow> gostr \<Rightarrow> gostr \<Rightarrow> gostr \<Rightarrow> analysis_mode \<Rightarrow> analysis_task_msg" where
  "new_task_msg mid action hash goal mode =
     \<lparr>tm_media = Some mid, tm_action = Some action, tm_hash = Some hash, tm_goal = Some goal, tm_mode = Some mode\<rparr>"

text \<open>deref0 of the consumer and deref of the other packages: a nil pointer reads as "".\<close>

definition deref0 :: "gostr option \<Rightarrow> gostr" where
  "deref0 s = (case s of None \<Rightarrow> [] | Some v \<Rightarrow> v)"

record video_segment =
  vs_start :: int
  vs_end :: int
  vs_transcript :: gostr
  vs_ocr :: "gostr list"
  vs_frames :: "gostr list"

record video_context =
  vc_source :: gostr
  vc_goal :: gostr
  vc_segments :: "video_segment list"

definition new_video_segment :: "int \<Rightarrow> int \<Rightarrow> gostr \<Rightarrow> gostr list \<Rightarrow> gostr list \<Rightarrow> video_segment res" where
  "new_video_segment s e tr ocr frames =
     (if s < 0 \<or> e \<le> s then Inl (InvalidArgument ''invalid segment range'')
      else Inr \<lparr>vs_start = s, vs_end = e, vs_transcript = trim_space tr, vs_ocr = ocr, vs_frames = frames\<rparr>)"

definition new_video_context :: "gostr \<Rightarrow> gostr \<Rightarrow> video_segment list \<Rightarrow> video_context res" where
  "new_video_context src goal segs =
     (if is_blank src then Inl (InvalidArgument ''video source is required'')
      else Inr \<lparr>vc_source = src, vc_goal = trim_space goal, vc_segments = segs\<rparr>)"

text \<open>A loop that builds a slice and returns at the first error.\<close>

fun map_res :: "('a \<Rightarrow> 'b res) \<Rightarrow> 'a list \<Rightarrow> 'b list res" where
  "map_res f [] = Inr []"
| "map_res f (x # xs) = (case f x of Inl e \<Rightarrow> Inl e
     | Inr y \<Rightarrow> (case map_res f xs of Inl e \<Rightarrow> Inl e | Inr ys \<Rightarrow> Inr (y # ys)))"

definition renew_segment :: "video_segment \<Rightarrow> video_segment res" where
  "renew_segment s = new_video_segment (vs_start s) (vs_end s) (vs_transcript s) (vs_ocr s) (vs_frames s)"

definition normalize_context :: "video_context \<Rightarrow> video_context res" where
  "normalize_context c = (case map_res renew_segment (vc_segments c) of
      Inl e \<Rightarrow> Inl e
    | Inr segs \<Rightarrow> new_video_context (vc_source c) (vc_goal c) segs)"

definition transcript_text :: "video_context \<Rightarrow> gostr" where
  "transcript_text c =
     join ''\<newline>'' (map vs_transcript (filter (\<lambda>s. \<not> is_blank (vs_transcript s)) (vc_segments c)))"

record transcript_segment =
  tr_start :: int
  tr_end :: int
  tr_text :: gostr

definition new_transcript_segment :: "int \<Rightarrow> int \<Rightarrow> gostr \<Rightarrow> transcript_segment res" where
  "new_transcript_segment s e t =
     (if s < 0 \<or> e \<le> s then Inl (InvalidArgument ''invalid transcript range'')
      else Inr \<lparr>tr_start = s, tr_end = e, tr_text = trim_space t\<rparr>)"

record agent_feedback =
  fb_media :: "int option"
  fb_goal :: "gostr option"
  fb_mode :: "gostr option"
  fb_rating :: "int option"
  fb_error_type :: "gostr option"
  fb_comment :: "gostr option"
  fb_corrected_goal :: "gostr option"
  fb_corrected_tasks :: "gostr list"
  fb_evidence_ts :: "int option"
  fb_evidence_ok :: "bool option"
  fb_created :: "gostr option"

definition trim_ptr :: "gostr option \<Rightarrow> gostr option" where
  "trim_ptr s = map_option trim_space s"

text \<open>Normalized; \<open>now\<close> is the text of InstantNow at the time of the call.\<close>

definition normalized :: "gostr \<Rightarrow> agent_feedback \<Rightarrow> analysis_mode \<Rightarrow> agent_feedback" where
  "normalized now f mode =
     \<lparr>fb_media = fb_media f, fb_goal = trim_ptr (fb_goal f), fb_mode = Some (resolve_mode mode),
      fb_rating = fb_rating f, fb_error_type = trim_ptr (fb_error_type f),
      fb_comment = trim_ptr (fb_comment f), fb_corrected_goal = trim_ptr (fb_corrected_goal f),
      fb_corrected_tasks = map trim_space (filter (\<lambda>t. \<not> is_blank t) (fb_corrected_tasks f)),
      fb_evidence_ts = fb_evidence_ts f, fb_evidence_ok = fb_evidence_ok f,
      fb_created = (case fb_created f of None \<Rightarrow> Some now | Some c \<Rightarrow> Some c)\<rparr>"

definition revision_goal :: "gostr \<Rightarrow> agent_feedback \<Rightarrow> gostr" where
  "revision_goal now f =
     (let n = normalized now f (mode_from_nullable (deref0 (fb_mode f))) in
      case fb_corrected_goal n of
        None \<Rightarrow> deref0 (fb_goal n)
      | Some g \<Rightarrow> if is_blank g then deref0 (fb_goal n) else g)"

record route_decision =
  rd_mode :: analysis_mode
  rd_reason :: gostr

definition new_route_decision :: "analysis_mode \<Rightarrow> gostr \<Rightarrow> route_decision" where
  "new_route_decision mode reason =
     \<lparr>rd_mode = (if mode = [] then ModeGeneral else mode),
      rd_reason = (if is_blank reason then m_general_reason else reason)\<rparr>"

section \<open>Entities (entity.go)\<close>

record user =
  u_id :: int
  u_name :: gostr
  u_password :: gostr
  u_nickname :: gostr
  u_avatar :: "gostr option"
  u_role :: gostr

record media_file =
  mf_id :: int
  mf_user :: int
  mf_filename :: gostr
  mf_status :: gostr
  mf_path :: gostr
  mf_hash :: "gostr option"
  mf_summary :: "gostr option"
  mf_transcript :: "gostr option"
  mf_cover :: "gostr option"
  mf_uploaded :: int

record failed_task =
  ft_id :: int
  ft_media :: int
  ft_action :: gostr
  ft_mode :: gostr
  ft_hash :: gostr
  ft_goal :: gostr
  ft_attempts :: int
  ft_error_type :: gostr
  ft_error_message :: "gostr option"
  ft_status :: gostr
  ft_created :: int
  ft_updated :: int

record auth_request =
  ar_username :: "gostr option"
  ar_password :: "gostr option"
  ar_nickname :: "gostr option"
  ar_invite :: "gostr option"

record user_info =
  ui_id :: int
  ui_name :: gostr
  ui_nickname :: gostr
  ui_avatar :: "gostr option"
  ui_role :: gostr

record auth_response =
  rs_code :: int
  rs_msg :: gostr
  rs_user :: "user_info option"
  rs_token :: gostr

section \<open>Facts\<close>

lemma map_res_Inr: "map_res f xs = Inr ys \<Longrightarrow> list_all2 (\<lambda>x y. f x = Inr y) xs ys"
  by (induction xs arbitrary: ys) (auto split: sum.splits)

lemma map_res_all: "(\<And>x. x \<in> set xs \<Longrightarrow> f x = Inr (g x)) \<Longrightarrow> map_res f xs = Inr (map g xs)"
  by (induction xs) auto

text \<open>The well-formedness the constructors establish.\<close>

definition wf_segment :: "video_segment \<Rightarrow> bool" where
  "wf_segment s = (0 \<le> vs_start s \<and> vs_start s < vs_end s \<and> trim_space (vs_transcript s) = vs_transcript s)"

definition wf_context :: "video_context \<Rightarrow> bool" where
  "wf_context c = (\<not> is_blank (vc_source c) \<and> trim_space (vc_goal c) = vc_goal c \<and> list_all wf_segment (vc_segments c))"

lemma new_video_segment_wf: "new_video_segment s e t ocr fr = Inr seg \<Longrightarrow> wf_segment seg"
  by (auto simp: new_video_segment_def wf_segment_def split: if_splits)

lemma renew_segment_wf: "wf_segment s \<Longrightarrow> renew_segment s = Inr s"
  by (auto simp: renew_segment_def new_video_segment_def wf_segment_def)

lemma map_res_renew_wf: "map_res renew_segment segs = Inr segs' \<Longrightarrow> list_all wf_segment segs'"
  by (drule map_res_Inr)
     (induction rule: list_all2_induct, auto simp: renew_segment_def intro: new_video_segment_wf)

lemma all_modes_upper: "m \<in> set all_modes \<Longrightarrow> to_upper (trim_space m) = m \<and> \<not> is_blank m"
  by (auto simp: all_modes_def str_eval)

lemma mode_from_nullable_fixed: "m \<in> set all_modes \<Longrightarrow> mode_from_nullable m = m"
  using all_modes_upper [of m] by (simp add: mode_from_nullable_def valid_mode_def Let_def)

lemma mode_from_nullable_valid: "mode_from_nullable v \<in> set all_modes"
  by (auto simp: mode_from_nullable_def valid_mode_def all_modes_def Let_def)

lemma all_stages_nonblank: "s \<in> set all_stages \<Longrightarrow> \<not> is_blank s"
  by (auto simp: all_stages_def str_eval)

lemma task_stage_from_known: "s \<in> set all_stages \<Longrightarrow> task_stage_from s = s"
  by (simp add: task_stage_from_def all_stages_nonblank)

lemma task_stage_from_cases: "task_stage_from v = [] \<or> (task_stage_from v = v \<and> v \<in> set all_stages)"
  by (auto simp: task_stage_from_def)

interpretation stage: codec "\<lambda>s. s \<in> set all_stages" "\<lambda>s. s" "\<lambda>v. if task_stage_from v = [] then None else Some (task_stage_from v)"
proof
  fix s :: task_stage
  assume s: "s \<in> set all_stages"
  then have "s \<noteq> []" using all_stages_nonblank [OF s] by (auto simp: is_blank_def trim_space_def trim_func_def unrunes_def)
  with s show "(if task_stage_from s = [] then None else Some (task_stage_from s)) = Some s"
    by (simp add: task_stage_from_known)
qed

section \<open>Properties\<close>

text \<open>A context that is read back from a checkpoint is normalised the same way as a fresh one:
  whatever Normalize returns satisfies the constructors' rules, and normalising it again changes
  nothing.\<close>

theorem normalize_context_idem:
  assumes "normalize_context c = Inr c'"
  shows "wf_context c' \<and> normalize_context c' = Inr c'"
proof -
  from assms obtain segs where s: "map_res renew_segment (vc_segments c) = Inr segs"
    and c': "new_video_context (vc_source c) (vc_goal c) segs = Inr c'"
    by (auto simp: normalize_context_def split: sum.splits)
  from map_res_renew_wf [OF s] have w: "list_all wf_segment segs" .
  then have "map_res renew_segment segs = Inr (map id segs)"
    by (intro map_res_all) (auto simp: list_all_iff renew_segment_wf)
  with w c' show ?thesis
    by (auto simp: wf_context_def normalize_context_def new_video_context_def split: if_splits)
qed

theorem normalize_context_idem_witness:
  "\<exists>c'. normalize_context \<lparr>vc_source = ''v.mp4'', vc_goal = '' x '', vc_segments =
      [\<lparr>vs_start = 0, vs_end = 60000, vs_transcript = '' hi '', vs_ocr = [], vs_frames = []\<rparr>]\<rparr> = Inr c'
    \<and> wf_context c'"
proof -
  let ?c = "\<lparr>vc_source = ''v.mp4'', vc_goal = '' x '', vc_segments =
      [\<lparr>vs_start = 0, vs_end = 60000, vs_transcript = '' hi '', vs_ocr = [], vs_frames = []\<rparr>]\<rparr>"
  have "\<not> is_blank ''v.mp4''" by (simp add: str_eval)
  then have "\<exists>c'. normalize_context ?c = Inr c'"
    by (simp add: normalize_context_def renew_segment_def new_video_segment_def new_video_context_def)
  then show ?thesis using normalize_context_idem by blast
qed

end
