(* ===== verification/Effects.thy ===== *)
theory Effects
  imports Model Complex_Main "HOL-Library.Word"
begin

text \<open>
  The boundary of the server: one constructor per request the Go code makes of Redis
  (internal packages through go-redis), MySQL (internal/repo through GORM), Kafka (franz-go), MinIO,
  the agent service (gRPC), the clock, the random source and the operating system.  The answers are
  the fields of \<open>env\<close>, one per type of answer; redis.Nil and a missing row are \<open>None\<close>.  The hash
  functions and the JSON encodings, library code the server only calls, are functions of \<open>env\<close>, as are
  \<open>url_path\<close>, the path net/url parses out of a URL, \<open>uuid_ok\<close>, whether uuid.Parse accepts a string, and \<open>quote\<close>,
  the verb \<^verbatim>\<open>%q\<close> of fmt; the MinIO endpoint and bucket are configuration.
\<close>

record kafka_record =
  kr_topic :: gostr
  kr_key :: gostr
  kr_value :: gostr
  kr_headers :: "(gostr \<times> gostr) list"

datatype script = UnlockScript | RenewScript | TakeScript

record stage_seed =
  sd_duration :: int
  sd_success :: bool

record telemetry_seed =
  tl_trace :: gostr
  tl_stages :: "(gostr \<times> stage_seed) list"
  tl_counters :: "(gostr \<times> int) list"

text \<open>Redis.\<close>

datatype redis_call =
    RGet gostr
  | RSet gostr gostr int
  | RSetNX gostr gostr int
  | RDel "gostr list"
  | RExpire gostr int
  | RExists "gostr list"
  | RIncr gostr
  | RHSet gostr "(gostr \<times> gostr) list"
  | RHGet gostr gostr
  | RHGetAll gostr
  | RHDel gostr "gostr list"
  | RHExists gostr gostr
  | RSAdd gostr gostr
  | RSMembers gostr
  | RPublish gostr gostr task_event
  | RPipe "redis_call list"
  | REval script gostr "gostr list"

text \<open>Kafka.\<close>

datatype kafka_call =
    KProduce kafka_record
  | KCommit gostr int int
  | KCreateTopic gostr int

text \<open>The users and media_files tables.\<close>

datatype media_call =
    DFindUserByName gostr
  | DFindUser int
  | DCountUsers gostr
  | DCreateUser user
  | DUpdatePassword int gostr
  | DFindMedia int
  | DInsertMedia media_file
  | DListMedia int
  | DDeleteMedia int
  | DUpdateAnalysis int gostr "gostr option"
  | DFindByHash gostr
  | DCountRefs "gostr option" gostr
  | DUpdateTranscript int gostr

text \<open>The failed-task ledger and the checkpoints.\<close>

datatype ledger_call =
    DInsertFailed failed_task
  | DFindFailed int
  | DMarkRequeued int
  | DFindPayload int gostr
  | DFindStage int gostr
  | DUpsert int gostr gostr "gostr option"
  | DUpsertPair int gostr gostr gostr gostr
  | DLatestFailed

text \<open>The agent service.\<close>

datatype agent_call =
    AResult int gostr analysis_mode
  | AReuse int int gostr analysis_mode gostr
  | ARun "int option" int gostr analysis_mode telemetry_seed
  | APurge int
  | AStageRevision agent_feedback analysis_mode
  | ABeginRevision int gostr analysis_mode
  | ACompleteRevision int gostr analysis_mode
  | ACancelRevision int gostr analysis_mode
  | AFollowUp int "gostr option" gostr analysis_mode
  | ASearch int gostr
  | AClassify gostr
  | ASaveFeedback agent_feedback
  | AListFeedback int
  | APlan int gostr analysis_mode
  | ATrace int gostr analysis_mode
  | AEvaluation int gostr analysis_mode

text \<open>The object store (the MinIO client); of a rule of the bucket's lifecycle the server only reads its ID.\<close>

record lifecycle_rule =
  lr_id :: gostr
  lr_status :: gostr
  lr_prefix :: gostr
  lr_days :: int
  lr_rest :: gostr

datatype store_call =
    SPutObject gostr int
  | SGetObject gostr
  | SStatObject gostr
  | SGetRange gostr int int
  | SRemoveObject gostr
  | SPresign bool gostr
  | SBucketExists gostr
  | SMakeBucket gostr
  | SGetLifecycle gostr
  | SSetLifecycle gostr "lifecycle_rule list"

text \<open>Clock, randomness, context, operating system.\<close>

datatype os_call =
    ONow
  | OSleep int
  | OCtxErr
  | OStopped
  | OIsHeld gostr
  | OPublishLocal gostr task_event
  | ORandInt int
  | ORandom nat
  | ONewUUID
  | OFile gostr gostr
  | OReadDir gostr
  | OProc gostr "gostr list"
  | OTimestamps
  | OHttp gostr
  | OImage gostr
  | OSubmit gostr
  | OAwait gostr
  | OSubscribe gostr task_event
  | OStream gostr
  | OUnsubscribe gostr
  | OResolve gostr
  | OGet gostr "(int \<times> int option) option"
  | OWriteAt gostr int gostr
  | OCount gostr
  | OStage gostr int bool
  | OSetup gostr
  | ORelease gostr
  | OSignal gostr

text \<open>How a child process ended, what an HTTP exchange gave, and a decoded image.\<close>

datatype proc_result = ProcTimeout | ProcExit int gostr | ProcErr goerr | ProcOk gostr

datatype http_result = HttpTransport goerr | HttpRead goerr | HttpResp int "gostr option res"

record image =
  im_x :: int
  im_y :: int
  im_w :: int
  im_h :: int
  im_at :: "int \<Rightarrow> int \<Rightarrow> int \<times> int \<times> int"

datatype call =
    Redis redis_call
  | Kafka kafka_call
  | Media media_call
  | Ledger ledger_call
  | Agent agent_call
  | Store store_call
  | Os os_call

type_synonym hist = "call list"

record result_response =
  rr_found :: bool
  rr_status :: "task_status option"
  rr_markdown :: "gostr option"

record reuse_response =
  ru_reused :: bool
  ru_status :: "task_status option"
  ru_markdown :: "gostr option"

record evidence_hit =
  eh_start :: int
  eh_end :: int
  eh_source :: gostr
  eh_snippet :: gostr
  eh_transcript :: gostr
  eh_ocr :: "gostr list"

record plan =
  pn_goal :: gostr
  pn_tasks :: "gostr list"

text \<open>A JSON object: its fields with the text of their values.\<close>

type_synonym json_doc = "(gostr \<times> gostr) list"

text \<open>An HTTP response that is streamed: status, Location header, what each Read of the body returned, and whether
  the last one returned an error other than the end of the body.\<close>

datatype get_result = GetError goerr | GetResp int gostr "gostr list" bool

text \<open>What the select of an event stream sees, and whether the write to the client worked.\<close>

datatype stream_step = StreamEvent task_event bool | StreamTimeout | StreamGone | StreamShutdown

record env =
  a_err :: "hist \<Rightarrow> call \<Rightarrow> goerr option"
  a_bool :: "hist \<Rightarrow> call \<Rightarrow> bool res"
  a_int :: "hist \<Rightarrow> call \<Rightarrow> int res"
  a_str :: "hist \<Rightarrow> call \<Rightarrow> gostr res"
  a_ostr :: "hist \<Rightarrow> call \<Rightarrow> gostr option res"
  a_strs :: "hist \<Rightarrow> call \<Rightarrow> gostr list res"
  a_hash :: "hist \<Rightarrow> call \<Rightarrow> (gostr \<times> gostr) list res"
  a_media :: "hist \<Rightarrow> call \<Rightarrow> media_file option res"
  a_medias :: "hist \<Rightarrow> call \<Rightarrow> media_file list res"
  a_user :: "hist \<Rightarrow> call \<Rightarrow> user option res"
  a_failed :: "hist \<Rightarrow> call \<Rightarrow> failed_task option res"
  a_result :: "hist \<Rightarrow> call \<Rightarrow> result_response res"
  a_reuse :: "hist \<Rightarrow> call \<Rightarrow> reuse_response res"
  a_faileds :: "hist \<Rightarrow> call \<Rightarrow> failed_task list res"
  a_hits :: "hist \<Rightarrow> call \<Rightarrow> evidence_hit list res"
  a_route :: "hist \<Rightarrow> call \<Rightarrow> route_decision res"
  a_fbs :: "hist \<Rightarrow> call \<Rightarrow> agent_feedback list res"
  a_plan :: "hist \<Rightarrow> call \<Rightarrow> plan option res"
  a_doc :: "hist \<Rightarrow> call \<Rightarrow> json_doc option res"
  a_get :: "hist \<Rightarrow> call \<Rightarrow> get_result"
  a_ips :: "hist \<Rightarrow> call \<Rightarrow> 8 word list list res"
  a_rules :: "hist \<Rightarrow> call \<Rightarrow> lifecycle_rule list option res"
  a_stream :: "hist \<Rightarrow> call \<Rightarrow> stream_step list"
  a_num :: "hist \<Rightarrow> call \<Rightarrow> int"
  a_ints :: "hist \<Rightarrow> call \<Rightarrow> int list res"
  a_rat :: "hist \<Rightarrow> call \<Rightarrow> rat option res"
  a_proc :: "hist \<Rightarrow> call \<Rightarrow> proc_result"
  a_http :: "hist \<Rightarrow> call \<Rightarrow> http_result"
  a_image :: "hist \<Rightarrow> call \<Rightarrow> image option"
  a_text :: "hist \<Rightarrow> call \<Rightarrow> gostr"
  mn_endpoint :: gostr
  mn_bucket :: gostr
  url_path :: "gostr \<Rightarrow> gostr res"
  sha256 :: "gostr \<Rightarrow> gostr"
  md5 :: "gostr \<Rightarrow> gostr"
  uuid_ok :: "gostr \<Rightarrow> bool"
  quote :: "gostr \<Rightarrow> gostr"
  pbkdf2 :: "gostr \<Rightarrow> gostr \<Rightarrow> int \<Rightarrow> nat \<Rightarrow> gostr"
  enc_msg :: "analysis_task_msg \<Rightarrow> gostr"
  dec_msg :: "gostr \<Rightarrow> analysis_task_msg option res"
  enc_ctx :: "video_context \<Rightarrow> gostr"
  dec_ctx :: "gostr \<Rightarrow> video_context res"
  enc_list :: "media_file list \<Rightarrow> gostr"
  dec_list :: "gostr \<Rightarrow> media_file list res"

type_synonym 'a op = "(call, 'a) io"
type_synonym 'a opE = "(call, 'a res) io"

text \<open>The clock, in milliseconds.\<close>

definition now_ms :: "env \<Rightarrow> int op" where
  "now_ms E = ask (a_num E) (Os ONow)"

text \<open>A call that was made and answered without an error.\<close>

abbreviation acked :: "env \<Rightarrow> hist \<Rightarrow> call \<Rightarrow> bool" where
  "acked E p c \<equiv> a_err E p c = None"

section \<open>A reference environment\<close>

text \<open>An environment in which every call succeeds; the witnesses start from it.\<close>

fun slept :: "hist \<Rightarrow> int" where
  "slept [] = 0"
| "slept (c # h) = (case c of Os (OSleep d) \<Rightarrow> max 0 d | _ \<Rightarrow> 0) + slept h"

definition env0 :: env where
  "env0 = \<lparr>a_err = (\<lambda>h c. None), a_bool = (\<lambda>h c. Inr True), a_int = (\<lambda>h c. Inr 1), a_str = (\<lambda>h c. Inr ''s''),
     a_ostr = (\<lambda>h c. Inr None), a_strs = (\<lambda>h c. Inr []), a_hash = (\<lambda>h c. Inr []), a_media = (\<lambda>h c. Inr None),
     a_medias = (\<lambda>h c. Inr []), a_user = (\<lambda>h c. Inr None), a_failed = (\<lambda>h c. Inr None),
     a_result = (\<lambda>h c. Inr \<lparr>rr_found = False, rr_status = None, rr_markdown = None\<rparr>),
     a_reuse = (\<lambda>h c. Inr \<lparr>ru_reused = False, ru_status = None, ru_markdown = None\<rparr>),
     a_faileds = (\<lambda>h c. Inr []), a_hits = (\<lambda>h c. Inr []),
     a_route = (\<lambda>h c. Inr \<lparr>rd_mode = ModeGeneral, rd_reason = ''r''\<rparr>), a_fbs = (\<lambda>h c. Inr []),
     a_plan = (\<lambda>h c. Inr None), a_doc = (\<lambda>h c. Inr None), a_get = (\<lambda>h c. GetResp 200 [] [''x''] False),
     a_ips = (\<lambda>h c. Inr [[1, 1, 1, 1]]), a_rules = (\<lambda>h c. Inr None), a_stream = (\<lambda>h c. []),
     a_num = (\<lambda>h c. slept h), a_ints = (\<lambda>h c. Inr []), a_rat = (\<lambda>h c. Inr None),
     a_proc = (\<lambda>h c. ProcOk []), a_http = (\<lambda>h c. HttpResp 200 (Inr (Some ''t''))), a_image = (\<lambda>h c. None),
     a_text = (\<lambda>h c. ''u''), mn_endpoint = ''http://m'', mn_bucket = ''b'', url_path = (\<lambda>u. Inr (drop (length ''http://m'') u)),
     sha256 = (\<lambda>s. s), md5 = (\<lambda>s. s),
     uuid_ok = (\<lambda>s. True), quote = (\<lambda>s. s), pbkdf2 = (\<lambda>p s i n. replicate n (CHR ''k'')), enc_msg = (\<lambda>m. deref0 (tm_goal m)), dec_msg = (\<lambda>s. Inr None),
     enc_ctx = vc_source, dec_ctx = (\<lambda>s. Inl Canceled), enc_list = (\<lambda>l. []), dec_list = (\<lambda>s. Inl Canceled)\<rparr>"

lemma slept_nonneg: "0 \<le> slept h"
  by (induction h) (auto split: call.splits os_call.splits)

lemma slept_append: "slept (h @ h') = slept h + slept h'"
  by (induction h) auto

section \<open>Durations\<close>

abbreviation (input) "seconds n \<equiv> (n::int) * 1000"
abbreviation (input) "minutes n \<equiv> (n::int) * 60000"
abbreviation (input) "hours n \<equiv> (n::int) * 3600000"

section \<open>Hexadecimal encoding (encoding/hex)\<close>

definition hex_digit :: "nat \<Rightarrow> char" where
  "hex_digit d = char_of (if d < 10 then 48 + d else 87 + d)"

definition hex_encode :: "gostr \<Rightarrow> gostr" where
  "hex_encode bs = concat (map (\<lambda>c. [hex_digit (byte c div 16), hex_digit (byte c mod 16)]) bs)"

section \<open>Calls whose result is dropped\<close>

definition del_key :: "env \<Rightarrow> gostr \<Rightarrow> unit op" where
  "del_key E key = thenI (ask_err (a_err E) (Redis (RDel [key]))) (ret ())"

text \<open>Telemetry is a view of the history: counting and recording a stage are calls of their own.\<close>

definition count_up :: "gostr \<Rightarrow> unit op" where
  "count_up name = ask (\<lambda>h c. ()) (Os (OCount name))"

definition record_stage :: "gostr \<Rightarrow> int \<Rightarrow> bool \<Rightarrow> unit op" where
  "record_stage name dur ok = ask (\<lambda>h c. ()) (Os (OStage name dur ok))"

definition ctx_err :: "env \<Rightarrow> unit opE" where
  "ctx_err E = ask_err (a_err E) (Os OCtxErr)"

definition new_uuid :: "env \<Rightarrow> gostr op" where
  "new_uuid E = ask (a_text E) (Os ONewUUID)"

lemma extends_del_key [ext_intros]: "extends (del_key E key)"
  unfolding del_key_def by (intro ext_intros)

lemma wp_del_key [wp_simps]: "wp (del_key E key) Q h = Q () (h @ [Redis (RDel [key])])"
  by (simp add: del_key_def wp_simps split: option.splits)

lemma extends_count [ext_intros]: "extends (count_up name)" "extends (record_stage name dur ok)" "extends (ctx_err E)"
  unfolding count_up_def record_stage_def ctx_err_def by (intro ext_intros)+

lemma wp_count [wp_simps]:
  "wp (count_up name) Q h = Q () (h @ [Os (OCount name)])"
  "wp (record_stage name dur ok) Q h = Q () (h @ [Os (OStage name dur ok)])"
  "wp (ctx_err E) Q' h = (case a_err E h (Os OCtxErr) of None \<Rightarrow> Q' (Inr ()) (h @ [Os OCtxErr]) | Some e \<Rightarrow> Q' (Inl e) (h @ [Os OCtxErr]))"
  by (simp_all add: count_up_def record_stage_def ctx_err_def wp_simps)

lemma extends_new_uuid [ext_intros]: "extends (new_uuid E)"
  unfolding new_uuid_def by (intro ext_intros)

lemma wp_new_uuid [wp_simps]: "wp (new_uuid E) Q h = Q (a_text E h (Os ONewUUID)) (h @ [Os ONewUUID])"
  by (simp add: new_uuid_def wp_simps)

lemma extends_now [ext_intros]: "extends (now_ms E)"
  by (simp add: now_ms_def ext_intros)

lemma wp_now [wp_simps]: "wp (now_ms E) Q h = Q (a_num E h (Os ONow)) (h @ [Os ONow])"
  by (simp add: now_ms_def wp_simps)

end
