(* ===== verification/TaskKeys.thy ===== *)
theory TaskKeys
  imports Effects
begin

text \<open>Goal digests and the Redis keys shared with the agent service: internal/taskkeys/taskkeys.go.\<close>

definition normalize_content_hash :: "int \<Rightarrow> gostr \<Rightarrow> gostr" where
  "normalize_content_hash mid h = (if md5_pattern h then to_lower h else ''media-'' @ itoa mid)"

definition trim_control :: "gostr \<Rightarrow> gostr" where
  "trim_control s = trim_func (\<lambda>r. r \<le> 0x20) s"

definition sha256_hex :: "env \<Rightarrow> gostr \<Rightarrow> gostr" where
  "sha256_hex E v = hex_encode (sha256 E v)"

definition goal_digest :: "env \<Rightarrow> gostr \<Rightarrow> analysis_mode \<Rightarrow> gostr res" where
  "goal_digest E goal mode =
     (if is_blank goal then Inl (InvalidArgument ''analysis goal is required'')
      else if mode = [] \<or> mode = ModeGeneral then Inr (sha256_hex E (trim_control goal))
      else Inr (sha256_hex E (mode @ m_unit_separator @ trim_control goal)))"

definition active_key :: "gostr \<Rightarrow> gostr \<Rightarrow> gostr" where
  "active_key h d = ''analysis:active:'' @ h @ '':'' @ d"

definition lock_key :: "gostr \<Rightarrow> gostr \<Rightarrow> gostr" where
  "lock_key h d = ''lock:analysis:'' @ h @ '':'' @ d"

definition completed_key :: "gostr \<Rightarrow> gostr \<Rightarrow> gostr" where
  "completed_key scope d = ''analysis:completed:'' @ scope @ '':'' @ d"

definition context_owner_key :: "gostr \<Rightarrow> gostr" where
  "context_owner_key h = ''analysis:context-owner:'' @ h"

definition context_lock_key :: "gostr \<Rightarrow> gostr" where
  "context_lock_key h = ''lock:analysis-context:'' @ h"

section \<open>Facts\<close>

lemma to_lower_ascii:
  "list_all (\<lambda>c. byte c < 0x80) s \<Longrightarrow>
   to_lower s = map (\<lambda>c. if 65 \<le> byte c \<and> byte c \<le> 90 then char_of (byte c + 32) else c) s"
  by (induction s) (auto simp: to_lower_def lower_rune_def runes_ascii_Cons)

lemma md5_pattern_ascii: "md5_pattern s \<Longrightarrow> list_all (\<lambda>c. byte c < 0x80) s"
  by (auto simp: md5_pattern_def list_all_iff intro: is_hex_ascii)

lemma is_hex_lower: "is_hex c \<Longrightarrow> 65 \<le> byte c \<Longrightarrow> byte c \<le> 90 \<Longrightarrow> is_hex (char_of (byte c + 32))"
  by (auto simp: is_hex_def is_digit_def)

lemma md5_pattern_lower: "md5_pattern s \<Longrightarrow> md5_pattern (to_lower s)"
  using md5_pattern_ascii [of s]
  by (auto simp: md5_pattern_def to_lower_ascii list_all_iff intro: is_hex_lower)

lemma to_lower_md5_idem: "md5_pattern s \<Longrightarrow> to_lower (to_lower s) = to_lower s"
  using md5_pattern_ascii [of s] md5_pattern_ascii [OF md5_pattern_lower [of s]]
  by (auto simp: to_lower_ascii)

lemma media_not_md5: "\<not> md5_pattern (''media-'' @ s)"
  by (simp add: md5_pattern_def is_hex_def is_digit_def byte_def)

lemma normalize_idem:
  "normalize_content_hash m (normalize_content_hash m h) = normalize_content_hash m h"
  using media_not_md5 [of "itoa m"]
  by (simp add: normalize_content_hash_def md5_pattern_lower to_lower_md5_idem)

lemma normalize_media: "normalize_content_hash m (''media-'' @ itoa m) = ''media-'' @ itoa m"
  using media_not_md5 [of "itoa m"] by (simp add: normalize_content_hash_def)

lemma is_digit_no_colon: "is_digit c \<Longrightarrow> c \<noteq> CHR '':''"
  by (auto simp: is_digit_def byte_def)

lemma is_hex_no_colon: "is_hex c \<Longrightarrow> c \<noteq> CHR '':''"
  by (auto simp: is_hex_def is_digit_def byte_def)

lemma itoa_no_colon: "CHR '':'' \<notin> set (itoa n)"
  using nat_digits_digits by (auto simp: itoa_def list_all_iff dest: is_digit_no_colon)

lemma normalize_no_colon: "CHR '':'' \<notin> set (normalize_content_hash m h)"
proof (cases "md5_pattern h")
  case True
  then show ?thesis
    using md5_pattern_lower [OF True]
    by (auto simp: normalize_content_hash_def md5_pattern_def list_all_iff dest: is_hex_no_colon)
qed (simp add: normalize_content_hash_def itoa_no_colon)

text \<open>A separator that does not occur in the first part makes a concatenation injective.\<close>

lemma sep_inj:
  assumes "c \<notin> set a" and "c \<notin> set b" and "a @ c # x = b @ c # y"
  shows "a = b \<and> x = y"
  using assms
proof (induction a arbitrary: b)
  case Nil
  then show ?case by (cases b) auto
next
  case (Cons z a)
  then show ?case by (cases b) auto
qed

lemma active_key_inj:
  "active_key (normalize_content_hash m h) d = active_key (normalize_content_hash m' h') d' \<Longrightarrow>
   normalize_content_hash m h = normalize_content_hash m' h' \<and> d = d'"
  by (rule sep_inj [OF normalize_no_colon normalize_no_colon]) (simp add: active_key_def)

lemma goal_digest_ok: "\<not> is_blank goal \<Longrightarrow> \<exists>d. goal_digest E goal mode = Inr d"
  by (simp add: goal_digest_def)

section \<open>Properties\<close>

text \<open>The content hash carried in a task message is a fixed point: normalising a normalised hash
  again, as the consumer does with the hash the dispatcher published and the replay with the hash the
  ledger stored, gives the same hash, for an MD5 in any case and for the media-id fallback.  So the
  submitter, the worker and the replay derive the same idempotency and lock keys.\<close>

theorem content_hash_keys_agree:
  "normalize_content_hash m (normalize_content_hash m h) = normalize_content_hash m h \<and>
   active_key (normalize_content_hash m (normalize_content_hash m h)) d = active_key (normalize_content_hash m h) d \<and>
   normalize_content_hash m (''media-'' @ itoa m) = ''media-'' @ itoa m"
  using normalize_media [of m] by (simp add: normalize_idem)

text \<open>Two tasks share the idempotency key, the consumption lock or the completion marker only if
  they have the same normalised content hash and the same goal digest: the keys have no ambiguous
  concatenation.\<close>

theorem task_keys_injective:
  assumes "f \<in> {active_key, lock_key, completed_key}"
    and "f (normalize_content_hash m h) d = f (normalize_content_hash m' h') d'"
  shows "normalize_content_hash m h = normalize_content_hash m' h' \<and> d = d'"
proof -
  have "normalize_content_hash m h @ CHR '':'' # d = normalize_content_hash m' h' @ CHR '':'' # d'"
    using assms by (auto simp: active_key_def lock_key_def completed_key_def)
  then show ?thesis by (rule sep_inj [OF normalize_no_colon normalize_no_colon])
qed

theorem task_keys_injective_witness:
  "lock_key (normalize_content_hash 7 ''x'') ''d'' = lock_key (normalize_content_hash 7 ''y'') ''d'' \<and>
   normalize_content_hash 7 ''x'' = normalize_content_hash 7 ''y''"
proof -
  have e: "lock_key (normalize_content_hash 7 ''x'') ''d'' = lock_key (normalize_content_hash 7 ''y'') ''d''"
    by (simp add: normalize_content_hash_def md5_pattern_def)
  then show ?thesis using task_keys_injective [of lock_key 7 "''x''" "''d''" 7 "''y''" "''d''"] by simp
qed

text \<open>The unit separator does not keep a mode's digest apart from every real goal: a GENERAL goal
  whose text is a mode name, U+241F and a goal has the digest of that goal in that mode, whatever the
  hash function is, so the two tasks share every key derived from the digest.\<close>

theorem goal_digest_collision:
  "\<exists>g. goal_digest E g ModeGeneral = goal_digest E ''x'' ModeLearning
     \<and> (\<exists>d. goal_digest E g ModeGeneral = Inr d)"
proof -
  let ?g = "ModeLearning @ m_unit_separator @ ''x''"
  have sep: "next_rune (m_unit_separator @ ''x'') = (0x241F, 3)"
    by (simp add: m_unit_separator_def utf8_def byte_def Let_def cont_ok_def second_ok_def in_range_def)
  have "length m_unit_separator = 3" by (simp add: m_unit_separator_def utf8_def)
  then have "runes (m_unit_separator @ ''x'') = [(0x241F, m_unit_separator), (120, ''x'')]"
    using runes_ascii [of "''x''"] by (subst runes_step) (simp_all add: sep byte_def)
  then have r: "runes ?g = map (\<lambda>c. (byte c, [c])) ModeLearning @ [(0x241F, m_unit_separator), (120, ''x'')]"
    by (simp add: runes_ascii_Cons byte_def)
  have x: "trim_control ''x'' = ''x''" "\<not> is_blank ''x''"
    using runes_ascii [of "''x''"] by (simp_all add: trim_control_def str_eval)
  have "trim_control ?g = ?g"
    unfolding trim_control_def trim_func_def r by (simp add: byte_def unrunes_def)
  moreover have "\<not> is_blank ?g"
    unfolding is_blank_def trim_space_def trim_func_eq_Nil r by (auto simp: byte_def is_space_def)
  ultimately have "goal_digest E ?g ModeGeneral = goal_digest E ''x'' ModeLearning
     \<and> (\<exists>d. goal_digest E ?g ModeGeneral = Inr d)"
    using x by (simp add: goal_digest_def)
  then show ?thesis by blast
qed

end
