(* ===== verification/Checkpoint.thy ===== *)
theory Checkpoint
  imports TaskKeys
begin

text \<open>
  The checkpoint store: internal/checkpoint/checkpoint.go.  MySQL is authoritative, Redis a cache
  whose failures are logged and otherwise ignored.  The JSON encoding of a context is \<open>enc_ctx\<close>, its
  decoding \<open>dec_ctx\<close>; encoding the strings and integers of a context cannot fail.
\<close>

abbreviation (input) "cache_ttl \<equiv> hours 168"

definition media_key :: "int \<Rightarrow> gostr" where
  "media_key mid = ''agent:checkpoint:'' @ itoa mid"

definition goal_index_key :: "int \<Rightarrow> gostr" where
  "goal_index_key mid = media_key mid @ '':goals''"

definition goal_key :: "env \<Rightarrow> int \<Rightarrow> gostr \<Rightarrow> analysis_mode \<Rightarrow> gostr res" where
  "goal_key E mid goal mode = (case goal_digest E goal mode of Inl e \<Rightarrow> Inl e
     | Inr d \<Rightarrow> Inr (media_key mid @ '':goal:'' @ d))"

definition goal_checkpoint :: "env \<Rightarrow> gostr \<Rightarrow> analysis_mode \<Rightarrow> gostr \<Rightarrow> gostr res" where
  "goal_checkpoint E goal mode field = (case goal_digest E goal mode of Inl e \<Rightarrow> Inl e
     | Inr d \<Rightarrow> Inr (''goal:'' @ d @ '':'' @ field))"

section \<open>The cache\<close>

text \<open>HDel whose result the code drops.\<close>

definition hdel :: "env \<Rightarrow> gostr \<Rightarrow> gostr list \<Rightarrow> unit op" where
  "hdel E key fs = thenI (ask_err (a_err E) (Redis (RHDel key fs))) (ret ())"

definition cache_field :: "env \<Rightarrow> gostr \<Rightarrow> gostr \<Rightarrow> gostr \<Rightarrow> gostr \<Rightarrow> unit op" where
  "cache_field E key field payload stage =
     catchE (ask_err (a_err E) (Redis (RPipe ([RHSet key [(field, payload)]]
         @ (if stage \<noteq> [] then [RHSet key [(''stage'', stage)]] else [])
         @ [RExpire key cache_ttl]))))
       (\<lambda>e. hdel E key [field, ''stage'']) (\<lambda>_. ret ())"

definition cache_stage :: "env \<Rightarrow> gostr \<Rightarrow> gostr \<Rightarrow> unit op" where
  "cache_stage E key stage =
     catchE (ask_err (a_err E) (Redis (RPipe [RHSet key [(''stage'', stage)], RExpire key cache_ttl])))
       (\<lambda>e. hdel E key [''stage'']) (\<lambda>_. ret ())"

definition remember_goal_key :: "env \<Rightarrow> int \<Rightarrow> gostr \<Rightarrow> unit op" where
  "remember_goal_key E mid key =
     thenI (ask_err (a_err E) (Redis (RPipe [RSAdd (goal_index_key mid) key, RExpire (goal_index_key mid) cache_ttl])))
       (ret ())"

section \<open>The media context\<close>

definition decode_context :: "env \<Rightarrow> gostr \<Rightarrow> video_context res" where
  "decode_context E payload = (case dec_ctx E payload of Inl e \<Rightarrow> Inl e | Inr vc \<Rightarrow> normalize_context vc)"

text \<open>The part of LoadContext that reads MySQL and refills the cache.\<close>

definition load_context_db :: "env \<Rightarrow> int \<Rightarrow> video_context option opE" where
  "load_context_db E mid =
     catchE (ask (a_ostr E) (Ledger (DFindPayload mid ''media:context'')))
       (\<lambda>e. failE (Internal (m_cp_read @ ''media:context'') (Some e)))
       (\<lambda>p. case p of
          None \<Rightarrow> okE None
        | Some payload \<Rightarrow>
            (case decode_context E payload of
               Inl e \<Rightarrow> failE (Internal (m_cp_read @ ''media:context'') (Some e))
             | Inr vc \<Rightarrow>
                 bnd (ask (a_ostr E) (Ledger (DFindStage mid ''media:context''))) (\<lambda>st.
                 thenI (cache_field E (media_key mid) ''context'' payload
                          (case st of Inr (Some v) \<Rightarrow> v | _ \<Rightarrow> []))
                   (okE (Some vc)))))"

definition load_context :: "env \<Rightarrow> int \<Rightarrow> video_context option opE" where
  "load_context E mid =
     bnd (ask (a_ostr E) (Redis (RHGet (media_key mid) ''context''))) (\<lambda>cached.
     case cached of
       Inl e \<Rightarrow> thenI (hdel E (media_key mid) [''context'']) (load_context_db E mid)
     | Inr None \<Rightarrow> load_context_db E mid
     | Inr (Some payload) \<Rightarrow>
         (if payload \<noteq> [] then
            (case decode_context E payload of
               Inr vc \<Rightarrow> okE (Some vc)
             | Inl e \<Rightarrow> thenI (hdel E (media_key mid) [''context'']) (load_context_db E mid))
          else load_context_db E mid))"

definition reusable_context :: "video_context \<Rightarrow> video_context" where
  "reusable_context vc = vc\<lparr>vc_goal := []\<rparr>"

definition save_context :: "env \<Rightarrow> int \<Rightarrow> video_context \<Rightarrow> unit opE" where
  "save_context E mid vc =
     (let payload = enc_ctx E (reusable_context vc) in
      catchE (ask_err (a_err E) (Ledger (DUpsertPair mid ''media:context'' ''media:stage'' StageContextCompleted payload)))
        (\<lambda>e. failE (Internal m_cp_save (Some e)))
        (\<lambda>_. thenI (cache_field E (media_key mid) ''context'' payload StageContextCompleted) (okE ())))"

section \<open>Goal-level checkpoints\<close>

definition load_stage :: "env \<Rightarrow> int \<Rightarrow> gostr \<Rightarrow> analysis_mode \<Rightarrow> task_stage opE" where
  "load_stage E mid goal mode =
     (case goal_key E mid goal mode of Inl e \<Rightarrow> failE e | Inr key \<Rightarrow>
     (case goal_checkpoint E goal mode ''stage'' of Inl e \<Rightarrow> failE e | Inr name \<Rightarrow>
      (let db = catchE (ask (a_ostr E) (Ledger (DFindStage mid name)))
                  (\<lambda>e. failE (Internal (m_cp_read @ name) (Some e)))
                  (\<lambda>p. case p of None \<Rightarrow> okE [] | Some st \<Rightarrow> thenI (cache_stage E key st) (okE (task_stage_from st)))
       in bnd (ask (a_ostr E) (Redis (RHGet key ''stage''))) (\<lambda>cached.
          case cached of
            Inr (Some v) \<Rightarrow> if task_stage_from v \<noteq> [] then okE (task_stage_from v)
                             else thenI (hdel E key [''stage'']) db
          | _ \<Rightarrow> db))))"

definition save_stage :: "env \<Rightarrow> int \<Rightarrow> gostr \<Rightarrow> analysis_mode \<Rightarrow> task_stage \<Rightarrow> unit opE" where
  "save_stage E mid goal mode stage =
     (case goal_key E mid goal mode of Inl e \<Rightarrow> failE e | Inr key \<Rightarrow>
     (case goal_checkpoint E goal mode ''stage'' of Inl e \<Rightarrow> failE e | Inr name \<Rightarrow>
      catchE (ask_err (a_err E) (Ledger (DUpsert mid name stage None)))
        (\<lambda>e. failE (Internal m_cp_save (Some e)))
        (\<lambda>_. thenI (cache_stage E key stage) (thenI (remember_goal_key E mid key) (okE ())))))"

definition save_failure :: "env \<Rightarrow> int \<Rightarrow> gostr \<Rightarrow> analysis_mode \<Rightarrow> task_stage \<Rightarrow> goerr \<Rightarrow> unit opE" where
  "save_failure E mid goal mode failed_stage cause =
     (case goal_key E mid goal mode of Inl e \<Rightarrow> failE e | Inr key \<Rightarrow>
     (case goal_checkpoint E goal mode ''stage'' of Inl e \<Rightarrow> failE e | Inr name \<Rightarrow>
      catchE (ask_err (a_err E) (Ledger (DUpsert mid name StageFailed None)))
        (\<lambda>e. failE (Internal m_cp_save (Some e)))
        (\<lambda>_. thenI (cache_stage E key StageFailed)
          (bindE (ask_err (a_err E) (Redis (RHSet key [(''failedStage'', failed_stage), (''errorType'', code_of (Some cause))]))) (\<lambda>_.
          bindE (ask_err (a_err E) (Redis (RExpire key cache_ttl))) (\<lambda>_.
          thenI (remember_goal_key E mid key) (okE ())))))))"

definition has_result :: "env \<Rightarrow> int \<Rightarrow> gostr \<Rightarrow> analysis_mode \<Rightarrow> bool opE" where
  "has_result E mid goal mode =
     (case goal_key E mid goal mode of Inl e \<Rightarrow> failE e | Inr key \<Rightarrow>
     (case goal_checkpoint E goal mode ''result'' of Inl e \<Rightarrow> failE e | Inr name \<Rightarrow>
      bnd (ask (a_bool E) (Redis (RHExists key ''result''))) (\<lambda>r.
      if r = Inr True then okE True
      else catchE (ask (a_ostr E) (Ledger (DFindPayload mid name)))
             (\<lambda>e. failE (Internal (m_cp_read @ name) (Some e)))
             (\<lambda>p. okE (p \<noteq> None)))))"

section \<open>Facts\<close>

lemma extends_hdel [ext_intros]: "extends (hdel E key fs)"
  unfolding hdel_def by (intro ext_intros)

lemma extends_cache_field [ext_intros]: "extends (cache_field E key field payload stage)"
  unfolding cache_field_def by (intro ext_intros)

lemma extends_cache_stage [ext_intros]: "extends (cache_stage E key stage)"
  unfolding cache_stage_def by (intro ext_intros)

lemma extends_remember_goal_key [ext_intros]: "extends (remember_goal_key E mid key)"
  unfolding remember_goal_key_def by (intro ext_intros)

lemma extends_load_context_db [ext_intros]: "extends (load_context_db E mid)"
  unfolding load_context_db_def by (intro ext_intros)

lemma extends_load_context [ext_intros]: "extends (load_context E mid)"
  unfolding load_context_def by (intro ext_intros)

lemma extends_save_context [ext_intros]: "extends (save_context E mid vc)"
  unfolding save_context_def Let_def by (intro ext_intros)

lemma extends_load_stage [ext_intros]: "extends (load_stage E mid goal mode)"
  unfolding load_stage_def Let_def
  by (intro ext_intros)

lemma extends_save_stage [ext_intros]: "extends (save_stage E mid goal mode stage)"
  unfolding save_stage_def by (intro ext_intros)

lemma extends_save_failure [ext_intros]: "extends (save_failure E mid goal mode st cause)"
  unfolding save_failure_def by (intro ext_intros)

lemma extends_has_result [ext_intros]: "extends (has_result E mid goal mode)"
  unfolding has_result_def by (intro ext_intros)

lemma goal_digest_keys:
  "goal_digest E goal mode = Inr d \<Longrightarrow>
   goal_key E mid goal mode = Inr (media_key mid @ '':goal:'' @ d) \<and>
   goal_checkpoint E goal mode field = Inr (''goal:'' @ d @ '':'' @ field)"
  by (simp add: goal_key_def goal_checkpoint_def)

lemma decode_context_wf: "decode_context E p = Inr vc \<Longrightarrow> wf_context vc"
  by (auto simp: decode_context_def normalize_context_def new_video_context_def wf_context_def
      split: sum.splits if_splits dest: map_res_renew_wf)

lemma wf_normalize: "wf_context vc \<Longrightarrow> normalize_context vc = Inr vc"
proof -
  assume w: "wf_context vc"
  then have "map_res renew_segment (vc_segments vc) = Inr (map id (vc_segments vc))"
    by (intro map_res_all) (auto simp: wf_context_def list_all_iff renew_segment_wf)
  with w show ?thesis by (simp add: normalize_context_def new_video_context_def wf_context_def)
qed

lemma wf_reusable: "wf_context vc \<Longrightarrow> wf_context (reusable_context vc)"
  by (simp add: wf_context_def reusable_context_def) (simp add: str_eval)

lemma wp_load_context_db:
  assumes "\<And>e p. Q (Inl (Internal (m_cp_read @ ''media:context'') (Some e))) p"
    and "a_ostr E h (Ledger (DFindPayload mid ''media:context'')) = Inr None \<Longrightarrow> Q (Inr None) (h @ [Ledger (DFindPayload mid ''media:context'')])"
    and "\<And>payload vc p. a_ostr E h (Ledger (DFindPayload mid ''media:context'')) = Inr (Some payload) \<Longrightarrow>
           decode_context E payload = Inr vc \<Longrightarrow> prefix h p \<Longrightarrow> Q (Inr (Some vc)) p"
  shows "wp (load_context_db E mid) Q h"
  using assms(1,2)
  by (auto simp: load_context_db_def wp_simps split: sum.splits option.splits
      intro!: wp_quiet ext_intros assms(3) dest: append_prefixD)

lemma load_context_returns_wf: "wp (load_context E mid) (\<lambda>r h'. \<forall>vc. r = Inr (Some vc) \<longrightarrow> wf_context vc) h"
proof -
  have db: "wp (load_context_db E mid) (\<lambda>r h'. \<forall>vc. r = Inr (Some vc) \<longrightarrow> wf_context vc) h'" for h'
    by (rule wp_load_context_db) (auto dest: decode_context_wf)
  show ?thesis
    by (auto simp: load_context_def wp_simps db split: sum.splits option.splits
        intro!: wp_quiet ext_intros dest: decode_context_wf)
qed

lemma wp_save_context:
  "wp (save_context E mid vc) (\<lambda>r h'. r = Inr () \<longrightarrow> made (acked E) h (Ledger (DUpsertPair mid ''media:context''
      ''media:stage'' StageContextCompleted (enc_ctx E (reusable_context vc)))) h') h"
  unfolding save_context_def Let_def
  by (auto simp: wp_simps split: option.splits intro!: wp_quiet ext_intros intro: made_later [OF made_last])

section \<open>Properties\<close>

text \<open>A saved context is read back without its goal: when SaveContext succeeded, MySQL
  acknowledged the pair of rows, and LoadContext returns the saved context with the goal cleared
  whenever MySQL answers the payload that was written and JSON decodes what it encoded, whatever the
  cache does: a miss, an error, an empty value, garbage that does not decode, or the payload.\<close>

theorem context_save_load:
  assumes "wf_context vc" and "dec_ctx E (enc_ctx E (reusable_context vc)) = Inr (reusable_context vc)"
    and "run_state (save_context E mid vc) h = (Inr (), h1)"
    and "\<forall>p. prefix h2 p \<longrightarrow> a_ostr E p (Ledger (DFindPayload mid ''media:context'')) = Inr (Some (enc_ctx E (reusable_context vc)))"
    and "\<forall>v vc'. a_ostr E h2 (Redis (RHGet (media_key mid) ''context'')) = Inr (Some v) \<and> v \<noteq> enc_ctx E (reusable_context vc)
           \<longrightarrow> v = [] \<or> decode_context E v \<noteq> Inr vc'"
    and "run_state (load_context E mid) h2 = (r, h3)"
  shows "r = Inr (Some (vc\<lparr>vc_goal := []\<rparr>))
    \<and> made (acked E) h (Ledger (DUpsertPair mid ''media:context'' ''media:stage'' StageContextCompleted
         (enc_ctx E (reusable_context vc)))) h1"
proof
  let ?c = "reusable_context vc"
  have d: "decode_context E (enc_ctx E ?c) = Inr ?c"
    using assms(1,2) by (simp add: decode_context_def wf_normalize wf_reusable)
  have db: "wp (load_context_db E mid) (\<lambda>r h'. r = Inr (Some ?c)) p" if "prefix h2 p" for p
    using assms(4) that d
    by (auto simp: load_context_db_def wp_simps split: sum.splits option.splits intro!: wp_quiet ext_intros)
  have "wp (load_context E mid) (\<lambda>r h'. r = Inr (Some ?c)) h2"
    unfolding load_context_def using assms(5) d
    by (auto simp: wp_simps split: sum.splits option.splits
        intro!: wp_quiet ext_intros db dest: append_prefixD)
  from wp_run [OF assms(6) this] show "r = Inr (Some (vc\<lparr>vc_goal := []\<rparr>))" by (simp add: reusable_context_def)
  from wp_run [OF assms(3) wp_save_context] show "made (acked E) h (Ledger (DUpsertPair mid ''media:context'' ''media:stage''
      StageContextCompleted (enc_ctx E ?c))) h1" by simp
qed

definition ctx1 :: video_context where
  "ctx1 = \<lparr>vc_source = ''v.mp4'', vc_goal = ''g'', vc_segments = []\<rparr>"

definition env_ctx :: env where
  "env_ctx = env0\<lparr>enc_ctx := vc_source, dec_ctx := (\<lambda>s. Inr \<lparr>vc_source = s, vc_goal = [], vc_segments = []\<rparr>),
     a_ostr := (\<lambda>h c. case c of Ledger (DFindPayload m n) \<Rightarrow> Inr (Some ''v.mp4'') | _ \<Rightarrow> Inr None)\<rparr>"

theorem context_save_load_witness:
  "result (load_context env_ctx 7) [] = Inr (Some (ctx1\<lparr>vc_goal := []\<rparr>))"
proof -
  obtain r h3 where r: "run_state (load_context env_ctx 7) [] = (r, h3)" by fastforce
  have w: "wf_context ctx1" by (simp add: ctx1_def wf_context_def) (simp add: str_eval)
  have s: "\<exists>h1. run_state (save_context env_ctx 7 ctx1) [] = (Inr (), h1)"
    by (simp add: save_context_def cache_field_def catchE_def thenI_def ask_err_def okE_def Let_def env_ctx_def env0_def)
  then obtain h1 where s: "run_state (save_context env_ctx 7 ctx1) [] = (Inr (), h1)" by blast
  have "r = Inr (Some (ctx1\<lparr>vc_goal := []\<rparr>))"
    using context_save_load [OF w _ s _ _ r] by (simp add: env_ctx_def env0_def ctx1_def reusable_context_def)
  then show ?thesis by (simp add: result_def r)
qed

end
