(* ===== verification/RedisLock.thy ===== *)
theory RedisLock
  imports TaskKeys
begin

text \<open>
  The lease-based distributed lock: internal/redislock/lock.go.  Three views of it:
  the operations a client calls (\<open>try_lock\<close>, \<open>unlock\<close>) as effectful programs; the watchdog's
  decision per tick; and the protocol of many owners of one key against Redis, whose commands are the
  parameter \<open>R\<close> with the documented behaviour collected in the locale \<open>redis_lease\<close>.
\<close>

section \<open>Names, options, the lock value\<close>

definition trim_prefix :: "gostr \<Rightarrow> gostr \<Rightarrow> gostr" where
  "trim_prefix s p = (if has_prefix s p then drop (length p) s else s)"

definition lock_name :: "gostr \<Rightarrow> gostr" where
  "lock_name key = takeWhile (\<lambda>c. c \<noteq> CHR '':'') (trim_prefix key ''lock:'')"

record lock_options =
  lo_ttl :: int
  lo_renew :: int
  lo_poll :: int

definition new_locker :: "lock_options \<Rightarrow> lock_options" where
  "new_locker o1 = \<lparr>lo_ttl = (if lo_ttl o1 \<le> 0 then seconds 30 else lo_ttl o1),
                   lo_renew = (if lo_renew o1 \<le> 0 then seconds 10 else lo_renew o1),
                   lo_poll = (if lo_poll o1 \<le> 0 then 100 else lo_poll o1)\<rparr>"

definition default_locker :: lock_options where
  "default_locker = new_locker \<lparr>lo_ttl = 0, lo_renew = 0, lo_poll = 0\<rparr>"

record lock =
  lk_key :: gostr
  lk_token :: gostr
  lk_released :: bool
  lk_lost :: bool

definition new_lock :: "gostr \<Rightarrow> gostr \<Rightarrow> lock" where
  "new_lock key token = \<lparr>lk_key = key, lk_token = token, lk_released = False, lk_lost = False\<rparr>"

section \<open>Acquiring and releasing\<close>

definition acquire :: "env \<Rightarrow> lock_options \<Rightarrow> gostr \<Rightarrow> gostr \<Rightarrow> bool opE" where
  "acquire E opts key token = ask (a_bool E) (Redis (RSetNX key token (lo_ttl opts)))"

text \<open>
  The polling loop of TryLock.  \<open>fuel\<close> bounds the number of polls; \<open>try_lock\<close> gives it
  \<open>wait / poll + 2\<close>, which \<open>try_lock_fuel_enough\<close> shows is never used up when sleeping lets time
  pass.  A sleep answers with ctx.Err() when the context ends first.
\<close>

fun try_lock_loop :: "env \<Rightarrow> lock_options \<Rightarrow> gostr \<Rightarrow> gostr \<Rightarrow> int \<Rightarrow> int \<Rightarrow> nat \<Rightarrow> lock option opE" where
  "try_lock_loop E opts key token wait deadline 0 = okE None"
| "try_lock_loop E opts key token wait deadline (Suc fuel) =
     bindE (acquire E opts key token) (\<lambda>ok.
     if ok then okE (Some (new_lock key token))
     else bnd (now_ms E) (\<lambda>now.
       let remaining = deadline - now in
       if wait \<le> 0 \<or> remaining \<le> 0 then okE None
       else bindE (ask_err (a_err E) (Os (OSleep (min (lo_poll opts) remaining)))) (\<lambda>_.
            try_lock_loop E opts key token wait deadline fuel)))"

definition poll_bound :: "lock_options \<Rightarrow> int \<Rightarrow> nat" where
  "poll_bound opts wait = nat (wait div lo_poll opts) + 2"

definition random_token :: "env \<Rightarrow> gostr op" where
  "random_token E = bnd (ask (a_str E) (Os (ORandom 16)))
     (\<lambda>r. ret (hex_encode (case r of Inl e \<Rightarrow> replicate 16 (char_of (0::nat)) | Inr b \<Rightarrow> b)))"

definition try_lock :: "env \<Rightarrow> lock_options \<Rightarrow> gostr \<Rightarrow> int \<Rightarrow> lock option opE" where
  "try_lock E opts key wait =
     bnd (random_token E) (\<lambda>token.
     bnd (now_ms E) (\<lambda>now.
     try_lock_loop E opts key token wait (now + wait) (poll_bound opts wait)))"

definition mark_lost :: "lock \<Rightarrow> lock" where
  "mark_lost lk = (if lk_lost lk \<or> lk_released lk then lk else lk\<lparr>lk_lost := True\<rparr>)"

definition is_held :: "lock option \<Rightarrow> bool" where
  "is_held lk = (case lk of None \<Rightarrow> False | Some l \<Rightarrow> \<not> lk_released l \<and> \<not> lk_lost l)"

text \<open>
  Unlock and IsHeld as a client sees them: the watchdog may have marked the lock lost in between, so
  whether a lock is still held is an answer of the environment.
\<close>

definition held_now :: "env \<Rightarrow> lock option \<Rightarrow> bool op" where
  "held_now E lk = (case lk of None \<Rightarrow> ret False
     | Some l \<Rightarrow> bnd (ask (a_bool E) (Os (OIsHeld (lk_token l)))) (\<lambda>r. ret (r = Inr True)))"

definition unlock :: "env \<Rightarrow> lock option \<Rightarrow> unit opE" where
  "unlock E lk = (case lk of None \<Rightarrow> okE ()
     | Some l \<Rightarrow> if lk_released l then okE ()
                 else ask_err (a_err E) (Redis (REval UnlockScript (lk_key l) [lk_token l])))"

text \<open>The deferred release of the clients: unlock only while still held.\<close>

definition release_if_held :: "env \<Rightarrow> lock option \<Rightarrow> unit op" where
  "release_if_held E lk = bnd (held_now E lk) (\<lambda>b. if b then thenI (unlock E lk) (ret ()) else ret ())"

text \<open>What the loop relies on of the clock: it does not run backwards, and an uninterrupted sleep
  takes at least as long as asked.\<close>

definition clock_ok :: "env \<Rightarrow> bool" where
  "clock_ok E = ((\<forall>h h'. prefix h h' \<longrightarrow> a_num E h (Os ONow) \<le> a_num E h' (Os ONow)) \<and>
     (\<forall>h h' d. prefix (h @ [Os (OSleep d)]) h' \<and> a_err E h (Os (OSleep d)) = None \<longrightarrow>
        a_num E h (Os ONow) + d \<le> a_num E h' (Os ONow)))"

section \<open>The watchdog\<close>

text \<open>One tick: the answer of the renew script and the time at which it was read; the result is the
  lock, the new lastOK and whether the watchdog goes on.\<close>

definition watchdog_tick :: "int \<Rightarrow> lock \<Rightarrow> int \<Rightarrow> int res \<Rightarrow> int \<Rightarrow> lock \<times> int \<times> bool" where
  "watchdog_tick ttl lk last_ok resp now =
     (case resp of
        Inr n \<Rightarrow> if n = 1 then (lk, now, True) else (mark_lost lk, last_ok, False)
      | Inl e \<Rightarrow> if now - last_ok \<ge> ttl then (mark_lost lk, last_ok, False) else (lk, last_ok, True))"

fun watchdog :: "int \<Rightarrow> lock \<Rightarrow> int \<Rightarrow> (int res \<times> int) list \<Rightarrow> lock \<times> int" where
  "watchdog ttl lk last_ok [] = (lk, last_ok)"
| "watchdog ttl lk last_ok ((resp, now) # ts) =
     (case watchdog_tick ttl lk last_ok resp now of
        (lk', last', go) \<Rightarrow> if go then watchdog ttl lk' last' ts else (lk', last'))"

section \<open>The scripts over the commands of Redis\<close>

record 's rcmds =
  rget :: "gostr \<Rightarrow> 's \<Rightarrow> gostr option"
  rsetnx :: "gostr \<Rightarrow> gostr \<Rightarrow> int \<Rightarrow> 's \<Rightarrow> bool \<times> 's"
  rdel :: "gostr \<Rightarrow> 's \<Rightarrow> int \<times> 's"
  rpexpire :: "gostr \<Rightarrow> int \<Rightarrow> 's \<Rightarrow> int \<times> 's"

definition unlock_script :: "'s rcmds \<Rightarrow> gostr \<Rightarrow> gostr \<Rightarrow> 's \<Rightarrow> int \<times> 's" where
  "unlock_script R key token s = (if rget R key s = Some token then rdel R key s else (0, s))"

definition renew_script :: "'s rcmds \<Rightarrow> gostr \<Rightarrow> gostr \<Rightarrow> int \<Rightarrow> 's \<Rightarrow> int \<times> 's" where
  "renew_script R key token ttl s = (if rget R key s = Some token then rpexpire R key ttl s else (0, s))"

section \<open>The protocol\<close>

text \<open>An owner of the key; \<open>ow_ok\<close> is the time of its last confirmed acquisition or renewal.\<close>

record owner =
  ow_acquired :: bool
  ow_released :: bool
  ow_lost :: bool
  ow_ok :: int

record 's lsys =
  ls_store :: 's
  ls_owner :: "nat \<Rightarrow> owner"

definition fresh_owner :: owner where
  "fresh_owner = \<lparr>ow_acquired = False, ow_released = False, ow_lost = False, ow_ok = 0\<rparr>"

definition lock_init :: "'s lsys \<Rightarrow> bool" where
  "lock_init s = (\<forall>i. ls_owner s i = fresh_owner)"

text \<open>
  The steps: SET NX by an owner that has not acquired yet, a renewal whose answer arrives, a renewal
  that Redis executed but whose answer was lost, an unlock, an unlock that never reached Redis, and
  the passage of time.
\<close>

inductive lock_step :: "'s rcmds \<Rightarrow> ('s \<Rightarrow> int) \<Rightarrow> (int \<Rightarrow> 's \<Rightarrow> 's) \<Rightarrow> gostr \<Rightarrow> int \<Rightarrow> (nat \<Rightarrow> gostr) \<Rightarrow>
    's lsys \<Rightarrow> 's lsys \<Rightarrow> bool"
  for R clock pass key ttl tok where
  step_acquire: "\<not> ow_acquired (ls_owner s i) \<Longrightarrow> rsetnx R key (tok i) ttl (ls_store s) = (ok, st) \<Longrightarrow>
     ow = (if ok then (ls_owner s i)\<lparr>ow_acquired := True, ow_ok := clock (ls_store s)\<rparr> else ls_owner s i) \<Longrightarrow>
     lock_step R clock pass key ttl tok s \<lparr>ls_store = st, ls_owner = (ls_owner s)(i := ow)\<rparr>"
| step_renew: "ow_acquired (ls_owner s i) \<Longrightarrow> \<not> ow_released (ls_owner s i) \<Longrightarrow>
     renew_script R key (tok i) ttl (ls_store s) = (n, st) \<Longrightarrow>
     ow = (if n = 1 then (ls_owner s i)\<lparr>ow_ok := clock (ls_store s)\<rparr> else (ls_owner s i)\<lparr>ow_lost := True\<rparr>) \<Longrightarrow>
     lock_step R clock pass key ttl tok s \<lparr>ls_store = st, ls_owner = (ls_owner s)(i := ow)\<rparr>"
| step_renew_unanswered: "ow_acquired (ls_owner s i) \<Longrightarrow> \<not> ow_released (ls_owner s i) \<Longrightarrow>
     renew_script R key (tok i) ttl (ls_store s) = (n, st) \<Longrightarrow>
     lock_step R clock pass key ttl tok s (s\<lparr>ls_store := st\<rparr>)"
| step_unlock: "ow_acquired (ls_owner s i) \<Longrightarrow> \<not> ow_released (ls_owner s i) \<Longrightarrow>
     unlock_script R key (tok i) (ls_store s) = (n, st) \<Longrightarrow>
     lock_step R clock pass key ttl tok s
       \<lparr>ls_store = st, ls_owner = (ls_owner s)(i := (ls_owner s i)\<lparr>ow_released := True\<rparr>)\<rparr>"
| step_unlock_failed: "ow_acquired (ls_owner s i) \<Longrightarrow> \<not> ow_released (ls_owner s i) \<Longrightarrow>
     lock_step R clock pass key ttl tok s
       (s\<lparr>ls_owner := (ls_owner s)(i := (ls_owner s i)\<lparr>ow_released := True\<rparr>)\<rparr>)"
| step_time: "0 \<le> d \<Longrightarrow> lock_step R clock pass key ttl tok s (s\<lparr>ls_store := pass d (ls_store s)\<rparr>)"

text \<open>An owner inside a confirmed lease: less than one TTL since Redis last confirmed its token.\<close>

definition confirmed :: "('s \<Rightarrow> int) \<Rightarrow> int \<Rightarrow> 's lsys \<Rightarrow> nat \<Rightarrow> bool" where
  "confirmed clock ttl s i = (let ow = ls_owner s i in
     ow_acquired ow \<and> \<not> ow_released ow \<and> clock (ls_store s) < ow_ok ow + ttl)"

section \<open>What Redis promises\<close>

locale redis_lease =
  fixes R :: "'s rcmds" and expires :: "gostr \<Rightarrow> 's \<Rightarrow> int" and clock :: "'s \<Rightarrow> int"
    and pass :: "int \<Rightarrow> 's \<Rightarrow> 's"
  assumes setnx_free: "rget R k s = None \<Longrightarrow> rsetnx R k v t s = (ok, s') \<Longrightarrow> 0 < t \<Longrightarrow>
      ok \<and> rget R k s' = Some v \<and> expires k s' = clock s + t \<and> clock s' = clock s"
    and setnx_busy: "rget R k s = Some w \<Longrightarrow> rsetnx R k v t s = (False, s)"
    and del_frees: "rdel R k s = (n, s') \<Longrightarrow> rget R k s' = None \<and> clock s' = clock s"
    and pexpire_extends: "rget R k s = Some w \<Longrightarrow> rpexpire R k t s = (n, s') \<Longrightarrow> 0 < t \<Longrightarrow>
      n = 1 \<and> rget R k s' = Some w \<and> expires k s' = clock s + t \<and> clock s' = clock s"
    and pass_clock: "0 \<le> d \<Longrightarrow> clock (pass d s) = clock s + d"
    and pass_keeps: "0 \<le> d \<Longrightarrow> rget R k s = Some w \<Longrightarrow> clock s + d < expires k s \<Longrightarrow>
      rget R k (pass d s) = Some w \<and> expires k (pass d s) = expires k s"
begin

lemma unlock_script_other: "rget R k s = Some w \<Longrightarrow> w \<noteq> tk \<Longrightarrow> unlock_script R k tk s = (0, s)"
  by (simp add: unlock_script_def)

lemma renew_script_other: "rget R k s = Some w \<Longrightarrow> w \<noteq> tk \<Longrightarrow> renew_script R k tk t s = (0, s)"
  by (simp add: renew_script_def)

lemma renew_script_clock: "renew_script R k tk t s = (n, s') \<Longrightarrow> 0 < t \<Longrightarrow> clock s' = clock s"
  by (auto simp: renew_script_def dest: pexpire_extends split: if_splits)

lemma unlock_script_clock: "unlock_script R k tk s = (n, s') \<Longrightarrow> clock s' = clock s"
  by (auto simp: unlock_script_def dest: del_frees split: if_splits)

lemma renew_script_own:
  "rget R k s = Some tk \<Longrightarrow> renew_script R k tk t s = (n, s') \<Longrightarrow> 0 < t \<Longrightarrow>
   n = 1 \<and> rget R k s' = Some tk \<and> expires k s' = clock s + t \<and> clock s' = clock s"
  by (auto simp: renew_script_def dest: pexpire_extends)

lemma renew_script_one: "renew_script R k tk t s = (n, s') \<Longrightarrow> n = 1 \<Longrightarrow> rget R k s = Some tk"
  by (auto simp: renew_script_def split: if_splits)

end

text \<open>The protocol of one key: leases of positive length and owner tokens that differ.\<close>

locale lock_protocol = redis_lease R expires clock pass
  for R :: "'s rcmds" and expires and clock and pass +
  fixes key :: gostr and ttl :: int and tok :: "nat \<Rightarrow> gostr"
  assumes ttl_pos: "0 < ttl" and tok_inj: "inj tok"
begin

definition lock_inv :: "'s lsys \<Rightarrow> bool" where
  "lock_inv s = ((\<forall>i. confirmed clock ttl s i \<longrightarrow>
      rget R key (ls_store s) = Some (tok i) \<and> ow_ok (ls_owner s i) + ttl \<le> expires key (ls_store s))
    \<and> (\<forall>i. ow_acquired (ls_owner s i) \<longrightarrow> ow_ok (ls_owner s i) \<le> clock (ls_store s)))"

lemma lock_invD: "lock_inv s \<Longrightarrow> confirmed clock ttl s i \<Longrightarrow>
    rget R key (ls_store s) = Some (tok i) \<and> ow_ok (ls_owner s i) + ttl \<le> expires key (ls_store s)"
  by (simp add: lock_inv_def)

lemma lock_inv_past: "lock_inv s \<Longrightarrow> ow_acquired (ls_owner s i) \<Longrightarrow> ow_ok (ls_owner s i) \<le> clock (ls_store s)"
  by (simp add: lock_inv_def)

lemma tok_neq: "i \<noteq> j \<Longrightarrow> tok i \<noteq> tok j"
  using tok_inj by (auto dest: injD)

text \<open>A step that keeps the store's view of the key and the confirmed owners keeps the invariant.\<close>

lemma inv_acquire:
  assumes inv: "lock_inv s" and x: "rsetnx R key (tok i) ttl (ls_store s) = (ok, st)"
    and na: "\<not> ow_acquired (ls_owner s i)"
    and ow: "ow = (if ok then (ls_owner s i)\<lparr>ow_acquired := True, ow_ok := clock (ls_store s)\<rparr> else ls_owner s i)"
  shows "lock_inv \<lparr>ls_store = st, ls_owner = (ls_owner s)(i := ow)\<rparr>"
proof (cases "rget R key (ls_store s)")
  case None
  then have ok: ok and g: "rget R key st = Some (tok i)" "expires key st = clock (ls_store s) + ttl"
    and c: "clock st = clock (ls_store s)" using setnx_free [OF None x ttl_pos] by auto
  have "\<not> confirmed clock ttl s j" for j using lock_invD [OF inv] None by fastforce
  with ok g c ow lock_inv_past [OF inv] show ?thesis
    by (auto simp: lock_inv_def confirmed_def Let_def split: if_splits)
next
  case (Some w)
  then have "ok = False" "st = ls_store s" using setnx_busy [OF Some, of "tok i" ttl] x by auto
  with ow have "\<lparr>ls_store = st, ls_owner = (ls_owner s)(i := ow)\<rparr> = s" by simp
  with inv show ?thesis by simp
qed

lemma inv_renew:
  assumes inv: "lock_inv s" and x: "renew_script R key (tok i) ttl (ls_store s) = (n, st)"
  shows "lock_inv (s\<lparr>ls_store := st\<rparr>)"
    and "n = 1 \<Longrightarrow> lock_inv \<lparr>ls_store = st, ls_owner = (ls_owner s)(i := (ls_owner s i)\<lparr>ow_ok := clock (ls_store s)\<rparr>)\<rparr>"
    and "lock_inv \<lparr>ls_store = st, ls_owner = (ls_owner s)(i := (ls_owner s i)\<lparr>ow_lost := True\<rparr>)\<rparr>"
proof -
  have c: "clock st = clock (ls_store s)" by (rule renew_script_clock [OF x ttl_pos])
  have other: "\<not> confirmed clock ttl s j" if "rget R key (ls_store s) = Some (tok i)" "j \<noteq> i" for j
    using lock_invD [OF inv, of j] that tok_neq by auto
  have keep: "rget R key st = Some (tok j) \<and> ow_ok (ls_owner s j) + ttl \<le> expires key st"
    if j: "confirmed clock ttl s j" for j
  proof (cases "j = i")
    case True
    with lock_invD [OF inv j] renew_script_own [OF _ x ttl_pos] j lock_inv_past [OF inv]
    show ?thesis by (auto simp: confirmed_def Let_def)
  next
    case False
    with lock_invD [OF inv j] renew_script_other [of key "ls_store s" "tok j" "tok i" ttl] x tok_neq
    show ?thesis by auto
  qed
  show "lock_inv (s\<lparr>ls_store := st\<rparr>)"
    using keep c lock_inv_past [OF inv] by (auto simp: lock_inv_def confirmed_def Let_def)
  show "lock_inv \<lparr>ls_store = st, ls_owner = (ls_owner s)(i := (ls_owner s i)\<lparr>ow_lost := True\<rparr>)\<rparr>"
    using keep c lock_inv_past [OF inv] by (auto simp: lock_inv_def confirmed_def Let_def)
  show "lock_inv \<lparr>ls_store = st, ls_owner = (ls_owner s)(i := (ls_owner s i)\<lparr>ow_ok := clock (ls_store s)\<rparr>)\<rparr>"
    if n: "n = 1"
  proof -
    have own: "rget R key (ls_store s) = Some (tok i)" by (rule renew_script_one [OF x n])
    show ?thesis
      using renew_script_own [OF own x ttl_pos] other [OF own] c lock_inv_past [OF inv]
      by (auto simp: lock_inv_def confirmed_def Let_def split: if_splits)
  qed
qed

lemma inv_unlock:
  assumes inv: "lock_inv s" and x: "unlock_script R key (tok i) (ls_store s) = (n, st)"
  shows "lock_inv \<lparr>ls_store = st, ls_owner = (ls_owner s)(i := (ls_owner s i)\<lparr>ow_released := True\<rparr>)\<rparr>"
proof -
  have c: "clock st = clock (ls_store s)" by (rule unlock_script_clock [OF x])
  have "rget R key st = Some (tok j) \<and> ow_ok (ls_owner s j) + ttl \<le> expires key st"
    if j: "confirmed clock ttl s j" "j \<noteq> i" for j
    using lock_invD [OF inv j(1)] unlock_script_other [of key "ls_store s" "tok j" "tok i"] x tok_neq j(2)
    by auto
  with c lock_inv_past [OF inv] show ?thesis by (auto simp: lock_inv_def confirmed_def Let_def)
qed

lemma inv_time:
  assumes inv: "lock_inv s" and d: "0 \<le> d"
  shows "lock_inv (s\<lparr>ls_store := pass d (ls_store s)\<rparr>)"
  unfolding lock_inv_def
proof (intro conjI allI impI)
  fix i
  assume "ow_acquired (ls_owner (s\<lparr>ls_store := pass d (ls_store s)\<rparr>) i)"
  then show "ow_ok (ls_owner (s\<lparr>ls_store := pass d (ls_store s)\<rparr>) i)
      \<le> clock (ls_store (s\<lparr>ls_store := pass d (ls_store s)\<rparr>))"
    using lock_inv_past [OF inv, of i] pass_clock [OF d, of "ls_store s"] d by simp
next
  fix i
  assume a: "confirmed clock ttl (s\<lparr>ls_store := pass d (ls_store s)\<rparr>) i"
  then have b: "confirmed clock ttl s i" "clock (ls_store s) + d < ow_ok (ls_owner s i) + ttl"
    using pass_clock [OF d, of "ls_store s"] d by (auto simp: confirmed_def Let_def)
  with lock_invD [OF inv b(1)] pass_keeps [OF d, of key "ls_store s" "tok i"]
  show "rget R key (ls_store (s\<lparr>ls_store := pass d (ls_store s)\<rparr>)) = Some (tok i)"
    and "ow_ok (ls_owner (s\<lparr>ls_store := pass d (ls_store s)\<rparr>) i) + ttl
      \<le> expires key (ls_store (s\<lparr>ls_store := pass d (ls_store s)\<rparr>))"
    by auto
qed

end

sublocale lock_protocol \<subseteq> leases: inductive_system lock_init "lock_step R clock pass key ttl tok" lock_inv
proof
  fix s :: "'s lsys"
  assume "lock_init s"
  then show "lock_inv s" by (simp add: lock_init_def lock_inv_def confirmed_def fresh_owner_def)
next
  fix s t
  assume "lock_step R clock pass key ttl tok s t" and inv: "lock_inv s"
  then show "lock_inv t"
  proof cases
    case (step_acquire i ok st ow)
    then show ?thesis using inv_acquire [OF inv] by simp
  next
    case (step_renew i n st ow)
    then show ?thesis using inv_renew(2,3) [OF inv] by (simp split: if_splits)
  next
    case (step_renew_unanswered i n st)
    then show ?thesis using inv_renew(1) [OF inv] by simp
  next
    case (step_unlock i n st)
    then show ?thesis using inv_unlock [OF inv] by simp
  next
    case (step_unlock_failed i)
    then show ?thesis using inv by (auto simp: lock_inv_def confirmed_def Let_def)
  next
    case (step_time d)
    then show ?thesis using inv_time [OF inv] by simp
  qed
qed

context lock_protocol
begin

lemma confirmed_unique:
  assumes "reach lock_init (lock_step R clock pass key ttl tok) s"
    and "confirmed clock ttl s i" and "confirmed clock ttl s j"
  shows "i = j"
proof -
  from leases.reach_inv [OF assms(1)] have inv: "lock_inv s" .
  from lock_invD [OF inv assms(2)] lock_invD [OF inv assms(3)] have "tok i = tok j" by simp
  then show ?thesis using tok_inj by (auto dest: injD)
qed

end

section \<open>A key space that keeps these promises\<close>

text \<open>The documented behaviour of SET NX PX, GET, DEL and PEXPIRE on a key space with a clock.\<close>

record keyspace =
  ks_clock :: int
  ks_map :: "gostr \<Rightarrow> (gostr \<times> int) option"

definition ks_get :: "gostr \<Rightarrow> keyspace \<Rightarrow> gostr option" where
  "ks_get k s = (case ks_map s k of None \<Rightarrow> None
     | Some (v, e) \<Rightarrow> if ks_clock s < e then Some v else None)"

definition ks_expires :: "gostr \<Rightarrow> keyspace \<Rightarrow> int" where
  "ks_expires k s = (case ks_map s k of None \<Rightarrow> 0 | Some (v, e) \<Rightarrow> e)"

definition ks_pass :: "int \<Rightarrow> keyspace \<Rightarrow> keyspace" where
  "ks_pass d s = s\<lparr>ks_clock := ks_clock s + d\<rparr>"

definition ks_redis :: "keyspace rcmds" where
  "ks_redis = \<lparr>rget = ks_get,
     rsetnx = (\<lambda>k v t s. case ks_get k s of Some w \<Rightarrow> (False, s)
        | None \<Rightarrow> (True, s\<lparr>ks_map := (ks_map s)(k \<mapsto> (v, ks_clock s + t))\<rparr>)),
     rdel = (\<lambda>k s. (case ks_get k s of None \<Rightarrow> 0 | Some w \<Rightarrow> 1, s\<lparr>ks_map := (ks_map s)(k := None)\<rparr>)),
     rpexpire = (\<lambda>k t s. case ks_get k s of None \<Rightarrow> (0, s)
        | Some w \<Rightarrow> (1, s\<lparr>ks_map := (ks_map s)(k \<mapsto> (w, ks_clock s + t))\<rparr>))\<rparr>"

lemma nat_digits_inj: "inj nat_digits"
  by (metis digits_val_nat_digits injI)

interpretation ks: lock_protocol ks_redis ks_expires ks_clock ks_pass "''lock:k''" "30000" nat_digits
  by unfold_locales
     (auto simp: ks_redis_def ks_get_def ks_expires_def ks_pass_def nat_digits_inj
       split: option.splits prod.splits if_splits)

section \<open>Facts about the client operations\<close>

lemma extends_acquire [ext_intros]: "extends (acquire E opts key token)"
  by (simp add: acquire_def ext_intros)

lemma extends_try_lock_loop [ext_intros]: "extends (try_lock_loop E opts key token wait deadline fuel)"
  by (induction fuel) (auto simp: Let_def intro!: ext_intros)

lemma extends_random_token [ext_intros]: "extends (random_token E)"
  by (simp add: random_token_def ext_intros)

lemma extends_try_lock [ext_intros]: "extends (try_lock E opts key wait)"
  unfolding try_lock_def by (intro ext_intros)

lemma extends_held_now [ext_intros]: "extends (held_now E lk)"
  unfolding held_now_def by (intro ext_intros)

lemma extends_unlock [ext_intros]: "extends (unlock E lk)"
  unfolding unlock_def by (intro ext_intros)

lemma extends_release_if_held [ext_intros]: "extends (release_if_held E lk)"
  unfolding release_if_held_def by (intro ext_intros)

lemma clock_mono: "clock_ok E \<Longrightarrow> prefix h h' \<Longrightarrow> a_num E h (Os ONow) \<le> a_num E h' (Os ONow)"
  by (simp add: clock_ok_def)

lemma clock_sleep: "clock_ok E \<Longrightarrow> a_err E h (Os (OSleep d)) = None \<Longrightarrow>
    a_num E h (Os ONow) + d \<le> a_num E (h @ [Os (OSleep d)]) (Os ONow)"
  unfolding clock_ok_def by (metis prefix_order.refl)

lemma wait_le_polls:
  assumes "0 < (p::int)"
  shows "w \<le> p * int (nat (w div p) + 1)"
proof (cases "0 \<le> w")
  case True
  then have i: "int (nat (w div p) + 1) = w div p + 1" using assms by (simp add: pos_imp_zdiv_nonneg_iff)
  have "w = p * (w div p) + w mod p" by simp
  moreover have "w mod p < p" using assms by simp
  ultimately have "w \<le> p * (w div p) + p" by linarith
  then show ?thesis unfolding i by (simp add: distrib_left)
next
  case False
  moreover have "0 \<le> p * int (nat (w div p) + 1)" using assms by simp
  ultimately show ?thesis by linarith
qed

lemma try_lock_loop_step:
  assumes "clock_ok E" and "0 < lo_poll opts"
    and "deadline - a_num E h (Os ONow) \<le> lo_poll opts * int n"
  shows "run_state (try_lock_loop E opts key token wait deadline (Suc n + k)) h
       = run_state (try_lock_loop E opts key token wait deadline (Suc n)) h"
  using assms(3)
proof (induction n arbitrary: h)
  case 0
  let ?h1 = "h @ [Redis (RSetNX key token (lo_ttl opts))]"
  have "deadline - a_num E ?h1 (Os ONow) \<le> 0"
    using clock_mono [OF assms(1), of h ?h1] 0 by simp
  then show ?case by (simp add: bindE_def acquire_def now_ms_def okE_def Let_def split: sum.splits)
next
  case (Suc n)
  let ?h1 = "h @ [Redis (RSetNX key token (lo_ttl opts))]"
  let ?rem = "deadline - a_num E ?h1 (Os ONow)"
  let ?d = "min (lo_poll opts) ?rem"
  let ?h2 = "?h1 @ [Os ONow]"
  let ?h3 = "?h2 @ [Os (OSleep ?d)]"
  have rem: "?rem \<le> lo_poll opts * int (Suc n)"
    using clock_mono [OF assms(1), of h ?h1] Suc.prems by simp
  have "deadline - a_num E ?h3 (Os ONow) \<le> lo_poll opts * int n"
    if "0 < ?rem" "a_err E ?h2 (Os (OSleep ?d)) = None"
  proof -
    have "a_num E ?h1 (Os ONow) + ?d \<le> a_num E ?h3 (Os ONow)"
      using clock_sleep [OF assms(1) that(2)] clock_mono [OF assms(1), of ?h1 ?h2] by simp
    moreover have "0 \<le> lo_poll opts * int n" using assms(2) by simp
    ultimately show ?thesis using rem by (simp add: algebra_simps min_def split: if_splits)
  qed
  from Suc.IH [OF this] show ?case
    by (auto simp: bindE_def ask_err_def acquire_def now_ms_def okE_def Let_def split: sum.splits option.splits)
qed

lemma wp_random_token [wp_simps]:
  "wp (random_token E) Q h = (let b = (case a_str E h (Os (ORandom 16)) of Inl e \<Rightarrow> replicate 16 (char_of (0::nat)) | Inr b \<Rightarrow> b)
     in Q (hex_encode b) (h @ [Os (ORandom 16)]))"
  by (simp add: random_token_def wp_simps Let_def)

lemma wp_try_lock_loop:
  "wp (try_lock_loop E opts key token wait deadline fuel)
     (\<lambda>r h'. \<forall>lk. r = Inr (Some lk) \<longrightarrow> lk = new_lock key token \<and>
        made (\<lambda>p c. a_bool E p c = Inr True) h (Redis (RSetNX key token (lo_ttl opts))) h') h"
proof (induction fuel arbitrary: h)
  case (Suc fuel)
  let ?c = "Redis (RSetNX key token (lo_ttl opts))"
  have IH: "wp (try_lock_loop E opts key token wait deadline fuel)
     (\<lambda>r h'. \<forall>lk. r = Inr (Some lk) \<longrightarrow> lk = new_lock key token \<and>
        made (\<lambda>p c. a_bool E p c = Inr True) h ?c h') (h @ ws)" for ws
    by (rule wp_mono [OF Suc.IH]) (auto intro: made_earlier)
  show ?case
    using IH [of "[?c, Os ONow, Os (OSleep _)]"]
    by (auto simp: wp_simps acquire_def Let_def made_last split: sum.splits option.splits)
qed (simp add: wp_simps)

lemma wp_try_lock:
  "wp (try_lock E opts key wait) (\<lambda>r h'. \<forall>lk. r = Inr (Some lk) \<longrightarrow> (\<exists>t. lk = new_lock key t \<and>
      made (\<lambda>p c. a_bool E p c = Inr True) h (Redis (RSetNX key t (lo_ttl opts))) h')) h"
  unfolding try_lock_def wp_simps Let_def
  by (rule wp_mono [OF wp_try_lock_loop]) (fastforce elim: made_earlier)

text \<open>The calls the lock makes: nothing but its own key, the clock and the random source.\<close>

definition lock_call :: "gostr \<Rightarrow> call \<Rightarrow> bool" where
  "lock_call key c = (c = Os ONow \<or> c = Os (ORandom 16) \<or> (\<exists>d. c = Os (OSleep d)) \<or> (\<exists>t n. c = Redis (RSetNX key t n)))"

definition release_call :: "call \<Rightarrow> bool" where
  "release_call c = ((\<exists>t. c = Os (OIsHeld t)) \<or> (\<exists>k a. c = Redis (REval UnlockScript k a)))"

lemma uses_try_lock_loop: "uses (lock_call key) (try_lock_loop E opts key token wait deadline fuel)"
  by (induction fuel) (auto simp: acquire_def now_ms_def Let_def lock_call_def intro!: use_intros)

lemma uses_try_lock [use_intros]: "uses (lock_call key) (try_lock E opts key wait)"
  unfolding try_lock_def random_token_def now_ms_def
  by (intro use_intros uses_try_lock_loop) (auto simp: lock_call_def)

lemma uses_release_if_held [use_intros]: "uses release_call (release_if_held E lk)"
  unfolding release_if_held_def held_now_def unlock_def
  by (intro use_intros) (auto simp: release_call_def)

lemma clock_ok_env0: "clock_ok env0"
  by (auto simp: clock_ok_def env0_def prefix_def slept_append slept_nonneg)
     (metis add_increasing2 max.cobounded2 slept_nonneg)

section \<open>Properties\<close>

text \<open>(C26) Mutual exclusion of the lock protocol: whatever the interleaving of acquisitions, renewals
  (answered or not), unlocks (executed or not) and the passage of time, two owners are never inside a
  confirmed lease of the same key together; in particular an owner whose lease expired can neither
  renew nor delete its successor's lock.\<close>

theorem lock_mutual_exclusion:
  assumes "lock_protocol R expires clock pass ttl tok"
    and "reach lock_init (lock_step R clock pass key ttl tok) s"
    and "confirmed clock ttl s i" and "confirmed clock ttl s j"
  shows "i = j"
  using lock_protocol.confirmed_unique [OF assms] .

theorem lock_mutual_exclusion_witness:
  "\<exists>s. reach lock_init (lock_step ks_redis ks_clock ks_pass ''lock:k'' 30000 nat_digits) s
     \<and> confirmed ks_clock 30000 s 0 \<and> (\<forall>j. confirmed ks_clock 30000 s j \<longrightarrow> 0 = j)"
proof -
  define s0 :: "keyspace lsys" where
    "s0 = \<lparr>ls_store = \<lparr>ks_clock = 0, ks_map = (\<lambda>_. None)\<rparr>, ls_owner = (\<lambda>_. fresh_owner)\<rparr>"
  let ?st = "(ls_store s0)\<lparr>ks_map := (ks_map (ls_store s0))(''lock:k'' \<mapsto> (nat_digits 0, 30000))\<rparr>"
  let ?s = "\<lparr>ls_store = ?st, ls_owner = (ls_owner s0)(0 := fresh_owner\<lparr>ow_acquired := True, ow_ok := 0\<rparr>)\<rparr>"
  have "reach lock_init (lock_step ks_redis ks_clock ks_pass ''lock:k'' 30000 nat_digits) s0"
    by (rule reach_init) (simp add: lock_init_def s0_def)
  moreover have "lock_step ks_redis ks_clock ks_pass ''lock:k'' 30000 nat_digits s0 ?s"
    by (rule step_acquire [where ok = True])
       (simp_all add: s0_def fresh_owner_def ks_redis_def ks_get_def)
  ultimately have r: "reach lock_init (lock_step ks_redis ks_clock ks_pass ''lock:k'' 30000 nat_digits) ?s"
    by (rule reach_step)
  have c: "confirmed ks_clock 30000 ?s 0" by (simp add: confirmed_def s0_def fresh_owner_def)
  from lock_mutual_exclusion [OF ks.lock_protocol_axioms r c] r c show ?thesis by blast
qed

text \<open>(C27) TryLock returns: when sleeping lets time pass, the polling loop ends within
  \<open>wait / poll + 2\<close> polls, so more fuel than \<open>try_lock\<close> gives it never changes the run.\<close>

theorem try_lock_fuel_enough:
  assumes "clock_ok E" and "0 < lo_poll opts"
  shows "run_state (try_lock E opts key wait) h =
    run_state (bnd (random_token E) (\<lambda>token. bnd (now_ms E) (\<lambda>now.
      try_lock_loop E opts key token wait (now + wait) (poll_bound opts wait + k)))) h"
proof -
  let ?h1 = "h @ [Os (ORandom 16)]"
  let ?dl = "a_num E ?h1 (Os ONow) + wait"
  let ?n = "nat (wait div lo_poll opts) + 1"
  have "wait \<le> lo_poll opts * int ?n" by (rule wait_le_polls [OF assms(2)])
  moreover have "a_num E ?h1 (Os ONow) \<le> a_num E (?h1 @ [Os ONow]) (Os ONow)"
    by (rule clock_mono [OF assms(1)]) simp
  ultimately have "?dl - a_num E (?h1 @ [Os ONow]) (Os ONow) \<le> lo_poll opts * int ?n" by simp
  from try_lock_loop_step [OF assms this] show ?thesis
    by (simp add: try_lock_def random_token_def now_ms_def poll_bound_def)
qed

theorem try_lock_fuel_enough_witness:
  "run_state (try_lock env0 default_locker ''k'' 250) [] =
    run_state (bnd (random_token env0) (\<lambda>token. bnd (now_ms env0) (\<lambda>now.
      try_lock_loop env0 default_locker ''k'' token 250 (now + 250) (poll_bound default_locker 250 + 7)))) []"
  by (rule try_lock_fuel_enough [OF clock_ok_env0]) (simp add: default_locker_def new_locker_def)

text \<open>A lock is only ever returned on the word of Redis: TryLock yields a lock exactly for the key
  asked for, after a SET NX with the lock's own token was answered true.\<close>

theorem try_lock_acquired:
  assumes "run_state (try_lock E opts key wait) h = (Inr (Some lk), h')"
  shows "lk_key lk = key \<and> is_held (Some lk) \<and>
    made (\<lambda>p c. a_bool E p c = Inr True) h (Redis (RSetNX key (lk_token lk) (lo_ttl opts))) h'"
  using wp_run [OF assms wp_try_lock] by (auto simp: new_lock_def is_held_def)

theorem try_lock_acquired_witness:
  "\<exists>lk h'. run_state (try_lock env0 default_locker ''k'' 0) [] = (Inr (Some lk), h') \<and> lk_key lk = ''k''"
proof -
  have "\<exists>lk h'. run_state (try_lock env0 default_locker ''k'' 0) [] = (Inr (Some lk), h')"
    by (simp add: try_lock_def random_token_def now_ms_def poll_bound_def bindE_def acquire_def env0_def okE_def)
  then show ?thesis using try_lock_acquired by blast
qed

text \<open>The watchdog bounds how long an owner can believe in a lease that Redis no longer confirms:
  after any sequence of renewal attempts in time order, either the lock has been marked lost, or the
  last attempt came less than one TTL after the last confirmed renewal.\<close>

theorem watchdog_bounded_belief:
  assumes "0 < ttl" and "watchdog ttl lk t0 (ts @ [(resp, now)]) = (lk', last_ok)" and "is_held (Some lk')"
  shows "now - last_ok < ttl"
  using assms(2)
proof (induction ts arbitrary: lk t0)
  case Nil
  with assms(1,3) show ?case
    by (auto simp: watchdog_tick_def mark_lost_def is_held_def split: sum.splits if_splits)
next
  case (Cons a ts)
  with assms(3) show ?case
    by (cases a) (auto simp: watchdog_tick_def mark_lost_def is_held_def split: sum.splits if_splits)
qed

theorem watchdog_bounded_belief_witness:
  "(20000 :: int) - 10000 < 30000"
proof -
  have "watchdog 30000 (new_lock ''k'' ''t'') 0 ([(Inr 1, 10000)] @ [(Inl DeadlineExceeded, 20000)])
      = (new_lock ''k'' ''t'', 10000)" by (simp add: watchdog_tick_def)
  from watchdog_bounded_belief [OF _ this] show ?thesis by (simp add: is_held_def new_lock_def)
qed

end
