(* ===== verification/VideoFrames.thy ===== *)
theory VideoFrames
  imports Effects "HOL-Library.Word"
begin

unbundle bit_operations_syntax

text \<open>
  Key frames: internal/videocontext/frames.go.  The perceptual hash works on 64-bit words, the gray
  values on 32-bit ones; a decoded image (the image package) gives its bounds and, per pixel, the
  three 16-bit colour components of RGBA().
\<close>

definition max_key_frames :: int where "max_key_frames = 40"

text \<open>The duration is a float64; converting the quotient to int truncates it.\<close>

definition frame_gap_seconds :: "rat \<Rightarrow> int" where
  "frame_gap_seconds d = max 20 ((if 0 \<le> d then \<lfloor>d / of_int max_key_frames\<rfloor> else \<lceil>d / of_int max_key_frames\<rceil>) + 1)"

definition ffmpeg_frame_args :: "gostr \<Rightarrow> gostr \<Rightarrow> int \<Rightarrow> gostr list" where
  "ffmpeg_frame_args video dir gap =
     [''-y'', ''-skip_frame'', ''nokey'', ''-i'', video, ''-vf'',
      ''select=eq(n'' @ [CHR 0x5C] @ '',0)+gte(t-prev_selected_t'' @ [CHR 0x5C] @ '','' @ itoa (max 60 gap)
        @ '')+gt(scene'' @ [CHR 0x5C] @ '',0.3)*gte(t-prev_selected_t'' @ [CHR 0x5C] @ '','' @ itoa gap
        @ ''),scale='' @ [CHR 0x27] @ ''min(1280'' @ [CHR 0x5C] @ '',iw)'' @ [CHR 0x27] @ '':-2,showinfo'',
      ''-vsync'', ''vfr'', dir @ ''/frame_%06d.jpg'']"

section \<open>The difference hash\<close>

definition gray_value :: "int \<times> int \<times> int \<Rightarrow> 32 word" where
  "gray_value p = (case p of (r, g, b) \<Rightarrow>
     (299 * word_of_int r + 587 * word_of_int g + 114 * word_of_int b) div 1000)"

definition sample :: "image \<Rightarrow> nat \<Rightarrow> nat \<Rightarrow> 32 word" where
  "sample im y x = gray_value (im_at im (im_x im + (2 * int x + 1) * im_w im div 18)
                                        (im_y im + (2 * int y + 1) * im_h im div 16))"

fun hash_bits :: "bool list \<Rightarrow> 64 word \<Rightarrow> 64 word" where
  "hash_bits [] w = w"
| "hash_bits (b # bs) w = hash_bits bs (let s = push_bit 1 w in if b then s OR 1 else s)"

definition brighter :: "image \<Rightarrow> bool list" where
  "brighter im = concat (map (\<lambda>y. map (\<lambda>x. sample im y x > sample im y (Suc x)) [0..<8]) [0..<8])"

definition difference_hash_of :: "image option \<Rightarrow> 64 word" where
  "difference_hash_of im = (case im of None \<Rightarrow> 0
     | Some i \<Rightarrow> if im_w i = 0 \<or> im_h i = 0 then 0 else hash_bits (brighter i) 0)"

definition difference_hash :: "env \<Rightarrow> gostr \<Rightarrow> 64 word op" where
  "difference_hash E path = bnd (ask (a_image E) (Os (OImage path))) (\<lambda>im. ret (difference_hash_of im))"

definition hamming_distance :: "64 word \<Rightarrow> 64 word \<Rightarrow> nat" where
  "hamming_distance a b = length (filter (\<lambda>n. bit (a XOR b) n) [0..<64])"

section \<open>Facts\<close>

lemma extends_difference_hash [ext_intros]: "extends (difference_hash E path)"
  unfolding difference_hash_def by (intro ext_intros)

lemma length_brighter: "length (brighter im) = 64"
  by (simp add: brighter_def upt_rec)

text \<open>Bit \<open>n\<close> counted from the most significant end of what was shifted in.\<close>

lemma bit_hash_bits:
  "n < 64 \<Longrightarrow> bit (hash_bits bs w) n =
     (if n < length bs then bs ! (length bs - 1 - n) else bit w (n - length bs))"
proof (induction bs arbitrary: w)
  case (Cons b bs)
  let ?w = "let s = push_bit 1 w in if b then s OR 1 else s"
  have 0: "bit ?w 0 = b" by (simp add: Let_def bit_0 even_or_iff)
  have k: "bit ?w k = bit w (k - 1)" if "0 < k" "k < 64" for k
    using that unfolding Let_def
    by (cases b; simp only: if_True if_False bit_or_iff bit_push_bit_iff possible_bit_word bit_1_iff; simp)
  have ih: "bit (hash_bits (b # bs) w) n = (if n < length bs then bs ! (length bs - 1 - n) else bit ?w (n - length bs))"
    unfolding hash_bits.simps by (rule Cons.IH [OF Cons.prems])
  consider "n < length bs" | "n = length bs" | "length bs < n" by linarith
  then show ?case
  proof cases
    case 1
    then have "length (b # bs) - 1 - n = Suc (length bs - 1 - n)" by simp
    with 1 show ?thesis unfolding ih by simp
  next
    case 2
    with 0 show ?thesis unfolding ih by simp
  next
    case 3
    with k [of "n - length bs"] Cons.prems show ?thesis unfolding ih by (simp add: diff_diff_eq)
  qed
qed simp

lemma concat_grid:
  "0 < m \<Longrightarrow> concat (map (\<lambda>y. map (f y) [0..<m]) [0..<n]) = map (\<lambda>i. f (i div m) (i mod m)) [0..<n * m]"
proof (induction n)
  case (Suc n)
  have "[0..<Suc n * m] = [0..<n * m] @ map (\<lambda>x. n * m + x) [0..<m]"
    using upt_add_eq_append [of 0 "n * m" m] map_add_upt [of "n * m" m] by (simp add: add.commute)
  with Suc show ?case by (simp add: comp_def)
qed simp

lemma gray_no_overflow:
  assumes "0 \<le> r" "r < 2 ^ 16" "0 \<le> g" "g < 2 ^ 16" "0 \<le> b" "b < 2 ^ 16"
  shows "uint (gray_value (r, g, b)) = (299 * r + 587 * g + 114 * b) div 1000"
proof -
  let ?k = "299 * r + 587 * g + 114 * b"
  have "299 * word_of_int r + 587 * word_of_int g + 114 * word_of_int b = (word_of_int ?k :: 32 word)" by simp
  moreover have "uint (word_of_int ?k :: 32 word) = ?k"
    by (subst uint_word_of_int_eq) (use assms in \<open>simp add: take_bit_int_eq_self\<close>)
  ultimately show ?thesis by (simp add: gray_value_def uint_div_distrib)
qed

lemma hamming_eq_0: "hamming_distance a b = 0 \<longleftrightarrow> a = b"
proof
  assume "hamming_distance a b = 0"
  then have "\<not> bit (a XOR b) n" if "n < 64" for n
    using that by (auto simp: hamming_distance_def filter_empty_conv)
  then have "bit a n = bit b n" if "n < 64" for n using that by (auto simp: bit_simps)
  then show "a = b" by (intro bit_word_eqI) simp
qed (simp add: hamming_distance_def)

section \<open>Properties\<close>

text \<open>The gray value never overflows 32 bits for 16-bit components, and bit 8*(7-y) + (7-x) of the
  difference hash is set exactly when the sample at row y, column x is brighter than its right
  neighbour; the distance of two hashes is at most 64, symmetric, and zero exactly when they are
  equal.\<close>

theorem difference_hash_bits:
  assumes "im_w im \<noteq> 0" and "im_h im \<noteq> 0" and "x < 8" and "y < 8"
    and "0 \<le> r" and "r < 2 ^ 16" and "0 \<le> g" and "g < 2 ^ 16" and "0 \<le> b" and "b < 2 ^ 16"
  shows "(bit (difference_hash_of (Some im)) (8 * (7 - y) + (7 - x)) \<longleftrightarrow> sample im y x > sample im y (Suc x))
    \<and> uint (gray_value (r, g, b)) = (299 * r + 587 * g + 114 * b) div 1000
    \<and> hamming_distance a c \<le> 64 \<and> hamming_distance a c = hamming_distance c a
    \<and> (hamming_distance a c = 0 \<longleftrightarrow> a = c)"
proof -
  define n where "n = 8 * (7 - y) + (7 - x)"
  have n: "n < 64" "64 - 1 - n = 8 * y + x" using assms(3,4) by (auto simp: n_def)
  have "brighter im = map (\<lambda>i. sample im (i div 8) (i mod 8) > sample im (i div 8) (Suc (i mod 8))) [0..<8 * 8]"
    unfolding brighter_def by (rule concat_grid) simp
  then have "brighter im ! (8 * y + x) = (sample im y x > sample im y (Suc x))"
    using assms(3,4) by (simp del: upt.simps)
  moreover have "bit (hash_bits (brighter im) 0) n = brighter im ! (8 * y + x)"
    using bit_hash_bits [OF n(1), of "brighter im" 0] n by (simp only: length_brighter if_True)
  ultimately have h: "bit (difference_hash_of (Some im)) n \<longleftrightarrow> sample im y x > sample im y (Suc x)"
    using assms(1,2) by (simp only: difference_hash_of_def option.case) simp
  have le: "hamming_distance a c \<le> 64"
    unfolding hamming_distance_def by (rule order.trans [OF length_filter_le]) simp
  have "hamming_distance a c = hamming_distance c a" by (simp add: hamming_distance_def xor.commute)
  with h le gray_no_overflow [OF assms(5-10)] hamming_eq_0 [of a c] show ?thesis unfolding n_def by (simp only: simp_thms)
qed

definition image1 :: image where
  "image1 = \<lparr>im_x = 0, im_y = 0, im_w = 18, im_h = 16, im_at = (\<lambda>x y. if x < 4 then (1000, 1000, 1000) else (0, 0, 0))\<rparr>"

theorem difference_hash_bits_witness:
  "bit (difference_hash_of (Some image1)) 62 \<and> \<not> bit (difference_hash_of (Some image1)) 63"
proof -
  have "sample image1 0 1 > sample image1 0 2" "\<not> sample image1 0 0 > sample image1 0 1"
    by (simp_all add: sample_def image1_def gray_value_def)
  then show ?thesis
    using difference_hash_bits [of image1 1 0 0 0 0] difference_hash_bits [of image1 0 0 0 0 0]
    by (simp add: image1_def numeral_2_eq_2)
qed

text \<open>The frame gap keeps its promise: frames that are pairwise at least the gap apart, within a
  video of the probed duration, are at most 40, and the gap is never under 20 seconds.\<close>

theorem frame_gap_bounds:
  assumes "\<forall>i < length ts. 0 \<le> ts ! i \<and> ts ! i \<le> d"
    and "\<forall>i. Suc i < length ts \<longrightarrow> ts ! i + of_int (frame_gap_seconds d) \<le> ts ! Suc i"
  shows "length ts \<le> 40 \<and> 20 \<le> frame_gap_seconds d"
proof -
  have g20: "20 \<le> frame_gap_seconds d" by (simp add: frame_gap_seconds_def)
  have spread: "of_nat i * of_int (frame_gap_seconds d) \<le> ts ! i" if "i < length ts" for i
    using that
  proof (induction i)
    case 0
    then show ?case using assms(1) by simp
  next
    case (Suc i)
    then have "of_nat i * of_int (frame_gap_seconds d) \<le> ts ! i" by simp
    moreover have "ts ! i + of_int (frame_gap_seconds d) \<le> ts ! Suc i" using assms(2) Suc.prems by blast
    ultimately show ?case by (simp add: algebra_simps)
  qed
  have "length ts \<le> 40"
  proof (rule ccontr)
    assume "\<not> length ts \<le> 40"
    then have l: "40 < length ts" by simp
    then have "40 * of_int (frame_gap_seconds d) \<le> d"
      using spread [of 40] assms(1) by force
    moreover have "0 \<le> d" using assms(1) l by (meson order.trans less_trans zero_less_numeral)
    then have "\<lfloor>d / 40\<rfloor> + 1 \<le> frame_gap_seconds d"
      by (simp add: frame_gap_seconds_def max_key_frames_def)
    then have "d / 40 < of_int (frame_gap_seconds d)"
      using floor_correct [of "d / 40"] by (metis less_le_trans of_int_le_iff of_int_add of_int_1)
    ultimately show False by simp
  qed
  with g20 show ?thesis by simp
qed

theorem frame_gap_bounds_witness:
  "length [0 :: rat, 30, 60] \<le> 40 \<and> 20 \<le> frame_gap_seconds 100"
proof -
  have g: "frame_gap_seconds 100 = 20" by (simp add: frame_gap_seconds_def max_key_frames_def)
  have i: "i < 3 \<Longrightarrow> i = 0 \<or> i = 1 \<or> i = (2 :: nat)" for i by linarith
  have "\<forall>j < length [0 :: rat, 30, 60]. 0 \<le> [0 :: rat, 30, 60] ! j \<and> [0 :: rat, 30, 60] ! j \<le> 100"
    using i by (fastforce simp: numeral_3_eq_3)
  moreover have "\<forall>j. Suc j < length [0 :: rat, 30, 60] \<longrightarrow> [0 :: rat, 30, 60] ! j + of_int (frame_gap_seconds 100) \<le> [0, 30, 60] ! Suc j"
    using i by (fastforce simp: g numeral_3_eq_3)
  ultimately show ?thesis by (rule frame_gap_bounds)
qed

end
