(* ===== verification/Storage.thy ===== *)
theory Storage
  imports Effects
begin

text \<open>
  Object naming and the MinIO operations: internal/storage/minio.go over the client's calls.  The path
  of a URL (net/url) is the parameter \<open>url_path\<close>; the content type of an upload does not matter to any
  caller and is left out.
\<close>

section \<open>Names and URLs\<close>

definition is_suffix_char :: "char \<Rightarrow> bool" where
  "is_suffix_char c = (is_digit c \<or> (97 \<le> byte c \<and> byte c \<le> 122))"

text \<open>The regular expression \<^verbatim>\<open>^\.[a-z0-9]+$\<close>.\<close>

definition suffix_re :: "gostr \<Rightarrow> bool" where
  "suffix_re s = (case s of [] \<Rightarrow> False | c # cs \<Rightarrow> c = CHR ''.'' \<and> cs \<noteq> [] \<and> list_all is_suffix_char cs)"

definition object_suffix :: "gostr \<Rightarrow> gostr" where
  "object_suffix filename = (case from_last (CHR ''.'') filename of
      None \<Rightarrow> []
    | Some suf \<Rightarrow> if length suf > 11 then [] else if suffix_re (to_lower suf) then to_lower suf else [])"

fun contains :: "gostr \<Rightarrow> gostr \<Rightarrow> bool" where
  "contains [] p = (p = [])"
| "contains (c # cs) p = (has_prefix (c # cs) p \<or> contains cs p)"

definition validate_object_name :: "gostr \<Rightarrow> unit res" where
  "validate_object_name name =
     (if is_blank name \<or> has_prefix name ''/'' \<or> contains name ''..''
      then Inl (InvalidArgument ''invalid MinIO object name'') else Inr ())"

definition object_root :: "env \<Rightarrow> gostr" where
  "object_root E = mn_endpoint E @ ''/'' @ mn_bucket E @ ''/''"

definition object_url :: "env \<Rightarrow> gostr \<Rightarrow> gostr res" where
  "object_url E name = (case validate_object_name name of Inl e \<Rightarrow> Inl e | Inr _ \<Rightarrow> Inr (object_root E @ name))"

text \<open>The rest of a string after the first occurrence of a substring (strings.Index).\<close>

fun after_first :: "gostr \<Rightarrow> gostr \<Rightarrow> gostr option" where
  "after_first [] p = (if p = [] then Some [] else None)"
| "after_first (c # cs) p = (if has_prefix (c # cs) p then Some (drop (length p) (c # cs)) else after_first cs p)"

definition object_name :: "env \<Rightarrow> gostr \<Rightarrow> gostr res" where
  "object_name E url = (case url_path E url of
      Inl e \<Rightarrow> Inl (InvalidArgument ''invalid MinIO object URL'')
    | Inr path \<Rightarrow> (case after_first path (''/'' @ mn_bucket E @ ''/'') of
        None \<Rightarrow> Inl (InvalidArgument ''invalid MinIO object URL'')
      | Some name \<Rightarrow> (case validate_object_name name of Inl e \<Rightarrow> Inl e | Inr _ \<Rightarrow> Inr name)))"

definition is_managed_file :: "env \<Rightarrow> gostr \<Rightarrow> bool" where
  "is_managed_file E url = has_prefix url (object_root E)"

definition is_managed_with_prefix :: "env \<Rightarrow> gostr \<Rightarrow> gostr \<Rightarrow> bool" where
  "is_managed_with_prefix E url pre = (is_managed_file E url \<and>
     (case object_name E url of Inl e \<Rightarrow> False | Inr name \<Rightarrow> has_prefix name (pre @ ''/'')))"

section \<open>Operations\<close>

definition put_object :: "env \<Rightarrow> gostr \<Rightarrow> int \<Rightarrow> gostr opE" where
  "put_object E name sz =
     bindE (ask_err (a_err E) (Store (SPutObject name sz))) (\<lambda>_. ret (object_url E name))"

definition upload_stream :: "env \<Rightarrow> int \<Rightarrow> gostr \<Rightarrow> gostr opE" where
  "upload_stream E sz original = bnd (new_uuid E) (\<lambda>u. put_object E (u @ object_suffix original) sz)"

text \<open>strings.Trim(prefix, "/").\<close>

definition trim_slashes :: "gostr \<Rightarrow> gostr" where
  "trim_slashes s = rev (dropWhile (\<lambda>c. c = CHR ''/'') (rev (dropWhile (\<lambda>c. c = CHR ''/'') s)))"

text \<open>The local file: os.Stat answers its size when it is a file.\<close>

definition upload_local_file :: "env \<Rightarrow> gostr \<Rightarrow> gostr \<Rightarrow> gostr \<Rightarrow> gostr opE" where
  "upload_local_file E path original pre =
     catchE (ask (a_int E) (Os (OFile ''stat'' path)))
       (\<lambda>e. failE (InvalidArgument ''local file does not exist''))
       (\<lambda>sz. let p = trim_slashes pre in
         bnd (new_uuid E) (\<lambda>u.
         let name = (if p \<noteq> [] then p @ ''/'' else []) @ u @ object_suffix original in
         case validate_object_name name of
           Inl e \<Rightarrow> failE e
         | Inr _ \<Rightarrow> bindE (ask_err (a_err E) (Os (OFile ''open'' path))) (\<lambda>_. put_object E name sz)))"

definition upload_object :: "env \<Rightarrow> gostr \<Rightarrow> int \<Rightarrow> gostr opE" where
  "upload_object E name sz =
     (case validate_object_name name of Inl e \<Rightarrow> failE e | Inr _ \<Rightarrow> put_object E name sz)"

definition copy_object :: "env \<Rightarrow> gostr \<Rightarrow> gostr opE" where
  "copy_object E name =
     (case validate_object_name name of Inl e \<Rightarrow> failE e
      | Inr _ \<Rightarrow> catchE (ask (a_str E) (Store (SGetObject name))) (\<lambda>e. failE (Internal m_minio_read (Some e))) okE)"

definition object_size :: "env \<Rightarrow> gostr \<Rightarrow> int opE" where
  "object_size E url =
     (case object_name E url of Inl e \<Rightarrow> failE e
      | Inr name \<Rightarrow> catchE (ask (a_int E) (Store (SStatObject name))) (\<lambda>e. failE (Internal m_minio_stat (Some e))) okE)"

text \<open>The ranges SetRange of the client accepts: a suffix, an open end, or an interval.\<close>

definition range_ok :: "int \<Rightarrow> int \<Rightarrow> bool" where
  "range_ok a b = ((a = 0 \<and> b < 0) \<or> (0 < a \<and> b = 0) \<or> (0 \<le> a \<and> a \<le> b))"

definition read_range :: "env \<Rightarrow> gostr \<Rightarrow> int \<Rightarrow> int \<Rightarrow> gostr opE" where
  "read_range E url off len =
     (case object_name E url of Inl e \<Rightarrow> failE e
      | Inr name \<Rightarrow>
         if \<not> range_ok off (off + len - 1) then failE (InvalidArgument ''invalid byte range'')
         else catchE (ask (a_str E) (Store (SGetRange name off (off + len - 1))))
                (\<lambda>e. failE (Internal m_minio_read (Some e)))
                (\<lambda>buf. okE (take (nat len) buf)))"

definition remove_object :: "env \<Rightarrow> gostr \<Rightarrow> unit opE" where
  "remove_object E name =
     (case validate_object_name name of Inl e \<Rightarrow> failE e
      | Inr _ \<Rightarrow> catchE (ask_err (a_err E) (Store (SRemoveObject name))) (\<lambda>e. failE (Internal m_minio_remove (Some e))) okE)"

definition remove_file :: "env \<Rightarrow> gostr \<Rightarrow> unit opE" where
  "remove_file E url =
     (if is_blank url \<or> \<not> is_managed_file E url then okE ()
      else case object_name E url of Inl e \<Rightarrow> failE e | Inr name \<Rightarrow> remove_object E name)"

definition presigned :: "env \<Rightarrow> bool \<Rightarrow> gostr \<Rightarrow> gostr opE" where
  "presigned E public source =
     (if \<not> has_prefix source (object_root E) then okE source
      else case object_name E source of Inl e \<Rightarrow> failE e
           | Inr name \<Rightarrow> catchE (ask (a_str E) (Store (SPresign public name)))
                            (\<lambda>e. failE (Internal m_minio_presign (Some e))) okE)"

definition readable_source :: "env \<Rightarrow> gostr \<Rightarrow> gostr opE" where
  "readable_source E source = presigned E False source"

definition playback_url :: "env \<Rightarrow> gostr \<Rightarrow> gostr opE" where
  "playback_url E source = presigned E True source"

section \<open>Facts\<close>

lemma extends_storage [ext_intros]:
  "extends (put_object E name sz)" "extends (upload_stream E sz original)"
  "extends (upload_object E name sz)" "extends (copy_object E name)" "extends (object_size E url)"
  "extends (read_range E url off len)" "extends (remove_object E name)" "extends (remove_file E url)"
  "extends (presigned E public source)" "extends (readable_source E source)" "extends (playback_url E source)"
  unfolding put_object_def upload_stream_def upload_object_def copy_object_def object_size_def read_range_def
    remove_object_def remove_file_def presigned_def readable_source_def playback_url_def
  by (intro ext_intros)+

lemma extends_upload_local_file [ext_intros]: "extends (upload_local_file E path original pre)"
  unfolding upload_local_file_def put_object_def Let_def by (intro ext_intros)

text \<open>Every object operation addresses a name that passed validation: no traversal, no absolute name.\<close>

fun store_name :: "call \<Rightarrow> gostr option" where
  "store_name (Store (SPutObject n k)) = Some n"
| "store_name (Store (SGetObject n)) = Some n"
| "store_name (Store (SStatObject n)) = Some n"
| "store_name (Store (SGetRange n a b)) = Some n"
| "store_name (Store (SRemoveObject n)) = Some n"
| "store_name (Store (SPresign b n)) = Some n"
| "store_name c = None"

definition safe_name :: "call \<Rightarrow> bool" where
  "safe_name c = (case store_name c of None \<Rightarrow> True | Some n \<Rightarrow> validate_object_name n = Inr ())"

lemma object_name_valid: "object_name E url = Inr name \<Longrightarrow> validate_object_name name = Inr ()"
  by (auto simp: object_name_def split: sum.splits option.splits)

lemma uses_storage [use_intros]:
  "uses safe_name (upload_object E name sz)" "uses safe_name (copy_object E name)" "uses safe_name (object_size E url)"
  "uses safe_name (read_range E url off len)" "uses safe_name (remove_object E name)" "uses safe_name (remove_file E url)"
  "uses safe_name (readable_source E source)" "uses safe_name (playback_url E source)"
  unfolding put_object_def upload_object_def copy_object_def object_size_def read_range_def
    remove_object_def remove_file_def presigned_def readable_source_def playback_url_def
  by (auto simp: safe_name_def split: sum.splits intro!: use_intros dest: object_name_valid)

end
