(* ===== verification/VideoContext.thy ===== *)
theory VideoContext
  imports VideoFrames Storage "HOL-Library.AList" "HOL-Library.List_Lexorder"
begin

text \<open>
  Building a video context: internal/videocontext/asr.go, ocr.go, transcribe.go, service.go and
  telemetry.go.  The goroutines of one build share no state but the telemetry counters and the list of
  uploaded frames, so the model runs them one after the other; a cancelled or timed-out context shows
  as the answer to \<open>OCtxErr\<close>, a full pool as the answer to \<open>OSubmit\<close>.  Child processes, files, images and
  the HTTP exchange with the speech service are answers of the environment; building an in-memory
  request cannot fail.
\<close>

abbreviation (input) "segment_ms \<equiv> (60000 :: int)"

text \<open>inc: a nil Counters counts nothing.\<close>

definition inc :: "bool \<Rightarrow> gostr \<Rightarrow> unit op" where
  "inc counted name = (if counted then count_up name else ret ())"

definition path_base :: "gostr \<Rightarrow> gostr" where
  "path_base p = after_last (CHR ''/'') p"

definition is_regular :: "env \<Rightarrow> gostr \<Rightarrow> bool op" where
  "is_regular E path = bnd (ask (a_bool E) (Os (OFile ''isRegular'' path))) (\<lambda>r. ret (r = Inr True))"

section \<open>Speech recognition (asr.go)\<close>

definition asr_max_attempts :: nat where "asr_max_attempts = 3"

datatype asr_failure = Retryable goerr | Fatal goerr

definition asr_response :: "int \<Rightarrow> gostr option res \<Rightarrow> asr_failure + gostr" where
  "asr_response code body =
     (if 200 \<le> code \<and> code < 300 then
        (case body of Inl e \<Rightarrow> Inl (Fatal (Internal ''ASR response parse failed'' (Some e)))
         | Inr None \<Rightarrow> Inr [] | Inr (Some t) \<Rightarrow> Inr t)
      else if code = 429 \<or> 500 \<le> code then Inl (Retryable (Plain (''ASR transient HTTP '' @ itoa code) None))
      else Inl (Fatal (InvalidArgument (''ASR request rejected with HTTP '' @ itoa code))))"

definition asr_execute :: "env \<Rightarrow> gostr \<Rightarrow> (asr_failure + gostr) op" where
  "asr_execute E path =
     catchE (ask_err (a_err E) (Os (OFile ''open'' path)))
       (\<lambda>e. ret (Inl (Fatal (Internal ''ASR audio file does not exist'' (Some e)))))
       (\<lambda>_. catchE (ask_err (a_err E) (Os (OFile ''read'' path)))
         (\<lambda>e. ret (Inl (Retryable (Plain ''ASR audio read failed'' (Some e)))))
         (\<lambda>_. bnd (ask (a_http E) (Os (OHttp path))) (\<lambda>resp.
            case resp of
              HttpTransport e \<Rightarrow> catchE (ctx_err E)
                (\<lambda>ce. ret (Inl (Fatal (Internal ''ASR request cancelled'' (Some ce)))))
                (\<lambda>_. ret (Inl (Retryable (Plain ''ASR transport failure'' (Some e)))))
            | HttpRead e \<Rightarrow> ret (Inl (Retryable (Plain ''ASR response read failed'' (Some e))))
            | HttpResp code body \<Rightarrow> ret (asr_response code body))))"

fun asr_loop :: "env \<Rightarrow> gostr \<Rightarrow> nat \<Rightarrow> goerr option \<Rightarrow> nat \<Rightarrow> gostr opE" where
  "asr_loop E path attempt last_err 0 = failE (Internal m_asr_exhausted last_err)"
| "asr_loop E path attempt last_err (Suc n) =
     bnd (asr_execute E path) (\<lambda>r.
     case r of
       Inr text \<Rightarrow> if is_blank text then failE (Internal m_asr_empty None) else okE (trim_space text)
     | Inl f \<Rightarrow> (case f of
         Fatal e \<Rightarrow> failE e
       | Retryable e \<Rightarrow>
           if attempt < asr_max_attempts - 1 then
             catchE (ask_err (a_err E) (Os (OSleep (seconds 1 * 2 ^ attempt))))
               (\<lambda>se. failE (Internal ''ASR retry interrupted'' (Some se)))
               (\<lambda>_. asr_loop E path (Suc attempt) (Some e) n)
           else asr_loop E path (Suc attempt) (Some e) n))"

definition audio_to_text :: "env \<Rightarrow> gostr \<Rightarrow> gostr opE" where
  "audio_to_text E path =
     bnd (is_regular E path) (\<lambda>reg.
     if \<not> reg then failE (Internal ''ASR audio file does not exist'' None)
     else asr_loop E path 0 None asr_max_attempts)"

section \<open>Text recognition (ocr.go)\<close>

definition ocr_args :: "gostr \<Rightarrow> gostr list" where
  "ocr_args img = [img, ''stdout'', ''-l'', ''chi_sim+eng'']"

definition recognize :: "env \<Rightarrow> gostr \<Rightarrow> gostr opE" where
  "recognize E img =
     bnd (is_regular E img) (\<lambda>reg.
     if \<not> reg then failE (InvalidArgument ''OCR image does not exist'')
     else bnd (ask (a_text E) (Os (OFile ''abs'' img))) (\<lambda>abs_path.
       bnd (ask (a_proc E) (Os (OProc ''tesseract'' (ocr_args abs_path)))) (\<lambda>p.
       let failed = (\<lambda>cause. failE (Internal (''OCR failed for '' @ path_base img) (Some cause))) in
       case p of
         ProcTimeout \<Rightarrow> failed (Internal ''OCR execution timed out'' None)
       | ProcExit code logs \<Rightarrow> failed (Internal (''OCR process failed with exit code '' @ itoa code @ '': '' @ trim_space logs) None)
       | ProcErr e \<Rightarrow> failed e
       | ProcOk out \<Rightarrow> okE (trim_space out))))"

section \<open>Transcription (transcribe.go)\<close>

definition ffmpeg_segment_args :: "gostr \<Rightarrow> gostr \<Rightarrow> gostr list" where
  "ffmpeg_segment_args video pattern =
     [''-y'', ''-i'', video, ''-vn'', ''-ac'', ''1'', ''-ar'', ''16000'', ''-acodec'', ''libmp3lame'', ''-b:a'', ''48k'',
      ''-f'', ''segment'', ''-segment_time'', ''60'', ''-reset_timestamps'', ''1'', pattern]"

definition exit_error :: "int \<Rightarrow> goerr" where
  "exit_error code = Plain (''exit status '' @ itoa code) None"

definition run_ffmpeg :: "env \<Rightarrow> gostr list \<Rightarrow> gostr \<Rightarrow> unit opE" where
  "run_ffmpeg E args timeout_msg =
     bnd (ask (a_proc E) (Os (OProc ''ffmpeg'' args))) (\<lambda>p.
     let failed = (\<lambda>err. bindE (ctx_err E) (\<lambda>_. failE (Internal m_ffmpeg_failed (Some err)))) in
     case p of
       ProcTimeout \<Rightarrow> failE (Internal timeout_msg None)
     | ProcExit code logs \<Rightarrow> failed (exit_error code)
     | ProcErr e \<Rightarrow> failed e
     | ProcOk out \<Rightarrow> okE ())"

definition regular_files :: "env \<Rightarrow> gostr \<Rightarrow> gostr list opE" where
  "regular_files E dir =
     bindE (ask (a_strs E) (Os (OReadDir dir))) (\<lambda>names. okE (sort (map (\<lambda>n. dir @ ''/'' @ n) names)))"

text \<open>One goroutine per audio file; the semaphore only delays it.\<close>

fun transcribe_files :: "env \<Rightarrow> bool \<Rightarrow> gostr list \<Rightarrow> gostr res list op" where
  "transcribe_files E counted [] = ret []"
| "transcribe_files E counted (f # fs) =
     bnd (catchE (ctx_err E) failE (\<lambda>_. thenI (inc counted ''asrCalls'') (audio_to_text E f))) (\<lambda>r.
     bnd (transcribe_files E counted fs) (\<lambda>rs. ret (r # rs)))"

fun collect_segments :: "nat \<Rightarrow> gostr res list \<Rightarrow> (transcript_segment list \<times> goerr list) res" where
  "collect_segments i [] = Inr ([], [])"
| "collect_segments i (Inl e # outs) =
     (case collect_segments (Suc i) outs of Inl x \<Rightarrow> Inl x | Inr (segs, errs) \<Rightarrow> Inr (segs, e # errs))"
| "collect_segments i (Inr t # outs) =
     (if is_blank t then collect_segments (Suc i) outs
      else case new_transcript_segment (int i * segment_ms) (int (Suc i) * segment_ms) t of
        Inl e \<Rightarrow> Inl e
      | Inr seg \<Rightarrow> (case collect_segments (Suc i) outs of Inl x \<Rightarrow> Inl x
                    | Inr (segs, errs) \<Rightarrow> Inr (seg # segs, errs)))"

definition transcribe :: "env \<Rightarrow> gostr \<Rightarrow> gostr \<Rightarrow> bool \<Rightarrow> transcript_segment list opE" where
  "transcribe E video dir counted =
     bindE (ask_err (a_err E) (Os (OFile ''mkdirAll'' dir))) (\<lambda>_.
     bindE (run_ffmpeg E (ffmpeg_segment_args video (dir @ ''/audio_%03d.mp3'')) m_ffmpeg_timeout) (\<lambda>_.
     bindE (regular_files E dir) (\<lambda>files.
     bnd (transcribe_files E counted files) (\<lambda>outs.
     bindE (ctx_err E) (\<lambda>_.
     case collect_segments 0 outs of
       Inl e \<Rightarrow> failE e
     | Inr (segs, errs) \<Rightarrow>
         thenI (forI errs (\<lambda>_. inc counted ''asrSegmentFailures''))
           (if segs = [] \<and> errs \<noteq> [] then failE (Internal m_asr_all_failed (Some (last errs))) else okE segs))))))"

definition transcribe_to_text :: "env \<Rightarrow> gostr \<Rightarrow> gostr opE" where
  "transcribe_to_text E video =
     bnd (new_uuid E) (\<lambda>u. let dir = ''/tmp/transcription-'' @ u in
     bnd (transcribe E video dir False) (\<lambda>r.
     thenI (ask_err (a_err E) (Os (OFile ''removeAll'' dir)))
       (case r of
          Inl e \<Rightarrow> failE (Internal m_transcribe_failed (Some e))
        | Inr segs \<Rightarrow> okE (join ''\<newline>'' (filter (\<lambda>t. \<not> is_blank t) (map tr_text segs))))))"

definition transcribe_video :: "env \<Rightarrow> gostr \<Rightarrow> gostr opE" where
  "transcribe_video E video =
     (if is_blank video then failE (InvalidArgument m_path_empty)
      else if has_prefix video ''http'' then transcribe_to_text E video
      else bnd (is_regular E video) (\<lambda>reg.
        if \<not> reg then failE (InvalidArgument m_video_missing) else transcribe_to_text E video))"

section \<open>Merging the branches (service.go)\<close>

record frame_part =
  fp_ts :: int
  fp_text :: gostr
  fp_name :: gostr

record segment_builder =
  sb_transcripts :: "gostr list"
  sb_ocr :: "gostr list"
  sb_frames :: "gostr list"

definition new_builder :: segment_builder where
  "new_builder = \<lparr>sb_transcripts = [], sb_ocr = [], sb_frames = []\<rparr>"

text \<open>Go's integer division truncates.\<close>

definition window_start :: "int \<Rightarrow> int" where
  "window_start ts = sgn ts * (\<bar>ts\<bar> div segment_ms) * segment_ms"

definition builder_at :: "(int \<times> segment_builder) list \<Rightarrow> int \<Rightarrow> segment_builder" where
  "builder_at ws k = (case map_of ws k of None \<Rightarrow> new_builder | Some b \<Rightarrow> b)"

definition add_transcript :: "(int \<times> segment_builder) list \<Rightarrow> transcript_segment \<Rightarrow> (int \<times> segment_builder) list" where
  "add_transcript ws t = (let k = window_start (tr_start t); b = builder_at ws k in
     AList.update k (b\<lparr>sb_transcripts := sb_transcripts b @ [tr_text t]\<rparr>) ws)"

definition add_frame :: "(int \<times> segment_builder) list \<Rightarrow> frame_part \<Rightarrow> (int \<times> segment_builder) list" where
  "add_frame ws f = (let k = window_start (fp_ts f); b = builder_at ws k in
     AList.update k (b\<lparr>sb_ocr := sb_ocr b @ (if is_blank (fp_text f) then [] else [fp_text f]),
                      sb_frames := sb_frames b @ [fp_name f]\<rparr>) ws)"

definition merge_parts :: "transcript_segment list \<Rightarrow> frame_part list \<Rightarrow> video_segment list res" where
  "merge_parts ts fs =
     (let windows = foldl add_frame (foldl add_transcript [] ts) fs in
      map_res (\<lambda>(k, b). new_video_segment k (k + segment_ms) (join ''\<newline>'' (sb_transcripts b)) (sb_ocr b) (sb_frames b))
        (sort_key fst windows))"

section \<open>Evidence frames\<close>

abbreviation "evidence_object_prefix \<equiv> ''evidence-frames''"

definition delete_frames :: "env \<Rightarrow> gostr list \<Rightarrow> unit op" where
  "delete_frames E frames =
     forI (rev (remdups (rev (filter (\<lambda>f. is_managed_with_prefix E f evidence_object_prefix) frames)))) (remove_file E)"

definition delete_evidence_frames :: "env \<Rightarrow> video_context option \<Rightarrow> unit op" where
  "delete_evidence_frames E vc = (case vc of None \<Rightarrow> ret ()
     | Some c \<Rightarrow> delete_frames E (rev (remdups (rev (concat (map vs_frames (vc_segments c)))))))"

definition hash_skip_distance :: nat where "hash_skip_distance = 5"

text \<open>The frame loop: \<open>prev\<close> is the hash of the last frame that was not a near-duplicate; the second
  component of the result is the list of uploaded frames, also when the loop ends with an error.\<close>

fun frame_loop :: "env \<Rightarrow> gostr \<Rightarrow> bool \<Rightarrow> int list \<Rightarrow> gostr list \<Rightarrow> nat \<Rightarrow> 64 word option \<Rightarrow> nat \<Rightarrow>
    frame_part list \<Rightarrow> gostr list \<Rightarrow> ((frame_part list \<times> nat) res \<times> gostr list) op" where
  "frame_loop E video counted ts [] i prev failed acc up = ret (Inr (acc, failed), up)"
| "frame_loop E video counted ts (f # fs) i prev failed acc up =
     catchE (ctx_err E) (\<lambda>e. ret (Inl e, up)) (\<lambda>_.
     bnd (difference_hash E f) (\<lambda>hash.
     if (case prev of None \<Rightarrow> False | Some p \<Rightarrow> hamming_distance p hash \<le> hash_skip_distance)
     then frame_loop E video counted ts fs (Suc i) prev failed acc up
     else
      (let t = (if i < length ts then ts ! i else int i * 30000);
           part = (\<lambda>text name. \<lparr>fp_ts = t, fp_text = text, fp_name = name\<rparr>) in
       thenI (inc counted ''ocrCalls'')
         (catchE (recognize E f)
           (\<lambda>e. thenI (inc counted ''ocrFrameFailures'')
              (frame_loop E video counted ts fs (Suc i) (Some hash) (Suc failed) acc up))
           (\<lambda>text. catchE (upload_local_file E f (path_base f) evidence_object_prefix)
              (\<lambda>e. thenI (inc counted ''frameUploadFailures'')
                 (frame_loop E video counted ts fs (Suc i) (Some hash) failed
                    (acc @ [part text (video @ ''#timestampMs='' @ itoa t)]) up))
              (\<lambda>url. frame_loop E video counted ts fs (Suc i) (Some hash) failed
                    (acc @ [part text url]) (up @ [url])))))))"

text \<open>probeDuration asks ffprobe; an unreadable duration is 0.\<close>

definition probe_duration :: "env \<Rightarrow> gostr \<Rightarrow> rat op" where
  "probe_duration E video =
     bnd (ask (a_rat E) (Os (OProc ''ffprobe'' [''-v'', ''error'', ''-show_entries'', ''format=duration'', ''-of'', ''csv=p=0'', video]))) (\<lambda>r.
     ret (case r of Inr (Some d) \<Rightarrow> d | _ \<Rightarrow> 0))"

text \<open>runFrameCommand: the showinfo timestamps of the log are the answer to \<open>OTimestamps\<close>.\<close>

definition run_frame_command :: "env \<Rightarrow> gostr list \<Rightarrow> int list opE" where
  "run_frame_command E args =
     bindE (run_ffmpeg E args m_ffmpeg_timeout) (\<lambda>_. ask (a_ints E) (Os OTimestamps))"

definition extract_key_frames :: "env \<Rightarrow> gostr \<Rightarrow> gostr \<Rightarrow> bool \<Rightarrow> (frame_part list res \<times> gostr list) op" where
  "extract_key_frames E video dir counted =
     catchE (ask_err (a_err E) (Os (OFile ''mkdirAll'' dir))) (\<lambda>e. ret (Inl e, [])) (\<lambda>_.
     bnd (probe_duration E video) (\<lambda>d.
     catchE (run_frame_command E (ffmpeg_frame_args video dir (frame_gap_seconds d))) (\<lambda>e. ret (Inl e, [])) (\<lambda>ts.
     catchE (regular_files E dir) (\<lambda>e. ret (Inl e, [])) (\<lambda>files.
     bnd (frame_loop E video counted ts files 0 None 0 [] []) (\<lambda>(r, up).
     ret (case r of
            Inl e \<Rightarrow> Inl e
          | Inr (parts, failed) \<Rightarrow> if parts = [] \<and> 0 < failed then Inl (Internal m_ocr_all_failed None) else Inr parts,
          up))))))"

section \<open>Building\<close>

definition finish :: "env \<Rightarrow> gostr \<Rightarrow> gostr \<Rightarrow> transcript_segment list res \<Rightarrow> frame_part list res \<Rightarrow> gostr list \<Rightarrow>
    (video_context res \<times> gostr list) op" where
  "finish E video goal t f up =
     (case (t, f) of
        (Inl te, Inl fe) \<Rightarrow> ret (Inl (Internal m_both_failed (Some te)), up)
      | _ \<Rightarrow>
        thenI (case t of Inl e \<Rightarrow> count_up ''asrBranchFailures'' | Inr _ \<Rightarrow> ret ())
        (bnd (case f of Inl e \<Rightarrow> thenI (count_up ''ocrBranchFailures'') (thenI (delete_frames E up) (ret []))
              | Inr _ \<Rightarrow> ret up) (\<lambda>up'.
         ret (case merge_parts (case t of Inl _ \<Rightarrow> [] | Inr ts \<Rightarrow> ts) (case f of Inl _ \<Rightarrow> [] | Inr fs \<Rightarrow> fs) of
                Inl e \<Rightarrow> Inl e
              | Inr [] \<Rightarrow> Inl (Internal m_nothing_found None)
              | Inr segs \<Rightarrow> new_video_context video goal segs, up'))))"

definition build_fail :: "env \<Rightarrow> gostr list \<Rightarrow> goerr \<Rightarrow> 'a opE" where
  "build_fail E up e = thenI (delete_frames E up) (failE (Internal m_vc_failed (Some e)))"

definition remove_all :: "env \<Rightarrow> gostr \<Rightarrow> unit op" where
  "remove_all E dir = thenI (ask_err (a_err E) (Os (OFile ''removeAll'' dir))) (ret ())"

text \<open>submitBranch: a rejected submission is the branch's error.\<close>

definition asr_branch :: "env \<Rightarrow> gostr \<Rightarrow> gostr \<Rightarrow> transcript_segment list opE" where
  "asr_branch E video dir =
     bindE (ask_err (a_err E) (Os (OSubmit ''asr''))) (\<lambda>_. transcribe E video (dir @ ''/audio'') True)"

definition ocr_branch :: "env \<Rightarrow> gostr \<Rightarrow> gostr \<Rightarrow> (frame_part list res \<times> gostr list) op" where
  "ocr_branch E video dir =
     catchE (ask_err (a_err E) (Os (OSubmit ''ocr''))) (\<lambda>e. ret (Inl e, []))
       (\<lambda>_. extract_key_frames E video (dir @ ''/frames'') True)"

text \<open>The two selects on the shared budget; a branch that outlives its cancellation by ten seconds keeps
  the work directory.\<close>

definition build_timeout :: "env \<Rightarrow> gostr \<Rightarrow> gostr list \<Rightarrow> goerr \<Rightarrow> 'a opE" where
  "build_timeout E dir up e =
     bnd (ask (a_bool E) (Os (OFile ''branchesDone'' dir))) (\<lambda>finished.
     bnd (build_fail E up (Internal m_vc_timeout (Some e))) (\<lambda>r.
     thenI (if finished = Inr True then remove_all E dir else ret ()) (ret r)))"

definition build :: "env \<Rightarrow> gostr \<Rightarrow> gostr \<Rightarrow> video_context opE" where
  "build E video goal =
     catchE (readable_source E video) (\<lambda>e. failE (Internal m_vc_failed (Some e))) (\<lambda>readable.
     bnd (new_uuid E) (\<lambda>u. let dir = ''/tmp/video-context-'' @ u in
     catchE (ask_err (a_err E) (Os (OFile ''mkdirAll'' dir)))
       (\<lambda>e. bnd (build_fail E [] e) (\<lambda>r. thenI (remove_all E dir) (ret r)))
       (\<lambda>_.
        bnd (asr_branch E readable dir) (\<lambda>t.
        bnd (ocr_branch E readable dir) (\<lambda>(f, up).
        catchE (ctx_err E) (build_timeout E dir up) (\<lambda>_.
        catchE (ctx_err E) (build_timeout E dir up) (\<lambda>_.
        bnd (finish E video goal t f up) (\<lambda>(r, up').
        bnd (case r of Inl e \<Rightarrow> build_fail E up' e | Inr vc \<Rightarrow> okE vc) (\<lambda>out.
        thenI (remove_all E dir) (ret out))))))))))"

section \<open>Telemetry (telemetry.go)\<close>

text \<open>Snapshot: the counters and stages recorded since the seed was created.\<close>

fun seed_counters :: "hist \<Rightarrow> (gostr \<times> int) list \<Rightarrow> (gostr \<times> int) list" where
  "seed_counters [] m = m"
| "seed_counters (c # h) m = seed_counters h (case c of
      Os (OCount n) \<Rightarrow> AList.update n ((case map_of m n of None \<Rightarrow> 0 | Some v \<Rightarrow> v) + 1) m
    | _ \<Rightarrow> m)"

fun seed_stages :: "hist \<Rightarrow> (gostr \<times> stage_seed) list \<Rightarrow> (gostr \<times> stage_seed) list" where
  "seed_stages [] m = m"
| "seed_stages (c # h) m = seed_stages h (case c of
      Os (OStage n d ok) \<Rightarrow> AList.update n \<lparr>sd_duration = d, sd_success = ok\<rparr> m
    | _ \<Rightarrow> m)"

definition seed_snapshot :: "gostr \<Rightarrow> hist \<Rightarrow> hist \<Rightarrow> telemetry_seed" where
  "seed_snapshot trace h0 h = (let cs = drop (length h0) h in
     \<lparr>tl_trace = trace, tl_stages = seed_stages cs [], tl_counters = seed_counters cs []\<rparr>)"

section \<open>Facts\<close>

lemma extends_asr [ext_intros]:
  "extends (inc counted name)" "extends (is_regular E path)" "extends (asr_execute E path)"
  unfolding inc_def is_regular_def asr_execute_def
  by (auto split: http_result.splits intro!: ext_intros)

lemma extends_asr_loop [ext_intros]: "extends (asr_loop E path attempt last_err n)"
  by (induction n arbitrary: attempt last_err) (auto split: asr_failure.splits intro!: ext_intros)

lemma extends_audio_to_text [ext_intros]: "extends (audio_to_text E path)"
  unfolding audio_to_text_def by (intro ext_intros)

lemma extends_recognize [ext_intros]: "extends (recognize E img)"
  unfolding recognize_def Let_def by (auto split: proc_result.splits intro!: ext_intros)

lemma extends_run_ffmpeg [ext_intros]: "extends (run_ffmpeg E args msg)"
  unfolding run_ffmpeg_def Let_def by (auto split: proc_result.splits intro!: ext_intros)

lemma extends_regular_files [ext_intros]: "extends (regular_files E dir)"
  unfolding regular_files_def by (intro ext_intros)

lemma extends_transcribe_files [ext_intros]: "extends (transcribe_files E counted fs)"
  by (induction fs) (auto intro!: ext_intros)

lemma extends_transcribe [ext_intros]: "extends (transcribe E video dir counted)"
  unfolding transcribe_def by (intro ext_intros)

lemma extends_transcribe_to_text [ext_intros]: "extends (transcribe_to_text E video)"
  unfolding transcribe_to_text_def Let_def by (intro ext_intros)

lemma extends_transcribe_video [ext_intros]: "extends (transcribe_video E video)"
  unfolding transcribe_video_def by (intro ext_intros)

lemma extends_delete_frames [ext_intros]: "extends (delete_frames E frames)" "extends (delete_evidence_frames E vc)"
  unfolding delete_evidence_frames_def delete_frames_def by (intro ext_intros)+

lemma extends_frame_loop [ext_intros]: "extends (frame_loop E video counted ts fs i prev failed acc up)"
  by (induction fs arbitrary: i prev failed acc up) (auto simp: Let_def intro!: ext_intros)

lemma extends_extract_key_frames [ext_intros]: "extends (extract_key_frames E video dir counted)"
  unfolding extract_key_frames_def probe_duration_def run_frame_command_def by (intro ext_intros)

lemma extends_finish [ext_intros]: "extends (finish E video goal t f up)"
  unfolding finish_def by (auto split: sum.splits prod.splits intro!: ext_intros)

lemma extends_build_parts [ext_intros]:
  "extends (build_fail E up e)" "extends (remove_all E dir)" "extends (build_timeout E dir up e)"
  "extends (asr_branch E video dir)" "extends (ocr_branch E video dir)"
  unfolding build_fail_def remove_all_def build_timeout_def asr_branch_def ocr_branch_def
  by (intro ext_intros)+

lemma extends_build [ext_intros]: "extends (build E video goal)"
  unfolding build_def Let_def by (intro ext_intros)

text \<open>Building a context touches the operating system, the speech service and the object store only.\<close>

definition local_call :: "call \<Rightarrow> bool" where
  "local_call c = (case c of Os x \<Rightarrow> True | Store x \<Rightarrow> True | _ \<Rightarrow> False)"

lemma local_call_simps [simp]: "local_call (Os x)" "local_call (Store y)"
  by (simp_all add: local_call_def)

lemma local_basic [use_intros]:
  "uses local_call (inc counted name)" "uses local_call (is_regular E path)" "uses local_call (ctx_err E)"
  "uses local_call (count_up name)" "uses local_call (new_uuid E)" "uses local_call (difference_hash E path)"
  unfolding inc_def is_regular_def ctx_err_def count_up_def new_uuid_def difference_hash_def by (intro use_intros; simp)+

lemma local_storage [use_intros]:
  "uses local_call (put_object E name sz)" "uses local_call (upload_local_file E path original pre)"
  "uses local_call (remove_file E url)" "uses local_call (readable_source E source)"
  unfolding put_object_def upload_local_file_def remove_file_def remove_object_def readable_source_def presigned_def new_uuid_def Let_def
  by (intro use_intros; simp)+

lemma local_asr_loop [use_intros]: "uses local_call (asr_loop E path attempt last_err n)"
  unfolding asr_execute_def
  by (induction n arbitrary: attempt last_err)
     (auto simp: asr_execute_def split: asr_failure.splits http_result.splits intro!: use_intros)

lemma local_parts [use_intros]:
  "uses local_call (audio_to_text E path)" "uses local_call (recognize E img)" "uses local_call (run_ffmpeg E args msg)"
  "uses local_call (regular_files E dir)" "uses local_call (delete_frames E frames)" "uses local_call (delete_evidence_frames E vc)"
  unfolding audio_to_text_def recognize_def run_ffmpeg_def regular_files_def delete_evidence_frames_def delete_frames_def Let_def
  by (auto split: proc_result.splits intro!: use_intros)

lemma local_transcribe_files [use_intros]: "uses local_call (transcribe_files E counted fs)"
  by (induction fs) (auto intro!: use_intros)

lemma local_frame_loop [use_intros]: "uses local_call (frame_loop E video counted ts fs i prev failed acc up)"
  by (induction fs arbitrary: i prev failed acc up) (auto simp: Let_def intro!: use_intros)

lemma local_transcribe [use_intros]: "uses local_call (transcribe E video dir counted)"
  unfolding transcribe_def by (intro use_intros; simp)

lemma local_transcribe_video [use_intros]: "uses local_call (transcribe_video E video)"
  unfolding transcribe_video_def transcribe_to_text_def Let_def by (intro use_intros; simp)

lemma local_extract [use_intros]: "uses local_call (extract_key_frames E video dir counted)"
  unfolding extract_key_frames_def probe_duration_def run_frame_command_def by (intro use_intros; simp)

lemma local_finish [use_intros]: "uses local_call (finish E video goal t f up)"
  unfolding finish_def by (auto split: sum.splits prod.splits intro!: use_intros)

lemma local_build_parts [use_intros]:
  "uses local_call (build_fail E up e)" "uses local_call (remove_all E dir)" "uses local_call (build_timeout E dir up e)"
  "uses local_call (asr_branch E video dir)" "uses local_call (ocr_branch E video dir)"
  unfolding build_fail_def remove_all_def build_timeout_def asr_branch_def ocr_branch_def
  by (intro use_intros; simp)+

lemma local_build [use_intros]: "uses local_call (build E video goal)"
  unfolding build_def Let_def by (intro use_intros; simp)

text \<open>The windows as a finite map: lookup after an update, and the keys.\<close>

lemma builder_at_update: "builder_at (AList.update k b ws) j = (if j = k then b else builder_at ws j)"
  by (simp add: builder_at_def update_conv')

lemma windows_transcripts:
  "distinct (map fst (foldl add_transcript [] ts))
   \<and> fst ` set (foldl add_transcript [] ts) = (window_start \<circ> tr_start) ` set ts
   \<and> builder_at (foldl add_transcript [] ts) k =
       \<lparr>sb_transcripts = map tr_text (filter (\<lambda>t. window_start (tr_start t) = k) ts), sb_ocr = [], sb_frames = []\<rparr>"
proof (induction ts arbitrary: k rule: rev_induct)
  case Nil
  then show ?case by (simp add: builder_at_def new_builder_def)
next
  case (snoc t ts)
  then show ?case
    by (auto simp: add_transcript_def Let_def distinct_update dom_update builder_at_update)
qed

lemma windows_frames:
  assumes "distinct (map fst ws)"
  shows "distinct (map fst (foldl add_frame ws fs))
   \<and> fst ` set (foldl add_frame ws fs) = fst ` set ws \<union> (window_start \<circ> fp_ts) ` set fs
   \<and> builder_at (foldl add_frame ws fs) k = (builder_at ws k)
       \<lparr>sb_ocr := sb_ocr (builder_at ws k) @ map fp_text (filter (\<lambda>f. window_start (fp_ts f) = k \<and> \<not> is_blank (fp_text f)) fs),
        sb_frames := sb_frames (builder_at ws k) @ map fp_name (filter (\<lambda>f. window_start (fp_ts f) = k) fs)\<rparr>"
proof (induction fs arbitrary: k rule: rev_induct)
  case Nil
  with assms show ?case by simp
next
  case (snoc f fs)
  then show ?case
    by (auto simp: add_frame_def Let_def distinct_update dom_update builder_at_update)
qed

lemma window_start_nonneg: "0 \<le> ts \<Longrightarrow> 0 \<le> window_start ts \<and> window_start ts \<le> ts \<and> ts < window_start ts + 60000
    \<and> 60000 dvd window_start ts"
  by (cases "ts = 0") (auto simp: window_start_def, linarith?)

section \<open>Properties\<close>

definition segment_at :: "transcript_segment list \<Rightarrow> frame_part list \<Rightarrow> int \<Rightarrow> video_segment" where
  "segment_at ts fs k = \<lparr>vs_start = k, vs_end = k + 60000,
     vs_transcript = trim_space (join ''\<newline>'' (map tr_text (filter (\<lambda>t. window_start (tr_start t) = k) ts))),
     vs_ocr = map fp_text (filter (\<lambda>f. window_start (fp_ts f) = k \<and> \<not> is_blank (fp_text f)) fs),
     vs_frames = map fp_name (filter (\<lambda>f. window_start (fp_ts f) = k) fs)\<rparr>"

text \<open>Merging refines the reference: for parts with non-negative times the result is one segment per
  60-second window that has a part, in increasing order of time, holding exactly that window's
  transcripts, its non-blank on-screen texts and its frames, each in their original order; every part
  lies inside the segment that holds it.\<close>

theorem merge_parts_spec:
  assumes "\<forall>t \<in> set ts. 0 \<le> tr_start t" and "\<forall>f \<in> set fs. 0 \<le> fp_ts f"
  shows "merge_parts ts fs = Inr (map (segment_at ts fs)
      (sorted_list_of_set ((window_start \<circ> tr_start) ` set ts \<union> (window_start \<circ> fp_ts) ` set fs)))
    \<and> (\<forall>x \<in> tr_start ` set ts \<union> fp_ts ` set fs. window_start x \<le> x \<and> x < window_start x + 60000 \<and> 60000 dvd window_start x)"
proof
  let ?W = "(window_start \<circ> tr_start) ` set ts \<union> (window_start \<circ> fp_ts) ` set fs"
  let ?ws = "foldl add_frame (foldl add_transcript [] ts) fs"
  have d: "distinct (map fst ?ws)" and keys: "fst ` set ?ws = ?W"
    using windows_transcripts [of ts] windows_frames [of "foldl add_transcript [] ts" fs] by auto
  have b: "builder_at ?ws k = \<lparr>sb_transcripts = map tr_text (filter (\<lambda>t. window_start (tr_start t) = k) ts),
      sb_ocr = map fp_text (filter (\<lambda>f. window_start (fp_ts f) = k \<and> \<not> is_blank (fp_text f)) fs),
      sb_frames = map fp_name (filter (\<lambda>f. window_start (fp_ts f) = k) fs)\<rparr>" for k
    using windows_transcripts [of ts k] windows_frames [of "foldl add_transcript [] ts" fs k] by simp
  have lookup: "builder_at ?ws (fst kb) = snd kb" if "kb \<in> set ?ws" for kb
    using map_of_is_SomeI [OF d, of "fst kb" "snd kb"] that by (simp add: builder_at_def)
  have nn: "0 \<le> k" if "k \<in> ?W" for k
    using that assms window_start_nonneg by auto
  have nk: "0 \<le> fst kb" if "kb \<in> set ?ws" for kb
    using nn [of "fst kb"] that keys by (metis image_eqI)
  have seg: "(\<lambda>(k, b). new_video_segment k (k + segment_ms) (join ''\<newline>'' (sb_transcripts b)) (sb_ocr b) (sb_frames b)) kb
      = Inr (segment_at ts fs (fst kb))" if "kb \<in> set (sort_key fst ?ws)" for kb
    using that lookup [of kb] b [of "fst kb"] nk [of kb]
    by (auto simp: new_video_segment_def segment_at_def split: prod.splits)
  have "map fst (sort_key fst ?ws) = sorted_list_of_set ?W"
    using d keys by (intro sorted_distinct_set_unique) (auto simp: distinct_map)
  moreover have "merge_parts ts fs = Inr (map (\<lambda>kb. segment_at ts fs (fst kb)) (sort_key fst ?ws))"
    unfolding merge_parts_def Let_def by (rule map_res_all) (rule seg)
  moreover have "map (\<lambda>kb. segment_at ts fs (fst kb)) xs = map (segment_at ts fs) (map fst xs)" for xs :: "(int \<times> segment_builder) list"
    by (simp add: comp_def)
  ultimately show "merge_parts ts fs = Inr (map (segment_at ts fs) (sorted_list_of_set ?W))" by simp
  show "\<forall>x \<in> tr_start ` set ts \<union> fp_ts ` set fs. window_start x \<le> x \<and> x < window_start x + 60000 \<and> 60000 dvd window_start x"
    using assms window_start_nonneg by auto
qed

theorem merge_parts_spec_witness:
  "merge_parts [\<lparr>tr_start = 60000, tr_end = 120000, tr_text = ''hi''\<rparr>] [\<lparr>fp_ts = 5, fp_text = ''a'', fp_name = ''f''\<rparr>] =
     Inr (map (segment_at [\<lparr>tr_start = 60000, tr_end = 120000, tr_text = ''hi''\<rparr>] [\<lparr>fp_ts = 5, fp_text = ''a'', fp_name = ''f''\<rparr>])
       [0, 60000])"
proof -
  have "sorted_list_of_set {0, 60000 :: int} = [0, 60000]" by simp
  then show ?thesis
    using merge_parts_spec [of "[\<lparr>tr_start = 60000, tr_end = 120000, tr_text = ''hi''\<rparr>]" "[\<lparr>fp_ts = 5, fp_text = ''a'', fp_name = ''f''\<rparr>]"]
    by (simp add: window_start_def insert_commute)
qed

text \<open>The requests an attempt loop sends, and what an answer of the service means.\<close>

definition http_calls :: "hist \<Rightarrow> nat" where
  "http_calls xs = length (filter (\<lambda>c. case c of Os (OHttp p) \<Rightarrow> True | _ \<Rightarrow> False) xs)"

definition rejected :: "http_result \<Rightarrow> bool" where
  "rejected r = (case r of HttpResp code b \<Rightarrow> \<not> (200 \<le> code \<and> code < 300) \<and> code \<noteq> 429 \<and> code < 500 | _ \<Rightarrow> False)"

abbreviation (input) "was_rejected E \<equiv> (\<lambda>p c. rejected (a_http E p c))"

definition asr_ok :: "env \<Rightarrow> gostr \<Rightarrow> nat \<Rightarrow> hist \<Rightarrow> gostr res \<Rightarrow> hist \<Rightarrow> bool" where
  "asr_ok E path n h r h' = (\<exists>xs. h' = h @ xs \<and> http_calls xs \<le> n \<and>
     (\<forall>t. r = Inr t \<longrightarrow> \<not> is_blank t \<and> trim_space t = t) \<and>
     (made_in (was_rejected E) h (Os (OHttp path)) xs \<longrightarrow>
        (\<exists>m. r = Inl (InvalidArgument m)) \<and>
        (\<exists>ys. xs = ys @ [Os (OHttp path)] \<and> \<not> made_in (was_rejected E) h (Os (OHttp path)) ys)))"

lemma asr_ok_later:
  assumes "asr_ok E path n (h @ ws) r h'" and "http_calls ws + n \<le> m"
    and "\<not> made_in (was_rejected E) h (Os (OHttp path)) ws"
  shows "asr_ok E path m h r h'"
proof -
  from assms(1) obtain xs where xs: "h' = (h @ ws) @ xs" "http_calls xs \<le> n"
    and t: "\<forall>t. r = Inr t \<longrightarrow> \<not> is_blank t \<and> trim_space t = t"
    and rej: "made_in (was_rejected E) (h @ ws) (Os (OHttp path)) xs \<longrightarrow> (\<exists>m. r = Inl (InvalidArgument m)) \<and>
        (\<exists>ys. xs = ys @ [Os (OHttp path)] \<and> \<not> made_in (was_rejected E) (h @ ws) (Os (OHttp path)) ys)"
    unfolding asr_ok_def by blast
  have "http_calls (ws @ xs) \<le> m" using xs(2) assms(2) by (simp add: http_calls_def)
  moreover have "made_in (was_rejected E) h (Os (OHttp path)) (ws @ xs) \<longrightarrow> (\<exists>m. r = Inl (InvalidArgument m)) \<and>
        (\<exists>ys. ws @ xs = ys @ [Os (OHttp path)] \<and> \<not> made_in (was_rejected E) h (Os (OHttp path)) ys)"
    using rej assms(3) by (metis append.assoc made_in_append)
  ultimately show ?thesis
    unfolding asr_ok_def using xs(1) t by (metis append.assoc)
qed

lemma wp_asr_execute:
  assumes "\<And>f ws. http_calls ws \<le> 1 \<Longrightarrow> \<not> made_in (was_rejected E) h (Os (OHttp path)) ws \<Longrightarrow> Q (Inl f) (h @ ws)"
    and "\<And>t ws. http_calls ws \<le> 1 \<Longrightarrow> \<not> made_in (was_rejected E) h (Os (OHttp path)) ws \<Longrightarrow> Q (Inr t) (h @ ws)"
    and "\<And>m ws. http_calls ws = 0 \<Longrightarrow> \<not> made_in (was_rejected E) h (Os (OHttp path)) ws \<Longrightarrow>
           Q (Inl (Fatal (InvalidArgument m))) (h @ ws @ [Os (OHttp path)])"
  shows "wp (asr_execute E path) Q h"
proof -
  have r: "Q (Inl (Fatal (InvalidArgument m))) (h @ [Os (OFile ''open'' path), Os (OFile ''read'' path), Os (OHttp path)])" for m
    using assms(3) [of "[Os (OFile ''open'' path), Os (OFile ''read'' path)]" m] by (simp add: http_calls_def)
  show ?thesis
    by (auto simp: wp_simps asr_execute_def asr_response_def r http_calls_def rejected_def
        split: option.splits http_result.splits sum.splits intro!: assms(1,2))
qed

lemma wp_asr_loop: "wp (asr_loop E path attempt last_err n) (asr_ok E path n h) h"
proof (induction n arbitrary: attempt last_err h)
  case 0
  then show ?case by (auto simp: wp_simps asr_ok_def http_calls_def)
next
  case (Suc n)
  have IH: "wp (asr_loop E path a l n) (asr_ok E path (Suc n) h) (h @ ws)"
    if "http_calls ws \<le> 1" "\<not> made_in (was_rejected E) h (Os (OHttp path)) ws" for a l ws
    by (rule wp_mono [OF Suc.IH], rule asr_ok_later) (use that in auto)
  have IH2: "wp (asr_loop E path a l n) (asr_ok E path (Suc n) h) (h @ ws @ [Os (OSleep d)])"
    if "http_calls ws \<le> 1" "\<not> made_in (was_rejected E) h (Os (OHttp path)) ws" for a l ws d
    by (rule IH) (use that in \<open>auto simp: http_calls_def made_in_append\<close>)
  show ?case
    unfolding asr_loop.simps wp_bnd
  proof (rule wp_asr_execute, goal_cases)
    case (1 f ws)
    then show ?case
      by (auto simp: wp_simps IH IH2 split: asr_failure.splits option.splits)
         (auto simp: asr_ok_def http_calls_def made_in_append)
  next
    case (2 t ws)
    then show ?case by (auto simp: wp_simps asr_ok_def is_blank_def)
  next
    case (3 m ws)
    then show ?case by (auto simp: wp_simps asr_ok_def http_calls_def)
  qed
qed

section \<open>More properties\<close>

text \<open>Speech recognition of one file sends at most three requests, never retries after the service
  rejected the request (any status other than 2xx, 429 and 5xx): the first rejected request is the
  last call and the error is the permanent InvalidArgument; a successful answer is a trimmed,
  non-blank text.\<close>

theorem audio_to_text_retries:
  assumes "run_state (audio_to_text E path) h = (r, h')"
  shows "http_calls (drop (length h) h') \<le> 3
    \<and> (\<forall>t. r = Inr t \<longrightarrow> \<not> is_blank t \<and> trim_space t = t)
    \<and> (made (was_rejected E) h (Os (OHttp path)) h' \<longrightarrow>
         (\<exists>p. h' = p @ [Os (OHttp path)] \<and> \<not> made (was_rejected E) h (Os (OHttp path)) p)
         \<and> is_permanent_failure (case r of Inl e \<Rightarrow> Some e | Inr _ \<Rightarrow> None))"
proof -
  let ?c = "Os (OFile ''isRegular'' path)"
  have "wp (asr_loop E path 0 None 3) (asr_ok E path 3 h) (h @ [?c])"
    by (rule wp_mono [OF wp_asr_loop], erule asr_ok_later) (auto simp: http_calls_def)
  then have "wp (audio_to_text E path) (asr_ok E path 3 h) h"
    by (auto simp: audio_to_text_def is_regular_def wp_simps asr_max_attempts_def asr_ok_def [of _ _ _ _ "Inl _"] http_calls_def)
  from wp_run [OF assms this] obtain xs where xs: "h' = h @ xs" "http_calls xs \<le> 3"
    "\<forall>t. r = Inr t \<longrightarrow> \<not> is_blank t \<and> trim_space t = t"
    and rej: "made_in (was_rejected E) h (Os (OHttp path)) xs \<longrightarrow> (\<exists>m. r = Inl (InvalidArgument m)) \<and>
        (\<exists>ys. xs = ys @ [Os (OHttp path)] \<and> \<not> made_in (was_rejected E) h (Os (OHttp path)) ys)"
    unfolding asr_ok_def by blast
  have "is_permanent_failure (Some (InvalidArgument m))" for m
    by (simp add: is_permanent_failure_def max_cause_depth_def InvalidArgument_def permanent_kind_def numeral_eq_Suc)
  then have "(\<exists>m. r = Inl (InvalidArgument m)) \<Longrightarrow> is_permanent_failure (case r of Inl e \<Rightarrow> Some e | Inr _ \<Rightarrow> None)"
    by auto
  with xs rej show ?thesis by (auto simp: made_append)
qed

theorem audio_to_text_retries_witness:
  "is_permanent_failure (case result (audio_to_text (env0\<lparr>a_http := (\<lambda>h c. HttpResp 401 (Inr None))\<rparr>) ''a.mp3'') [] of
      Inl e \<Rightarrow> Some e | Inr _ \<Rightarrow> None)"
proof -
  let ?E = "env0\<lparr>a_http := (\<lambda>h c. HttpResp 401 (Inr None))\<rparr>"
  let ?p = "[Os (OFile ''isRegular'' ''a.mp3''), Os (OFile ''open'' ''a.mp3''), Os (OFile ''read'' ''a.mp3'')]"
  obtain r h' where r: "run_state (audio_to_text ?E ''a.mp3'') [] = (r, h')" by fastforce
  from r have "h' = [] @ ?p @ [Os (OHttp ''a.mp3'')]"
    by (auto simp: audio_to_text_def is_regular_def asr_max_attempts_def numeral_eq_Suc asr_execute_def catchE_def ask_err_def
        env0_def asr_response_def failE_def)
  then have "made (was_rejected ?E) [] (Os (OHttp ''a.mp3'')) h'"
    by (simp only: made_append) (simp add: rejected_def)
  with audio_to_text_retries [OF r] r show ?thesis by (simp add: result_def)
qed

end
