(* ===== verification/Media.thy ===== *)
theory Media
  imports Checkpoint RedisLock VideoContext
begin

text \<open>
  Media files: internal/media/media.go over the media_files table (internal/repo/repo.go).  Inserting a
  row answers its new id.  The content of a file is the answer to reading it; the downloader of
  internal/ytdlp is an argument of \<open>ingest_url\<close>.
\<close>

section \<open>File names\<close>

definition video_suffixes :: "gostr list" where
  "video_suffixes = [''.mp4'', ''.mov'', ''.mkv'', ''.avi'', ''.webm'', ''.m4v'']"

definition file_suffix :: "gostr \<Rightarrow> gostr" where
  "file_suffix n = (case from_last (CHR ''.'') n of None \<Rightarrow> [] | Some s \<Rightarrow> s)"

definition replace_backslash :: "gostr \<Rightarrow> gostr" where
  "replace_backslash s = map (\<lambda>c. if c = CHR 0x5C then CHR ''/'' else c) s"

definition normalize_video_filename :: "gostr \<Rightarrow> gostr res" where
  "normalize_video_filename filename =
     (if is_blank filename then Inl (InvalidArgument m_filename_empty)
      else let n = trim_space (after_last (CHR ''/'') (replace_backslash filename)) in
        if n = [] \<or> utf16_len n > 255 then Inl (InvalidArgument m_filename_bad)
        else if to_lower (file_suffix n) \<notin> set video_suffixes then Inl (InvalidArgument m_suffix_bad)
        else Inr n)"

definition title_rune :: "nat \<times> gostr \<Rightarrow> nat \<times> gostr" where
  "title_rune rb = (if fst rb = 47 \<or> fst rb = 92 \<or> fst rb < 0x20 \<or> fst rb = 0x7F then (32, '' '') else write_rune rb)"

definition link_title :: "gostr \<Rightarrow> gostr" where
  "link_title title = trim_space (unrunes (map title_rune (take 80 (runes (trim_space title)))))"

section \<open>Caches\<close>

definition md5_key :: "int \<Rightarrow> gostr" where
  "md5_key mid = ''media:md5:'' @ itoa mid"

definition user_list_key :: "int \<Rightarrow> gostr" where
  "user_list_key uid = ''media:list:v2:user:'' @ itoa uid"

definition remember_content_hash :: "env \<Rightarrow> int \<Rightarrow> gostr \<Rightarrow> unit op" where
  "remember_content_hash E mid h =
     (if h = [] then ret () else thenI (ask_err (a_err E) (Redis (RSet (md5_key mid) h 0))) (ret ()))"

definition invalidate_user_list :: "env \<Rightarrow> int \<Rightarrow> unit op" where
  "invalidate_user_list E uid = del_key E (user_list_key uid)"

definition list_by_user :: "env \<Rightarrow> int \<Rightarrow> media_file list opE" where
  "list_by_user E uid =
     (let from_db = bindE (ask (a_medias E) (Media (DListMedia uid))) (\<lambda>l.
            thenI (ask_err (a_err E) (Redis (RSet (user_list_key uid) (enc_list E l) (minutes 30)))) (okE l)) in
      bnd (ask (a_ostr E) (Redis (RGet (user_list_key uid)))) (\<lambda>cached.
      case cached of
        Inr (Some v) \<Rightarrow> (case dec_list E v of Inr l \<Rightarrow> okE l | Inl e \<Rightarrow> from_db)
      | _ \<Rightarrow> from_db))"

definition content_hash :: "env \<Rightarrow> int \<Rightarrow> gostr opE" where
  "content_hash E mid =
     (let from_db = bindE (ask (a_media E) (Media (DFindMedia mid))) (\<lambda>m.
            case Option.bind m mf_hash of
              None \<Rightarrow> okE []
            | Some h \<Rightarrow> thenI (remember_content_hash E mid h) (okE h)) in
      bnd (ask (a_ostr E) (Redis (RGet (md5_key mid)))) (\<lambda>cached.
      case cached of
        Inr (Some v) \<Rightarrow> if is_blank v then from_db else okE v
      | _ \<Rightarrow> from_db))"

section \<open>Rows and objects\<close>

definition remove_uploaded_object :: "env \<Rightarrow> gostr \<Rightarrow> unit op" where
  "remove_uploaded_object E url = thenI (remove_file E url) (ret ())"

definition new_media :: "gostr \<Rightarrow> gostr \<Rightarrow> int \<Rightarrow> int \<Rightarrow> gostr \<Rightarrow> media_file" where
  "new_media name url now uid md5sum =
     \<lparr>mf_id = 0, mf_user = uid, mf_filename = name, mf_status = ''COMPLETED'', mf_path = url, mf_hash = Some md5sum,
      mf_summary = None, mf_transcript = None, mf_cover = None, mf_uploaded = now\<rparr>"

definition insert_media :: "env \<Rightarrow> gostr \<Rightarrow> gostr \<Rightarrow> int \<Rightarrow> gostr \<Rightarrow> media_file opE" where
  "insert_media E name url uid md5sum =
     bnd (now_ms E) (\<lambda>now. let m = new_media name url now uid md5sum in
     bindE (ask (a_int E) (Media (DInsertMedia m))) (\<lambda>mid. okE (m\<lparr>mf_id := mid\<rparr>)))"

definition save_uploaded_media :: "env \<Rightarrow> gostr \<Rightarrow> gostr \<Rightarrow> int \<Rightarrow> gostr \<Rightarrow> media_file opE" where
  "save_uploaded_media E filename url uid md5sum =
     (case normalize_video_filename filename of
        Inl e \<Rightarrow> thenI (remove_uploaded_object E url) (failE e)
      | Inr name \<Rightarrow> catchE (insert_media E name url uid md5sum)
          (\<lambda>e. thenI (remove_uploaded_object E url) (failE e))
          (\<lambda>m. thenI (remember_content_hash E (mf_id m) md5sum) (thenI (invalidate_user_list E uid) (okE m))))"

definition save_reference :: "env \<Rightarrow> gostr \<Rightarrow> gostr \<Rightarrow> int \<Rightarrow> gostr \<Rightarrow> media_file opE" where
  "save_reference E filename url uid md5sum =
     (case normalize_video_filename filename of
        Inl e \<Rightarrow> failE e
      | Inr name \<Rightarrow> bindE (insert_media E name url uid md5sum)
          (\<lambda>m. thenI (remember_content_hash E (mf_id m) md5sum) (thenI (invalidate_user_list E uid) (okE m))))"

definition object_lock_key :: "gostr \<Rightarrow> gostr" where
  "object_lock_key h = ''lock:media-object:'' @ h"

definition should_delete_object :: "bool \<Rightarrow> bool \<Rightarrow> int \<Rightarrow> bool" where
  "should_delete_object managed locked remaining = (managed \<and> locked \<and> remaining = 0)"

definition require_owned_media :: "env \<Rightarrow> int \<Rightarrow> int \<Rightarrow> media_file opE" where
  "require_owned_media E mid uid =
     bindE (ask (a_media E) (Media (DFindMedia mid))) (\<lambda>m.
     case m of
       None \<Rightarrow> failE (NotFound m_file_missing)
     | Some mf \<Rightarrow> if mf_user mf \<noteq> uid then failE (Forbidden m_file_forbidden) else okE mf)"

definition media_exists :: "env \<Rightarrow> int \<Rightarrow> bool opE" where
  "media_exists E mid = bindE (ask (a_media E) (Media (DFindMedia mid))) (\<lambda>m. okE (m \<noteq> None))"

definition purge_runtime_artifacts :: "env \<Rightarrow> int \<Rightarrow> unit op" where
  "purge_runtime_artifacts E mid =
     bnd (load_context E mid) (\<lambda>r.
     thenI (delete_evidence_frames E (case r of Inl e \<Rightarrow> None | Inr vc \<Rightarrow> vc))
     (thenI (ask_err (a_err E) (Redis (RDel [md5_key mid, ''transcription:active:'' @ itoa mid, ''transcription:state:'' @ itoa mid])))
     (thenI (ask_err (a_err E) (Agent (APurge mid))) (ret ()))))"

text \<open>The lock of DeleteOwnedMedia: a file without a hash needs none; a lock that could not be asked for
  counts as not held.\<close>

definition object_lock :: "env \<Rightarrow> media_file \<Rightarrow> (lock option \<times> bool) op" where
  "object_lock E m = (case mf_hash m of
      None \<Rightarrow> ret (None, True)
    | Some h \<Rightarrow> if h = [] then ret (None, True)
        else catchE (try_lock E default_locker (object_lock_key h) (seconds 5))
               (\<lambda>e. ret (None, False)) (\<lambda>lk. ret (lk, lk \<noteq> None)))"

definition delete_owned_media :: "env \<Rightarrow> int \<Rightarrow> int \<Rightarrow> unit opE" where
  "delete_owned_media E mid uid =
     bindE (require_owned_media E mid uid) (\<lambda>m.
     bnd (object_lock E m) (\<lambda>(lk, locked).
     bnd (bindE (ask_err (a_err E) (Media (DDeleteMedia mid))) (\<lambda>_.
       bnd (ask (a_int E) (Media (DCountRefs (mf_hash m) (mf_path m)))) (\<lambda>refs.
       let (remaining, counted) = (case refs of Inl e \<Rightarrow> (0, False) | Inr n \<Rightarrow> (n, locked)) in
       thenI (if should_delete_object (is_managed_file E (mf_path m)) counted remaining
              then thenI (remove_file E (mf_path m)) (ret ()) else ret ())
       (thenI (purge_runtime_artifacts E mid)
       (thenI (invalidate_user_list E uid) (okE ())))))) (\<lambda>r.
     thenI (release_if_held E lk) (ret r))))"

section \<open>Ingestion and export\<close>

definition calculate_md5 :: "env \<Rightarrow> gostr \<Rightarrow> gostr opE" where
  "calculate_md5 E path = bindE (ask (a_str E) (Os (OFile ''read'' path))) (\<lambda>content. okE (hex_encode (md5 E content)))"

text \<open>IngestFile of a multipart file with its size and name; a nil header is a size of 0.\<close>

definition ingest_file :: "env \<Rightarrow> int \<Rightarrow> gostr \<Rightarrow> int \<Rightarrow> media_file opE" where
  "ingest_file E sz filename uid =
     (if sz = 0 then failE (InvalidArgument m_upload_empty)
      else case normalize_video_filename filename of
        Inl e \<Rightarrow> failE e
      | Inr name \<Rightarrow>
          bindE (ask_err (a_err E) (Os (OFile ''open'' filename))) (\<lambda>_.
          bindE (calculate_md5 E filename) (\<lambda>md5sum.
          bindE (ask_err (a_err E) (Os (OFile ''open'' filename))) (\<lambda>_.
          bindE (upload_stream E sz filename) (\<lambda>url.
          save_uploaded_media E name url uid md5sum)))))"

definition ingest_url :: "env \<Rightarrow> (gostr \<Rightarrow> (gostr \<times> gostr) opE) \<Rightarrow> gostr \<Rightarrow> int \<Rightarrow> media_file opE" where
  "ingest_url E download url uid =
     (if is_blank url then failE (InvalidArgument m_url_empty)
      else bindE (download url) (\<lambda>(tmp, title).
        bnd (bindE (ask_err (a_err E) (Os (OFile ''open'' tmp))) (\<lambda>_.
             bindE (calculate_md5 E tmp) (\<lambda>md5sum.
             bindE (upload_local_file E tmp (path_base tmp) []) (\<lambda>file_url.
             save_uploaded_media E
               (if link_title title \<noteq> [] then link_title title @ ''.mp4'' else ''WEB_'' @ path_base tmp)
               file_url uid md5sum)))) (\<lambda>r.
        thenI (ask_err (a_err E) (Os (OFile ''remove'' tmp))) (ret r))))"

definition export_mp3 :: "env \<Rightarrow> media_file \<Rightarrow> gostr opE" where
  "export_mp3 E m =
     bindE (readable_source E (mf_path m)) (\<lambda>input.
     bnd (if is_blank input then ret False else if has_prefix input ''http'' then ret True else is_regular E input) (\<lambda>ok.
     if \<not> ok then failE (NotFound m_source_missing)
     else catchE (ask (a_str E) (Os (OFile ''createTemp'' ''dovideo-audio-*.mp3'')))
       (\<lambda>e. failE (Internal m_audio_failed (Some e)))
       (\<lambda>out. bnd (ask (a_proc E) (Os (OProc ''ffmpeg'' [''-y'', ''-i'', input, ''-vn'', ''-acodec'', ''libmp3lame'', ''-q:a'', ''2'', out]))) (\<lambda>p.
         let failed = (\<lambda>msg cause. thenI (ask_err (a_err E) (Os (OFile ''remove'' out))) (failE (Internal msg cause))) in
         case p of
           ProcTimeout \<Rightarrow> failed m_audio_timeout None
         | ProcExit code logs \<Rightarrow> failed m_audio_failed (Some (exit_error code))
         | ProcErr e \<Rightarrow> failed m_audio_failed (Some e)
         | ProcOk logs \<Rightarrow> okE out))))"

section \<open>Facts\<close>

lemma extends_media [ext_intros]:
  "extends (remember_content_hash E mid h)" "extends (invalidate_user_list E uid)" "extends (remove_uploaded_object E url)"
  "extends (require_owned_media E mid uid)" "extends (media_exists E mid)" "extends (purge_runtime_artifacts E mid)"
  "extends (object_lock E m)" "extends (calculate_md5 E path)" "extends (list_by_user E uid)" "extends (content_hash E mid)"
  unfolding remember_content_hash_def invalidate_user_list_def remove_uploaded_object_def require_owned_media_def
    media_exists_def purge_runtime_artifacts_def object_lock_def calculate_md5_def list_by_user_def content_hash_def Let_def
  by (intro ext_intros)+

lemma extends_insert_media [ext_intros]: "extends (insert_media E name url uid md5sum)"
  unfolding insert_media_def Let_def by (intro ext_intros)

lemma extends_save [ext_intros]:
  "extends (save_uploaded_media E filename url uid md5sum)" "extends (save_reference E filename url uid md5sum)"
  unfolding save_uploaded_media_def save_reference_def by (intro ext_intros)+

lemma extends_delete_owned_media [ext_intros]: "extends (delete_owned_media E mid uid)"
  unfolding delete_owned_media_def Let_def by (intro ext_intros)

lemma extends_ingest_file [ext_intros]: "extends (ingest_file E sz filename uid)"
  unfolding ingest_file_def by (intro ext_intros)

text \<open>Apart from the stored object itself, deleting a media file removes evidence frames only.\<close>

definition frame_only :: "call \<Rightarrow> bool" where
  "frame_only c = (case c of Store (SRemoveObject n) \<Rightarrow> has_prefix n (evidence_object_prefix @ ''/'') | _ \<Rightarrow> True)"

lemma frame_only_simps [simp]:
  "frame_only (Redis a)" "frame_only (Kafka b)" "frame_only (Media c)" "frame_only (Ledger d)" "frame_only (Agent e)"
  "frame_only (Os f)" "frame_only (Store (SRemoveObject n)) = has_prefix n (evidence_object_prefix @ ''/'')"
  by (simp_all add: frame_only_def)

lemma frame_only_lock: "lock_call key c \<Longrightarrow> frame_only c" "release_call c \<Longrightarrow> frame_only c"
  by (auto simp: lock_call_def release_call_def)

lemma frame_only_storage: "uses frame_only (remove_file E url)" if "is_managed_with_prefix E url evidence_object_prefix"
  using that unfolding remove_file_def remove_object_def is_managed_with_prefix_def
  by (auto split: sum.splits intro!: use_intros)

lemma uses_frames [use_intros]:
  "uses frame_only (delete_frames E frames)" "uses frame_only (delete_evidence_frames E vc)"
  unfolding delete_evidence_frames_def delete_frames_def
  by (auto split: option.splits intro!: use_intros frame_only_storage)

lemma uses_checkpoint [use_intros]:
  "uses frame_only (hdel E key fs)" "uses frame_only (cache_field E key f p st)"
  "uses frame_only (load_context_db E mid)" "uses frame_only (load_context E mid)"
  unfolding hdel_def cache_field_def load_context_db_def load_context_def
  by (intro use_intros; simp)+

lemma uses_purge [use_intros]: "uses frame_only (purge_runtime_artifacts E mid)"
  unfolding purge_runtime_artifacts_def by (intro use_intros) simp_all

lemma uses_media [use_intros]:
  "uses frame_only (require_owned_media E mid uid)" "uses frame_only (invalidate_user_list E uid)"
  "uses frame_only (release_if_held E lk)" "uses frame_only (object_lock E m)"
  unfolding require_owned_media_def invalidate_user_list_def del_key_def object_lock_def
  by (intro use_intros uses_mono [OF uses_release_if_held] uses_mono [OF uses_try_lock]; simp add: frame_only_lock)+

lemma wp_require_owned:
  "wp (require_owned_media E mid uid) (\<lambda>r h'. \<forall>m. r = Inr m \<longrightarrow>
      a_media E h (Media (DFindMedia mid)) = Inr (Some m) \<and> mf_user m = uid) h"
  by (auto simp: require_owned_media_def wp_simps split: sum.splits option.splits)

lemma wp_object_lock:
  "wp (object_lock E m) (\<lambda>(lk, locked) h'. locked \<longrightarrow> (\<forall>hs. mf_hash m = Some hs \<and> hs \<noteq> [] \<longrightarrow>
      (\<exists>t. made (\<lambda>p c. a_bool E p c = Inr True) h (Redis (RSetNX (object_lock_key hs) t (lo_ttl default_locker))) h'))) h"
  by (auto simp: object_lock_def wp_simps split: option.splits
      intro!: wp_mono [OF wp_try_lock] split: sum.splits)

text \<open>What must have happened before the object \<open>n\<close> of the row \<open>m\<close> is removed, and the invariant that it
  happened for every object removed since \<open>h\<close>.\<close>

definition may_remove :: "env \<Rightarrow> int \<Rightarrow> int \<Rightarrow> hist \<Rightarrow> media_file \<Rightarrow> gostr \<Rightarrow> hist \<Rightarrow> bool" where
  "may_remove E mid uid h m n h' =
     (a_media E h (Media (DFindMedia mid)) = Inr (Some m) \<and> mf_user m = uid \<and> object_name E (mf_path m) = Inr n
      \<and> made (acked E) h (Media (DDeleteMedia mid)) h'
      \<and> made (\<lambda>p c. a_int E p c = Inr 0) h (Media (DCountRefs (mf_hash m) (mf_path m))) h'
      \<and> (\<forall>hs. mf_hash m = Some hs \<and> hs \<noteq> [] \<longrightarrow>
           (\<exists>t. made (\<lambda>p c. a_bool E p c = Inr True) h (Redis (RSetNX (object_lock_key hs) t (lo_ttl default_locker))) h')))"

definition removals_ok :: "env \<Rightarrow> int \<Rightarrow> int \<Rightarrow> hist \<Rightarrow> hist \<Rightarrow> bool" where
  "removals_ok E mid uid h h' = (prefix h h' \<and> (\<forall>n. Store (SRemoveObject n) \<in> set (drop (length h) h') \<longrightarrow>
     \<not> has_prefix n (evidence_object_prefix @ ''/'') \<longrightarrow> (\<exists>m. may_remove E mid uid h m n h')))"

lemma may_remove_later: "may_remove E mid uid h m n p \<Longrightarrow> prefix p q \<Longrightarrow> may_remove E mid uid h m n q"
  unfolding may_remove_def by (meson made_later)

lemma removals_ok_append:
  assumes "removals_ok E mid uid h p"
    and "\<And>n. Store (SRemoveObject n) \<in> set zs \<Longrightarrow> \<not> has_prefix n (evidence_object_prefix @ ''/'') \<Longrightarrow>
           \<exists>m. may_remove E mid uid h m n p"
  shows "removals_ok E mid uid h (p @ zs)"
proof -
  from assms(1) obtain ys where ys: "p = h @ ys"
    and ok: "\<And>n. Store (SRemoveObject n) \<in> set ys \<Longrightarrow> \<not> has_prefix n (evidence_object_prefix @ ''/'') \<Longrightarrow>
           \<exists>m. may_remove E mid uid h m n p"
    by (auto simp: removals_ok_def prefix_def)
  have "\<exists>m. may_remove E mid uid h m n (p @ zs)"
    if "Store (SRemoveObject n) \<in> set (ys @ zs)" "\<not> has_prefix n (evidence_object_prefix @ ''/'')" for n
    using that ok assms(2) may_remove_later [OF _ prefixI [OF refl]] by (metis Un_iff set_append)
  then show ?thesis by (simp add: removals_ok_def ys)
qed

lemma removals_ok_frames: "removals_ok E mid uid h p \<Longrightarrow> list_all frame_only zs \<Longrightarrow> removals_ok E mid uid h (p @ zs)"
  by (rule removals_ok_append) (auto simp: list_all_iff dest: bspec)

lemma removals_ok_quiet:
  "uses frame_only op \<Longrightarrow> removals_ok E mid uid h p \<Longrightarrow> (\<And>r q. removals_ok E mid uid h q \<Longrightarrow> Q r q) \<Longrightarrow> wp op Q p"
  by (rule wp_usesI) (auto intro: removals_ok_frames)

lemma removals_ok_object:
  assumes "removals_ok E mid uid h p" and "\<And>n. object_name E (mf_path m) = Inr n \<Longrightarrow> may_remove E mid uid h m n p"
  shows "wp (remove_file E (mf_path m)) (\<lambda>r q. removals_ok E mid uid h q) p"
proof -
  have "removals_ok E mid uid h (p @ [Store (SRemoveObject n)])" if "object_name E (mf_path m) = Inr n" for n
    by (rule removals_ok_append [OF assms(1)]) (use assms(2) that in auto)
  with assms(1) show ?thesis
    by (auto simp: remove_file_def remove_object_def wp_simps split: sum.splits option.splits)
qed

lemma removals_ok_delete: "wp (delete_owned_media E mid uid) (\<lambda>r q. removals_ok E mid uid h q) h"
proof -
  have start: "removals_ok E mid uid h h" by (simp add: removals_ok_def)
  have tail: "wp (thenI (purge_runtime_artifacts E mid) (thenI (invalidate_user_list E uid) (okE ())))
      (\<lambda>r q. wp (release_if_held E lk) (\<lambda>_ q. removals_ok E mid uid h q) q) p" if "removals_ok E mid uid h p" for lk p
    using that by (auto simp: wp_simps intro!: removals_ok_quiet [OF uses_purge] removals_ok_quiet [OF uses_media(2)]
        removals_ok_quiet [OF uses_media(3)])
  have quiet: "removals_ok E mid uid h (p @ [Media x])" "removals_ok E mid uid h (p @ [Media x, Media y])"
    if "removals_ok E mid uid h p" for p x y
    using that removals_ok_frames [of E mid uid h p "[Media x]"] removals_ok_frames [of E mid uid h p "[Media x, Media y]"] by simp_all
  have release: "wp (release_if_held E lk) (\<lambda>_ q. removals_ok E mid uid h q) p" if "removals_ok E mid uid h p" for lk p
    using that by (rule removals_ok_quiet [OF uses_media(3)])
  show ?thesis
    unfolding delete_owned_media_def wp_bindE
  proof (rule wp_uses_conj [OF uses_media(1) wp_require_owned], goal_cases)
    case (1 r xs)
    then have rm: "removals_ok E mid uid h (h @ xs)" using removals_ok_frames [OF start] by blast
    show ?case
    proof (cases r)
      case (Inr m)
      with 1 have m: "a_media E h (Media (DFindMedia mid)) = Inr (Some m)" "mf_user m = uid" by auto
      have "wp (object_lock E m) (\<lambda>x q. removals_ok E mid uid h q \<and> prefix (h @ xs) q \<and> (snd x \<longrightarrow> (\<forall>hs. mf_hash m = Some hs \<and> hs \<noteq> [] \<longrightarrow>
          (\<exists>t. made (\<lambda>p c. a_bool E p c = Inr True) (h @ xs) (Redis (RSetNX (object_lock_key hs) t (lo_ttl default_locker))) q)))) (h @ xs)"
        by (rule wp_uses_conj [OF uses_media(4) wp_object_lock])
           (use removals_ok_frames [OF rm] in \<open>auto simp: append_assoc split: prod.splits\<close>)
      then show ?thesis
        unfolding Inr sum.case wp_bnd [of "object_lock E m"]
      proof (rule wp_mono, goal_cases)
        case (1 x q)
        obtain lk locked where x: "x = (lk, locked)" by (cases x)
        have hq: "prefix h q" using 1 by (auto simp: prefix_def)
        have may: "may_remove E mid uid h m n (q @ [Media (DDeleteMedia mid), Media (DCountRefs (mf_hash m) (mf_path m))])"
          if "object_name E (mf_path m) = Inr n" "acked E q (Media (DDeleteMedia mid))" "locked"
            "a_int E (q @ [Media (DDeleteMedia mid)]) (Media (DCountRefs (mf_hash m) (mf_path m))) = Inr 0" for n
        proof -
          have "made (acked E) h (Media (DDeleteMedia mid)) (q @ [Media (DDeleteMedia mid)])"
            using that(2) hq by (intro made_last)
          moreover have "made (\<lambda>p c. a_int E p c = Inr 0) h (Media (DCountRefs (mf_hash m) (mf_path m)))
              ((q @ [Media (DDeleteMedia mid)]) @ [Media (DCountRefs (mf_hash m) (mf_path m))])"
            using that(4) hq by (intro made_last) (auto simp: prefix_def)
          moreover have "\<exists>t. made (\<lambda>p c. a_bool E p c = Inr True) h (Redis (RSetNX (object_lock_key hs) t (lo_ttl default_locker)))
              (q @ [Media (DDeleteMedia mid), Media (DCountRefs (mf_hash m) (mf_path m))])"
            if "mf_hash m = Some hs" "hs \<noteq> []" for hs
          proof -
            from 1 that \<open>locked\<close> obtain t where "made (\<lambda>p c. a_bool E p c = Inr True) (h @ xs)
                (Redis (RSetNX (object_lock_key hs) t (lo_ttl default_locker))) q" by (auto simp: x)
            then show ?thesis by (intro exI [of _ t]) (erule made_weaken, simp_all)
          qed
          moreover have "made (acked E) h (Media (DDeleteMedia mid)) (q @ [Media (DDeleteMedia mid), Media (DCountRefs (mf_hash m) (mf_path m))])"
            using calculation(1) by (rule made_later) simp
          ultimately show ?thesis using m that(1) unfolding may_remove_def by auto
        qed
        show ?case
          using 1 may tail quiet release
          by (auto simp: x wp_simps Let_def should_delete_object_def split: option.splits sum.splits prod.splits
              intro!: wp_mono [OF removals_ok_object])
      qed
    qed (use rm in simp)
  qed
qed

section \<open>Properties\<close>

text \<open>Deleting a media file removes the stored object (anything that is not an evidence frame) only
  for a row of the caller, after the row was deleted, when MySQL counted no other reference to the
  file, and while the object lock of its content hash had been granted; the object is the one the row
  points at.\<close>

theorem delete_object_safe:
  assumes "run_state (delete_owned_media E mid uid) h = (r, h')"
    and "Store (SRemoveObject n) \<in> set (drop (length h) h')"
    and "\<not> has_prefix n ''evidence-frames/''"
  shows "\<exists>m. a_media E h (Media (DFindMedia mid)) = Inr (Some m) \<and> mf_user m = uid \<and> object_name E (mf_path m) = Inr n
    \<and> made (acked E) h (Media (DDeleteMedia mid)) h'
    \<and> made (\<lambda>p c. a_int E p c = Inr 0) h (Media (DCountRefs (mf_hash m) (mf_path m))) h'
    \<and> (\<forall>hs. mf_hash m = Some hs \<and> hs \<noteq> [] \<longrightarrow>
         (\<exists>t. made (\<lambda>p c. a_bool E p c = Inr True) h (Redis (RSetNX (object_lock_key hs) t 30000)) h'))"
proof -
  have "lo_ttl default_locker = 30000" by (simp add: default_locker_def new_locker_def)
  moreover from wp_run [OF assms(1) removals_ok_delete] have "removals_ok E mid uid h h'" .
  ultimately show ?thesis using assms(2,3) by (auto simp: removals_ok_def may_remove_def)
qed

definition media1 :: media_file where
  "media1 = \<lparr>mf_id = 7, mf_user = 3, mf_filename = ''a.mp4'', mf_status = ''COMPLETED'', mf_path = ''http://m/b/x.mp4'',
     mf_hash = None, mf_summary = None, mf_transcript = None, mf_cover = None, mf_uploaded = 0\<rparr>"

definition env_delete :: env where
  "env_delete = env0\<lparr>a_media := (\<lambda>h c. Inr (Some media1)), a_int := (\<lambda>h c. Inr 0)\<rparr>"

theorem delete_object_safe_witness:
  "\<exists>m. a_media env_delete [] (Media (DFindMedia 7)) = Inr (Some m) \<and> mf_user m = 3 \<and> object_name env_delete (mf_path m) = Inr ''x.mp4''"
proof -
  obtain r h' where r: "run_state (delete_owned_media env_delete 7 3) [] = (r, h')" by fastforce
  have n: "object_name env_delete ''http://m/b/x.mp4'' = Inr ''x.mp4''"
    by (simp add: object_name_def env_delete_def env0_def has_prefix_def validate_object_name_def) (simp add: str_eval)
  have v: "validate_object_name ''x.mp4'' = Inr ()"
    by (simp add: validate_object_name_def has_prefix_def) (simp add: str_eval)
  have b: "\<not> is_blank ''http://m/b/x.mp4''" by (simp add: str_eval)
  have mg: "is_managed_file env_delete ''http://m/b/x.mp4''"
    by (simp add: is_managed_file_def object_root_def has_prefix_def env_delete_def env0_def)
  have e: "a_media env_delete p c = Inr (Some media1)" "a_int env_delete p c = Inr 0" "a_err env_delete p c = None" for p c
    by (simp_all add: env_delete_def env0_def)
  have m1: "mf_user media1 = 3" "mf_hash media1 = None" "mf_path media1 = ''http://m/b/x.mp4''" by (simp_all add: media1_def)
  have "wp (delete_owned_media env_delete 7 3) (\<lambda>r h'. Store (SRemoveObject ''x.mp4'') \<in> set h') []"
    by (auto simp: delete_owned_media_def require_owned_media_def object_lock_def remove_file_def remove_object_def
        wp_simps e m1 b mg n v should_delete_object_def intro!: ext_intros wp_quiet dest!: set_mono_prefix)
  from wp_run [OF r this] have "Store (SRemoveObject ''x.mp4'') \<in> set (drop (length []) h')" by simp
  moreover have "\<not> has_prefix ''x.mp4'' ''evidence-frames/''" by (simp add: has_prefix_def)
  ultimately show ?thesis using delete_object_safe [OF r] by blast
qed

end
