(* ===== verification/TaskEvents.thy ===== *)
theory TaskEvents
  imports TaskKeys
begin

text \<open>
  The SSE hub: internal/taskevents/hub.go.  Publishing goes to Redis; when nobody received it, or
  Redis failed, the event is handed to the local subscribers (\<open>OPublishLocal\<close> in the history).  The
  local registry is a state of its own: the subscriptions per key and one bounded buffer per
  subscription.
\<close>

abbreviation "TypeAnalysis \<equiv> ''analysis''"
abbreviation "TypeTranscription \<equiv> ''transcription''"
abbreviation "RedisChannel \<equiv> ''dovideo:task-events''"

definition subscriber_buffer :: nat where "subscriber_buffer = 64"

definition event_key :: "env \<Rightarrow> int \<Rightarrow> gostr \<Rightarrow> gostr \<Rightarrow> analysis_mode \<Rightarrow> gostr res" where
  "event_key E mid typ goal mode =
     (let key = (\<lambda>suffix. typ @ '':'' @ itoa mid @ '':'' @ suffix) in
      if typ = TypeAnalysis
      then (case goal_digest E goal mode of Inl e \<Rightarrow> Inl e | Inr d \<Rightarrow> Inr (key d))
      else Inr (key ''default''))"

definition publish_event :: "env \<Rightarrow> gostr \<Rightarrow> task_event \<Rightarrow> unit op" where
  "publish_event E key ev =
     bnd (ask (a_int E) (Redis (RPublish RedisChannel key ev))) (\<lambda>r.
     if (case r of Inl e \<Rightarrow> False | Inr n \<Rightarrow> 0 < n) then ret ()
     else ask (\<lambda>h c. ()) (Os (OPublishLocal key ev)))"

definition publish_analysis :: "env \<Rightarrow> int \<Rightarrow> gostr \<Rightarrow> analysis_mode \<Rightarrow> task_status \<Rightarrow> task_stage \<Rightarrow> unit opE" where
  "publish_analysis E mid goal mode st stage =
     (case event_key E mid TypeAnalysis goal mode of
        Inl e \<Rightarrow> failE e
      | Inr key \<Rightarrow> thenI (publish_event E key (event_of st stage)) (okE ()))"

definition publish_transcription :: "env \<Rightarrow> int \<Rightarrow> task_status \<Rightarrow> task_stage \<Rightarrow> unit op" where
  "publish_transcription E mid st stage =
     (case event_key E mid TypeTranscription [] ModeGeneral of
        Inl e \<Rightarrow> publish_event E [] (event_of st stage)
      | Inr key \<Rightarrow> publish_event E key (event_of st stage))"

section \<open>The local registry\<close>

record hub =
  hb_subs :: "gostr \<Rightarrow> nat list option"
  hb_buf :: "nat \<Rightarrow> task_event list"
  hb_key :: "nat \<Rightarrow> gostr"
  hb_closed :: "nat \<Rightarrow> bool"
  hb_next :: nat

definition new_hub :: hub where
  "new_hub = \<lparr>hb_subs = (\<lambda>_. None), hb_buf = (\<lambda>_. []), hb_key = (\<lambda>_. []), hb_closed = (\<lambda>_. False), hb_next = 0\<rparr>"

definition subs_of :: "hub \<Rightarrow> gostr \<Rightarrow> nat list" where
  "subs_of hb key = (case hb_subs hb key of None \<Rightarrow> [] | Some l \<Rightarrow> l)"

text \<open>Subscribe registers the new subscription under the mutex and sends the initial event after
  releasing it, so another goroutine's event may arrive in between.\<close>

definition register :: "gostr \<Rightarrow> hub \<Rightarrow> nat \<times> hub" where
  "register key hb = (let i = hb_next hb in
     (i, hb\<lparr>hb_subs := (hb_subs hb)(key \<mapsto> subs_of hb key @ [i]), hb_buf := (hb_buf hb)(i := []),
            hb_key := (hb_key hb)(i := key), hb_next := Suc i\<rparr>))"

definition push :: "task_event \<Rightarrow> nat \<Rightarrow> hub \<Rightarrow> hub" where
  "push ev i hb = hb\<lparr>hb_buf := (hb_buf hb)(i := hb_buf hb i @ [ev])\<rparr>"

definition has_room :: "nat \<Rightarrow> hub \<Rightarrow> bool" where
  "has_room i hb = (length (hb_buf hb i) < subscriber_buffer)"

definition subscribe :: "env \<Rightarrow> int \<Rightarrow> gostr \<Rightarrow> gostr \<Rightarrow> analysis_mode \<Rightarrow> task_status \<Rightarrow> task_stage \<Rightarrow> hub \<Rightarrow> nat res \<times> hub" where
  "subscribe E mid typ goal mode initial stage hb =
     (case event_key E mid typ goal mode of
        Inl e \<Rightarrow> (Inl e, hb)
      | Inr key \<Rightarrow> (let (i, hb1) = register key hb in (Inr i, push (event_of initial stage) i hb1)))"

definition remove_sub :: "gostr \<Rightarrow> nat \<Rightarrow> hub \<Rightarrow> hub" where
  "remove_sub key i hb = (case hb_subs hb key of None \<Rightarrow> hb
     | Some l \<Rightarrow> (let l' = removeAll i l in
         hb\<lparr>hb_subs := (hb_subs hb)(key := (if l' = [] then None else Some l'))\<rparr>))"

text \<open>Close runs the removal once (sync.Once).\<close>

definition close_sub :: "nat \<Rightarrow> hub \<Rightarrow> hub" where
  "close_sub i hb = (if hb_closed hb i then hb
     else remove_sub (hb_key hb i) i (hb\<lparr>hb_closed := (hb_closed hb)(i := True)\<rparr>))"

definition offer :: "task_event \<Rightarrow> nat \<Rightarrow> hub \<Rightarrow> hub" where
  "offer ev i hb = (if has_room i hb then push ev i hb else close_sub i hb)"

definition publish_local :: "gostr \<Rightarrow> task_event \<Rightarrow> hub \<Rightarrow> hub" where
  "publish_local key ev hb = fold (offer ev) (subs_of hb key) hb"

text \<open>The stream handler takes the oldest event.\<close>

definition receive :: "nat \<Rightarrow> hub \<Rightarrow> task_event option \<times> hub" where
  "receive i hb = (case hb_buf hb i of [] \<Rightarrow> (None, hb)
     | ev # evs \<Rightarrow> (Some ev, hb\<lparr>hb_buf := (hb_buf hb)(i := evs)\<rparr>))"

text \<open>HandleMessage with the decoded payload; an undecodable one is dropped.\<close>

definition handle_message :: "(gostr \<times> task_event) option \<Rightarrow> hub \<Rightarrow> hub" where
  "handle_message env hb = (case env of None \<Rightarrow> hb | Some (key, ev) \<Rightarrow> publish_local key ev hb)"

text \<open>The steps other goroutines may interleave: registration and the blocking send of the initial
  event, one send of a publication (also to a subscription closed since the snapshot), a whole
  publication, Close, and the reader taking an event.\<close>

inductive hub_step :: "hub \<Rightarrow> hub \<Rightarrow> bool" where
  hub_register: "hub_step hb (snd (register key hb))"
| hub_initial: "i < hb_next hb \<Longrightarrow> has_room i hb \<Longrightarrow> hub_step hb (push ev i hb)"
| hub_close: "i < hb_next hb \<Longrightarrow> hub_step hb (close_sub i hb)"
| hub_offer: "i < hb_next hb \<Longrightarrow> hub_step hb (offer ev i hb)"
| hub_message: "hub_step hb (handle_message m hb)"
| hub_receive: "hub_step hb (snd (receive i hb))"

definition hub_inv :: "hub \<Rightarrow> bool" where
  "hub_inv hb = (
     (\<forall>key l. hb_subs hb key = Some l \<longrightarrow> l \<noteq> [] \<and> distinct l) \<and>
     (\<forall>key i. i \<in> set (subs_of hb key) \<longleftrightarrow> i < hb_next hb \<and> hb_key hb i = key \<and> \<not> hb_closed hb i) \<and>
     (\<forall>i. length (hb_buf hb i) \<le> subscriber_buffer) \<and>
     (\<forall>i. hb_next hb \<le> i \<longrightarrow> \<not> hb_closed hb i))"

section \<open>Facts\<close>

lemma extends_publish_event [ext_intros]: "extends (publish_event E key ev)"
  unfolding publish_event_def by (intro ext_intros)

lemma extends_publish_analysis [ext_intros]: "extends (publish_analysis E mid goal mode st stage)"
  unfolding publish_analysis_def by (intro ext_intros)

lemma extends_publish_transcription [ext_intros]: "extends (publish_transcription E mid st stage)"
  unfolding publish_transcription_def by (intro ext_intros)

lemma subs_remove: "subs_of (remove_sub key i hb) key' = (if key' = key then removeAll i (subs_of hb key) else subs_of hb key')"
  by (auto simp: remove_sub_def subs_of_def Let_def split: option.splits)

lemma remove_sub_fields [simp]:
  "hb_buf (remove_sub key i hb) = hb_buf hb" "hb_key (remove_sub key i hb) = hb_key hb"
  "hb_closed (remove_sub key i hb) = hb_closed hb" "hb_next (remove_sub key i hb) = hb_next hb"
  by (auto simp: remove_sub_def Let_def split: option.splits)

lemma close_sub_fields [simp]:
  "hb_buf (close_sub i hb) = hb_buf hb" "hb_key (close_sub i hb) = hb_key hb" "hb_next (close_sub i hb) = hb_next hb"
  "hb_closed (close_sub i hb) = (hb_closed hb)(i := True)"
  by (auto simp: close_sub_def fun_upd_idem)

lemma close_sub_idem: "close_sub i (close_sub i hb) = close_sub i hb"
  by (subst close_sub_def) simp

lemma hub_inv_close: "hub_inv hb \<Longrightarrow> i < hb_next hb \<Longrightarrow> hub_inv (close_sub i hb)"
proof (cases "hb_closed hb i")
  case False
  assume inv: "hub_inv hb" and i: "i < hb_next hb"
  let ?hb = "hb\<lparr>hb_closed := (hb_closed hb)(i := True)\<rparr>"
  have s: "subs_of (close_sub i hb) k = (if k = hb_key hb i then removeAll i (subs_of hb k) else subs_of hb k)" for k
    using False subs_remove [of "hb_key hb i" i ?hb k] by (simp add: close_sub_def subs_of_def)
  have d: "l \<noteq> [] \<and> distinct l" if "hb_subs (close_sub i hb) k = Some l" for k l
    using that inv False
    by (auto simp: close_sub_def remove_sub_def hub_inv_def Let_def distinct_removeAll split: option.splits if_splits)
  show ?thesis
    unfolding hub_inv_def
    using d s inv i by (auto simp: hub_inv_def)
qed (simp add: close_sub_def)

lemma hub_inv_push: "hub_inv hb \<Longrightarrow> has_room i hb \<Longrightarrow> hub_inv (push ev i hb)"
  by (auto simp: push_def has_room_def hub_inv_def subs_of_def)

lemma hub_inv_offer: "hub_inv hb \<Longrightarrow> i < hb_next hb \<Longrightarrow> hub_inv (offer ev i hb)"
  by (simp add: offer_def hub_inv_close hub_inv_push)

lemma offer_next [simp]: "hb_next (offer ev i hb) = hb_next hb"
  by (simp add: offer_def push_def)

lemma hub_inv_fold: "hub_inv hb \<Longrightarrow> (\<And>i. i \<in> set l \<Longrightarrow> i < hb_next hb) \<Longrightarrow> hub_inv (fold (offer ev) l hb)"
  by (induction l arbitrary: hb) (auto simp: hub_inv_offer)

lemma hub_inv_publish: "hub_inv hb \<Longrightarrow> hub_inv (publish_local key ev hb)"
  unfolding publish_local_def by (rule hub_inv_fold) (auto simp: hub_inv_def)

lemma hub_inv_register: "hub_inv hb \<Longrightarrow> hub_inv (snd (register key hb))"
  unfolding hub_inv_def register_def Let_def
  by (auto simp: subs_of_def subscriber_buffer_def split: option.splits if_splits)

lemma fold_offer:
  "distinct l \<Longrightarrow>
   hb_buf (fold (offer ev) l hb) i = (if i \<in> set l \<and> has_room i hb then hb_buf hb i @ [ev] else hb_buf hb i) \<and>
   hb_closed (fold (offer ev) l hb) i = (hb_closed hb i \<or> (i \<in> set l \<and> \<not> has_room i hb)) \<and>
   hb_key (fold (offer ev) l hb) = hb_key hb \<and> hb_next (fold (offer ev) l hb) = hb_next hb"
proof (induction l arbitrary: hb)
  case (Cons j l)
  have r: "has_room k (offer ev j hb) = has_room k hb" if "k \<noteq> j" for k
    using that by (auto simp: has_room_def offer_def push_def)
  show ?case
    using Cons.IH [of "offer ev j hb"] Cons.prems r [of i]
    by (cases "i = j") (auto simp: offer_def push_def)
qed simp

lemma hub_inv_receive: "hub_inv hb \<Longrightarrow> hub_inv (snd (receive i hb))"
  unfolding hub_inv_def receive_def
  by (auto simp: subs_of_def split: list.splits) (metis Suc_leD length_Cons)

interpretation hub: inductive_system "\<lambda>hb. hb = new_hub" hub_step hub_inv
proof
  fix hb
  show "hb = new_hub \<Longrightarrow> hub_inv hb" by (simp add: hub_inv_def new_hub_def subs_of_def)
next
  fix hb hb'
  show "hub_step hb hb' \<Longrightarrow> hub_inv hb \<Longrightarrow> hub_inv hb'"
    by (induction rule: hub_step.induct)
       (auto simp: handle_message_def intro: hub_inv_register hub_inv_push hub_inv_offer hub_inv_close hub_inv_publish hub_inv_receive
         split: option.splits)
qed

lemma one_subscriber: "reach (\<lambda>hb. hb = new_hub) hub_step (snd (register ''k'' new_hub))"
  by (rule reach_step [where s = new_hub]) (auto intro: reach_init hub_register)

section \<open>Properties\<close>

text \<open>In every reachable state of the hub, however subscriptions, publications, closes and reads
  interleave: no channel holds more than 64 events, no key keeps an empty set of subscribers, a key's
  subscribers are exactly its subscriptions that were not closed, each listed once.\<close>

theorem hub_registry_sound:
  assumes "reach (\<lambda>hb. hb = new_hub) hub_step hb"
  shows "length (hb_buf hb i) \<le> 64 \<and> hb_subs hb key \<noteq> Some [] \<and> distinct (subs_of hb key) \<and>
    (i \<in> set (subs_of hb key) \<longleftrightarrow> i < hb_next hb \<and> hb_key hb i = key \<and> \<not> hb_closed hb i)"
  using hub.reach_inv [OF assms] by (auto simp: hub_inv_def subscriber_buffer_def subs_of_def split: option.splits)

theorem hub_registry_sound_witness:
  "0 \<in> set (subs_of (snd (register ''k'' new_hub)) ''k'')"
proof -
  from hub_registry_sound [OF one_subscriber, of 0 "''k''"] show ?thesis
    by (simp add: register_def new_hub_def Let_def)
qed

text \<open>A publication reaches every open subscription of its key that has room, as the newest event
  of its buffer; a subscription whose buffer is full is closed and leaves the registry without
  losing what it already holds; every other subscription, and the registry of every other key, is
  untouched.\<close>

theorem publish_local_delivers:
  assumes "reach (\<lambda>hb. hb = new_hub) hub_step hb"
  shows "(i \<in> set (subs_of hb key) \<and> has_room i hb \<longrightarrow>
           hb_buf (publish_local key ev hb) i = hb_buf hb i @ [ev] \<and> i \<in> set (subs_of (publish_local key ev hb) key)) \<and>
    (i \<in> set (subs_of hb key) \<and> \<not> has_room i hb \<longrightarrow>
           hb_buf (publish_local key ev hb) i = hb_buf hb i \<and> hb_closed (publish_local key ev hb) i \<and> i \<notin> set (subs_of (publish_local key ev hb) key)) \<and>
    (i \<notin> set (subs_of hb key) \<longrightarrow> hb_buf (publish_local key ev hb) i = hb_buf hb i \<and> hb_closed (publish_local key ev hb) i = hb_closed hb i) \<and>
    (key' \<noteq> key \<longrightarrow> set (subs_of (publish_local key ev hb) key') = set (subs_of hb key'))"
proof -
  define hb' where "hb' = publish_local key ev hb"
  have inv: "hub_inv hb" and inv': "hub_inv hb'"
    using hub.reach_inv [OF assms(1)] hub_inv_publish by (auto simp: hb'_def)
  then have "distinct (subs_of hb key)" by (auto simp: hub_inv_def subs_of_def split: option.splits)
  note f = fold_offer [OF this, of ev hb, folded publish_local_def hb'_def]
  have m: "j \<in> set (subs_of hb' k) \<longleftrightarrow> j < hb_next hb \<and> hb_key hb j = k \<and> \<not> hb_closed hb' j" for j k
    using inv' f by (auto simp: hub_inv_def)
  have n: "j \<in> set (subs_of hb k) \<longleftrightarrow> j < hb_next hb \<and> hb_key hb j = k \<and> \<not> hb_closed hb j" for j k
    using inv by (auto simp: hub_inv_def)
  show ?thesis using f [of i] m n f unfolding hb'_def by auto
qed

theorem publish_local_delivers_witness:
  "hb_buf (publish_local ''k'' (event_of (status_completed ''r'') StageCompleted) (snd (register ''k'' new_hub))) 0
    = [event_of (status_completed ''r'') StageCompleted]"
proof -
  from publish_local_delivers [OF one_subscriber, of 0 "''k''"] show ?thesis
    by (simp add: register_def new_hub_def Let_def subs_of_def has_room_def subscriber_buffer_def)
qed

end
