(* ===== verification/Analyzer.thy ===== *)
theory Analyzer
  imports Media TaskEvents
begin

text \<open>
  One analysis task: internal/analysis/analyzer.go.  The stage that a failure is recorded under
  (currentStage) is returned with the result of the body; the deferred handler of AsyncAnalyze is
  \<open>finish_analysis\<close>.  Losing the context lock cancels the build, which the environment shows as errors
  of its calls.
\<close>

abbreviation (input) "context_lock_wait \<equiv> seconds 300"
abbreviation (input) "context_owner_ttl \<equiv> hours 168"

section \<open>Contexts of other media\<close>

definition context_owner :: "env \<Rightarrow> gostr \<Rightarrow> int option op" where
  "context_owner E hash =
     bnd (ask (a_ostr E) (Redis (RGet (context_owner_key hash)))) (\<lambda>v.
     case v of
       Inl e \<Rightarrow> ret None
     | Inr None \<Rightarrow> ret None
     | Inr (Some s) \<Rightarrow> (case parse_int 64 s of
           None \<Rightarrow> thenI (del_key E (context_owner_key hash)) (ret None)
         | Some i \<Rightarrow> ret (Some i)))"

definition remember_context_owner :: "env \<Rightarrow> gostr \<Rightarrow> int \<Rightarrow> unit op" where
  "remember_context_owner E hash mid =
     thenI (ask_err (a_err E) (Redis (RSet (context_owner_key hash) (itoa mid) context_owner_ttl))) (ret ())"

definition localize_segment :: "gostr \<Rightarrow> video_segment \<Rightarrow> video_segment res" where
  "localize_segment target s = new_video_segment (vs_start s) (vs_end s) (vs_transcript s) (vs_ocr s)
     (if vs_frames s \<noteq> [] then [target @ ''#timestampMs='' @ itoa (vs_start s)] else [])"

text \<open>ReusableContext.\<close>

definition localize_context :: "gostr \<Rightarrow> video_context \<Rightarrow> video_context res" where
  "localize_context target c = (case map_res (localize_segment target) (vc_segments c) of
      Inl e \<Rightarrow> Inl e | Inr segs \<Rightarrow> new_video_context target [] segs)"

definition reuse_content_context :: "env \<Rightarrow> media_file \<Rightarrow> gostr \<Rightarrow> gostr \<Rightarrow> video_context option opE" where
  "reuse_content_context E mf goal hash =
     bnd (context_owner E hash) (\<lambda>owner.
     case owner of
       None \<Rightarrow> okE None
     | Some oid \<Rightarrow>
        (if oid = mf_id mf then okE None
         else bindE (load_context E oid) (\<lambda>c.
           case c of
             None \<Rightarrow> bindE (ask_err (a_err E) (Redis (RDel [context_owner_key hash]))) (\<lambda>_. okE None)
           | Some oc \<Rightarrow>
              (case localize_context (mf_path mf) oc of
                 Inl e \<Rightarrow> failE e
               | Inr lc \<Rightarrow>
                   bindE (save_context E (mf_id mf) lc) (\<lambda>_.
                   thenI (count_up ''contextContentReuses'')
                     (case new_video_context (vc_source lc) goal (vc_segments lc) of
                        Inl e \<Rightarrow> failE e | Inr out \<Rightarrow> okE (Some out)))))))"

section \<open>Building under the context lock\<close>

definition build_context :: "env \<Rightarrow> media_file \<Rightarrow> gostr \<Rightarrow> gostr \<Rightarrow> analysis_mode \<Rightarrow> video_context opE" where
  "build_context E mf goal hash mode =
     bindE (publish_analysis E (mf_id mf) goal mode (status_of StateProcessing m_extracting) StageVideoContext) (\<lambda>_.
     bnd (now_ms E) (\<lambda>started.
     let record = (\<lambda>ok. bnd (now_ms E) (\<lambda>now. record_stage StageVideoContext (now - started) ok)) in
     catchE (build E (mf_path mf) goal)
       (\<lambda>e. thenI (record False) (failE e))
       (\<lambda>vc. catchE (save_context E (mf_id mf) vc)
          (\<lambda>e. thenI (delete_evidence_frames E (Some vc)) (thenI (record False) (failE e)))
          (\<lambda>_. thenI (remember_context_owner E hash (mf_id mf)) (thenI (record True) (okE vc))))))"

definition checkpoint_hit :: "gostr \<Rightarrow> video_context \<Rightarrow> video_context opE" where
  "checkpoint_hit goal c = thenI (count_up ''contextCheckpointHits'') (ret (new_video_context (vc_source c) goal (vc_segments c)))"

definition locked_context :: "env \<Rightarrow> media_file \<Rightarrow> gostr \<Rightarrow> gostr \<Rightarrow> analysis_mode \<Rightarrow> lock option \<Rightarrow> video_context opE" where
  "locked_context E mf goal hash mode lk =
     bindE (load_context E (mf_id mf)) (\<lambda>own.
     case own of
       Some c \<Rightarrow> checkpoint_hit goal c
     | None \<Rightarrow>
         bindE (reuse_content_context E mf goal hash) (\<lambda>reused.
         case reused of
           Some vc \<Rightarrow> okE vc
         | None \<Rightarrow>
            (case lk of
               None \<Rightarrow> thenI (count_up ''contextLockContentions'') (failE (Internal m_context_building None))
             | Some l \<Rightarrow> build_context E mf goal hash mode)))"

definition resolve_context :: "env \<Rightarrow> media_file \<Rightarrow> gostr \<Rightarrow> analysis_mode \<Rightarrow> video_context opE" where
  "resolve_context E mf goal mode =
     bindE (load_context E (mf_id mf)) (\<lambda>cp.
     case cp of
       Some c \<Rightarrow> checkpoint_hit goal c
     | None \<Rightarrow>
         bindE (content_hash E (mf_id mf)) (\<lambda>raw.
         let hash = normalize_content_hash (mf_id mf) raw in
         bindE (reuse_content_context E mf goal hash) (\<lambda>reused.
         case reused of
           Some vc \<Rightarrow> okE vc
         | None \<Rightarrow>
             catchE (try_lock E default_locker (context_lock_key hash) context_lock_wait)
               (\<lambda>e. failE (Internal m_lock_interrupted (Some e)))
               (\<lambda>lk. bnd (locked_context E mf goal hash mode lk) (\<lambda>r.
                     thenI (release_if_held E lk) (ret r))))))"

section \<open>The task\<close>

definition persist_result :: "env \<Rightarrow> media_file \<Rightarrow> gostr \<Rightarrow> gostr option \<Rightarrow> unit opE" where
  "persist_result E mf markdown transcript =
     bindE (ask_err (a_err E) (Media (DUpdateAnalysis (mf_id mf) markdown transcript))) (\<lambda>_.
     thenI (invalidate_user_list E (mf_user mf)) (okE ()))"

text \<open>A finished result is attached without running the agent; \<open>True\<close> means the task is done.\<close>

definition try_checkpoint :: "env \<Rightarrow> media_file \<Rightarrow> gostr \<Rightarrow> analysis_mode \<Rightarrow> bool opE" where
  "try_checkpoint E mf goal mode =
     bindE (has_result E (mf_id mf) goal mode) (\<lambda>has.
     if \<not> has then okE False
     else bindE (ask (a_result E) (Agent (AResult (mf_id mf) goal mode))) (\<lambda>res.
       if rr_found res then
         bindE (persist_result E mf (deref0 (rr_markdown res)) None) (\<lambda>_. thenI (count_up ''checkpointHits'') (okE True))
       else okE False))"

definition agent_phase :: "env \<Rightarrow> media_file \<Rightarrow> gostr \<Rightarrow> analysis_mode \<Rightarrow> gostr \<Rightarrow> hist \<Rightarrow> video_context \<Rightarrow> unit opE" where
  "agent_phase E mf goal mode trace h0 vc =
     bindE (publish_analysis E (mf_id mf) goal mode (status_of StateProcessing m_context_ready) StageAgentLoop) (\<lambda>_.
     bnd get_hist (\<lambda>h.
     bindE (ask (a_str E) (Agent (ARun (Some (mf_user mf)) (mf_id mf) goal mode (seed_snapshot trace h0 h)))) (\<lambda>markdown.
     persist_result E mf markdown (Some (transcript_text vc)))))"

definition analysis_body :: "env \<Rightarrow> media_file \<Rightarrow> gostr \<Rightarrow> analysis_mode \<Rightarrow> gostr \<Rightarrow> hist \<Rightarrow> (task_stage \<times> unit res) op" where
  "analysis_body E mf goal mode trace h0 =
     catchE (try_checkpoint E mf goal mode) (\<lambda>e. ret (StageVideoContext, Inl e)) (\<lambda>finished.
     if finished then ret (StageVideoContext, Inr ())
     else catchE (resolve_context E mf goal mode) (\<lambda>e. ret (StageVideoContext, Inl e)) (\<lambda>vc.
       bnd (agent_phase E mf goal mode trace h0 vc) (\<lambda>r. ret (StageAgentLoop, r))))"

definition wrap_analysis_error :: "goerr \<Rightarrow> goerr" where
  "wrap_analysis_error e =
     (if is_typed e \<and> err_kind e = KindBudgetExhausted then e else Internal ''AI analysis failed'' (Some e))"

definition finish_analysis :: "env \<Rightarrow> int \<Rightarrow> gostr \<Rightarrow> analysis_mode \<Rightarrow> task_stage \<times> unit res \<Rightarrow> unit opE" where
  "finish_analysis E mid goal mode sr = (case sr of (stage, r) \<Rightarrow>
     (case r of Inr _ \<Rightarrow> okE ()
      | Inl e \<Rightarrow> thenI (save_failure E mid goal mode stage e) (failE (wrap_analysis_error e))))"

definition async_analyze :: "env \<Rightarrow> int \<Rightarrow> gostr \<Rightarrow> analysis_mode \<Rightarrow> unit opE" where
  "async_analyze E mid goal mode0 =
     (let mode = resolve_mode mode0 in
      bnd (new_uuid E) (\<lambda>trace.
      bnd get_hist (\<lambda>h0.
      bindE (ask (a_media E) (Media (DFindMedia mid))) (\<lambda>m.
      case m of
        None \<Rightarrow> failE (InvalidArgument (''media does not exist: '' @ itoa mid))
      | Some mf \<Rightarrow> bnd (analysis_body E mf goal mode trace h0) (finish_analysis E mid goal mode)))))"

definition reuse_result :: "env \<Rightarrow> int \<Rightarrow> int \<Rightarrow> gostr \<Rightarrow> analysis_mode \<Rightarrow> reuse_response opE" where
  "reuse_result E mid src goal mode =
     bindE (ask (a_media E) (Media (DFindMedia mid))) (\<lambda>m.
     case m of
       None \<Rightarrow> failE (InvalidArgument (''media does not exist: '' @ itoa mid))
     | Some mf \<Rightarrow>
         bindE (ask (a_reuse E) (Agent (AReuse mid src goal mode (mf_path mf)))) (\<lambda>res.
         if \<not> ru_reused res then okE res
         else bindE (persist_result E mf (deref0 (ru_markdown res)) None) (\<lambda>_. okE res)))"

section \<open>Facts\<close>

lemma extends_analyzer [ext_intros]:
  "extends (context_owner E hash)" "extends (remember_context_owner E hash mid)"
  "extends (persist_result E mf markdown transcript)"
  unfolding context_owner_def remember_context_owner_def persist_result_def by (intro ext_intros)+

lemma extends_reuse_content_context [ext_intros]: "extends (reuse_content_context E mf goal hash)"
  unfolding reuse_content_context_def by (intro ext_intros)

lemma extends_build_context [ext_intros]: "extends (build_context E mf goal hash mode)"
  unfolding build_context_def Let_def by (intro ext_intros)

lemma extends_locked_context [ext_intros]: "extends (checkpoint_hit goal c)" "extends (locked_context E mf goal hash mode lk)"
  unfolding locked_context_def checkpoint_hit_def by (intro ext_intros)+

lemma extends_resolve_context [ext_intros]: "extends (resolve_context E mf goal mode)"
  unfolding resolve_context_def Let_def by (intro ext_intros)

lemma extends_task [ext_intros]:
  "extends (try_checkpoint E mf goal mode)" "extends (agent_phase E mf goal mode trace h0 vc)"
  "extends (finish_analysis E mid goal mode sr)"
  unfolding try_checkpoint_def agent_phase_def finish_analysis_def by (intro ext_intros)+

lemma extends_analysis_body [ext_intros]: "extends (analysis_body E mf goal mode trace h0)"
  unfolding analysis_body_def by (intro ext_intros)

lemma extends_async_analyze [ext_intros]: "extends (async_analyze E mid goal mode)"
  unfolding async_analyze_def Let_def by (intro ext_intros)

lemma extends_reuse_result [ext_intros]: "extends (reuse_result E mid src goal mode)"
  unfolding reuse_result_def by (intro ext_intros)

text \<open>The calls of a task.  Plain calls neither use Kafka nor the failure ledger, release no idempotency
  key, register no context owner and start no process; building a context adds local calls, and the
  registration of the owner is the one exception.\<close>

abbreviation "active_prefix \<equiv> ''analysis:active:''"
abbreviation "owner_prefix \<equiv> ''analysis:context-owner:''"

definition plain_call :: "call \<Rightarrow> bool" where
  "plain_call c = (case c of
      Kafka k \<Rightarrow> False
    | Ledger (DInsertFailed t) \<Rightarrow> False
    | Redis (RDel ks) \<Rightarrow> list_all (\<lambda>k. \<not> has_prefix k active_prefix) ks
    | Redis (RSet k v t) \<Rightarrow> \<not> has_prefix k owner_prefix
    | Os (OProc p a) \<Rightarrow> False
    | _ \<Rightarrow> True)"

definition worker_call :: "call \<Rightarrow> bool" where
  "worker_call c = (plain_call c \<or> local_call c \<or> (\<exists>k v t. c = Redis (RSet k v t)))"

lemma plain_call_simps [simp]:
  "plain_call (Redis (RGet k))" "plain_call (Redis (RHGet k f))" "plain_call (Redis (RHDel k fs))" "plain_call (Redis (RPipe ps))"
  "plain_call (Redis (RHSet k kvs))" "plain_call (Redis (RExpire k ttl))" "plain_call (Redis (RHExists k f))"
  "plain_call (Redis (RPublish ch k ev))" "plain_call (Redis (RSetNX k v ttl))" "plain_call (Redis (REval sc k as))"
  "plain_call (Media m)" "plain_call (Ledger (DFindPayload i n))" "plain_call (Ledger (DFindStage i n))"
  "plain_call (Ledger (DUpsert i n st p))" "plain_call (Ledger (DUpsertPair i n n' st p'))" "plain_call (Agent a)"
  "plain_call (Store x)" "plain_call (Os ONow)" "plain_call (Os (OSleep d))" "plain_call (Os (ORandom r))" "plain_call (Os ONewUUID)"
  "plain_call (Os (OIsHeld t))" "plain_call (Os (OPublishLocal k ev))" "plain_call (Os (OCount n))" "plain_call (Os (OStage n d b))"
  "plain_call (Redis (RDel ks)) = list_all (\<lambda>k. \<not> has_prefix k active_prefix) ks"
  "plain_call (Redis (RSet k v ttl)) = (\<not> has_prefix k owner_prefix)"
  by (simp_all add: plain_call_def)

lemma key_prefixes [simp]:
  "\<not> has_prefix (user_list_key uid) active_prefix" "\<not> has_prefix (context_owner_key hash) active_prefix"
  "\<not> has_prefix (md5_key mid) active_prefix" "\<not> has_prefix (md5_key mid) owner_prefix"
  "\<not> has_prefix (''transcription:active:'' @ s) active_prefix" "\<not> has_prefix (''transcription:state:'' @ s) active_prefix"
  "has_prefix (context_owner_key hash) owner_prefix"
  by (simp_all add: has_prefix_def user_list_key_def context_owner_key_def md5_key_def)

lemma plain_lock: "lock_call key c \<Longrightarrow> plain_call c" "release_call c \<Longrightarrow> plain_call c"
  by (auto simp: lock_call_def release_call_def)

lemma plain_basic [use_intros]:
  "uses plain_call (now_ms E)" "uses plain_call (count_up n)" "uses plain_call (record_stage n d b)" "uses plain_call (new_uuid E)"
  "uses plain_call (hdel E key fs)" "uses plain_call (cache_field E key f p st)" "uses plain_call (cache_stage E key st)"
  "uses plain_call (remember_goal_key E mid key)" "uses plain_call (publish_event E key ev)"
  "uses plain_call (invalidate_user_list E uid)" "uses plain_call (remember_content_hash E mid h)"
  unfolding now_ms_def count_up_def record_stage_def new_uuid_def hdel_def cache_field_def cache_stage_def remember_goal_key_def
    publish_event_def invalidate_user_list_def del_key_def remember_content_hash_def
  by (intro use_intros; simp)+

lemma plain_checkpoint [use_intros]:
  "uses plain_call (load_context_db E mid)" "uses plain_call (load_context E mid)" "uses plain_call (save_context E mid vc)"
  "uses plain_call (save_stage E mid goal mode st)" "uses plain_call (save_failure E mid goal mode st e)"
  "uses plain_call (has_result E mid goal mode)"
  unfolding load_context_db_def load_context_def save_context_def save_stage_def save_failure_def has_result_def Let_def
  by (intro use_intros; simp)+

lemma plain_lock_ops [use_intros]: "uses plain_call (try_lock E opts key wait)" "uses plain_call (release_if_held E lk)"
  by (rule uses_mono [OF uses_try_lock] uses_mono [OF uses_release_if_held], simp add: plain_lock)+

lemma plain_parts [use_intros]:
  "uses plain_call (publish_analysis E mid goal mode st sg)" "uses plain_call (content_hash E mid)"
  "uses plain_call (context_owner E hash)" "uses plain_call (persist_result E mf md tr)" "uses plain_call (checkpoint_hit goal c)"
  "uses plain_call (media_exists E mid)"
  unfolding publish_analysis_def content_hash_def context_owner_def persist_result_def checkpoint_hit_def del_key_def media_exists_def Let_def
  by (intro use_intros; simp)+

lemma plain_reuse [use_intros]:
  "uses plain_call (reuse_content_context E mf goal hash)" "uses plain_call (try_checkpoint E mf goal mode)"
  "uses plain_call (agent_phase E mf goal mode trace h0 vc)" "uses plain_call (finish_analysis E mid goal mode sr)"
  "uses plain_call (reuse_result E mid src goal mode)"
  unfolding reuse_content_context_def try_checkpoint_def agent_phase_def finish_analysis_def reuse_result_def
  by (intro use_intros; simp)+

lemma plain_frames [use_intros]: "uses plain_call (delete_evidence_frames E vc)"
  unfolding delete_evidence_frames_def delete_frames_def remove_file_def remove_object_def
  by (intro use_intros; simp)

lemma plain_purge [use_intros]: "uses plain_call (purge_runtime_artifacts E mid)"
  unfolding purge_runtime_artifacts_def by (intro use_intros; simp add: has_prefix_def md5_key_def)

text \<open>All the calls of a task.\<close>

lemma worker_of_plain: "uses plain_call m \<Longrightarrow> uses worker_call m"
  by (erule uses_mono) (simp add: worker_call_def)

lemma worker_of_local: "uses local_call m \<Longrightarrow> uses worker_call m"
  by (erule uses_mono) (simp add: worker_call_def)

lemma worker_remember_owner: "uses worker_call (remember_context_owner E hash mid)"
  unfolding remember_context_owner_def by (intro use_intros) (simp add: worker_call_def)

lemma worker_ask: "plain_call c \<Longrightarrow> uses worker_call (ask ans c)" "plain_call c \<Longrightarrow> uses worker_call (ask_err ans' c)"
  by (auto intro!: use_intros simp: worker_call_def)

lemmas use_struct = uses_bnd uses_bindE uses_catchE uses_thenI uses_if uses_case_option uses_case_sum uses_case_prod
  uses_okE uses_failE uses_ret uses_get_hist

lemma worker_build_context: "uses worker_call (build_context E mf goal hash mode)"
  unfolding build_context_def Let_def
  by (rule use_struct worker_of_local [OF local_build] worker_remember_owner | (rule worker_of_plain, rule use_intros))+

lemma worker_resolve_context: "uses worker_call (resolve_context E mf goal mode)"
  unfolding resolve_context_def locked_context_def Let_def
  by (rule use_struct worker_build_context | (rule worker_of_plain, rule use_intros))+

lemma worker_async_analyze: "uses worker_call (async_analyze E mid goal mode)"
  unfolding async_analyze_def analysis_body_def Let_def
  by (rule use_struct worker_resolve_context worker_ask | simp only: plain_call_simps | (rule worker_of_plain, rule plain_basic plain_reuse))+

section \<open>What guards the build and the owner registration\<close>

definition lock_granted :: "env \<Rightarrow> hist \<Rightarrow> gostr \<Rightarrow> hist \<Rightarrow> bool" where
  "lock_granted E h key q \<longleftrightarrow> (\<exists>t. made (\<lambda>p c. a_bool E p c = Inr True) h (Redis (RSetNX key t (lo_ttl default_locker))) q)"

definition context_saved :: "env \<Rightarrow> hist \<Rightarrow> int \<Rightarrow> hist \<Rightarrow> bool" where
  "context_saved E h mid q \<longleftrightarrow> (\<exists>vc. made (acked E) h (Ledger (DUpsertPair mid ''media:context'' ''media:stage'' StageContextCompleted
     (enc_ctx E (reusable_context vc)))) q)"

definition context_guard :: "env \<Rightarrow> int \<Rightarrow> hist \<Rightarrow> hist \<Rightarrow> call \<Rightarrow> bool" where
  "context_guard E mid h p c =
     ((\<forall>prog args. c = Os (OProc prog args) \<longrightarrow> (\<exists>raw. lock_granted E h (context_lock_key (normalize_content_hash mid raw)) p)) \<and>
      (\<forall>k v t. c = Redis (RSet k v t) \<and> has_prefix k owner_prefix \<longrightarrow> v = itoa mid \<and> context_saved E h mid p))"

lemma guard_plain: "plain_call c \<Longrightarrow> context_guard E mid h p c"
  by (auto simp: context_guard_def plain_call_def)

lemma guarded_snoc: "guarded G h q \<Longrightarrow> G q c \<Longrightarrow> guarded G h (q @ [c])"
  by (rule guarded_append) simp_all

lemma lock_granted_snoc: "lock_granted E h key q \<Longrightarrow> lock_granted E h key (q @ xs)"
  unfolding lock_granted_def by (blast intro: made_later prefixI)

lemma context_saved_snoc: "context_saved E h mid q \<Longrightarrow> context_saved E h mid (q @ xs)"
  unfolding context_saved_def by (blast intro: made_later prefixI)

lemma lock_granted_earlier: "lock_granted E p key q \<Longrightarrow> prefix h p \<Longrightarrow> lock_granted E h key q"
  unfolding lock_granted_def by (blast intro: made_earlier)

lemma keeps_plain: "uses plain_call m \<Longrightarrow> keeps (guarded (context_guard E mid h) h) m"
  by (erule keeps_uses) (blast intro: guarded_snoc guard_plain)

lemma keeps_plain_lock:
  "uses plain_call m \<Longrightarrow> keeps (\<lambda>q. guarded (context_guard E mid h) h q \<and> lock_granted E h key q) m"
  by (erule keeps_uses) (blast intro: guarded_snoc guard_plain lock_granted_snoc)

lemma keeps_plain_saved:
  "uses plain_call m \<Longrightarrow> keeps (\<lambda>q. guarded (context_guard E mid h) h q \<and> context_saved E h mid q) m"
  by (erule keeps_uses) (blast intro: guarded_snoc guard_plain context_saved_snoc)

lemma keeps_build:
  "keeps (\<lambda>q. guarded (context_guard E mid h) h q \<and> lock_granted E h (context_lock_key (normalize_content_hash mid raw)) q) (build E v g)"
  by (rule keeps_uses [OF local_build])
     (auto intro!: guarded_snoc lock_granted_snoc simp: context_guard_def local_call_def split: call.splits)

lemma keeps_owner:
  "keeps (\<lambda>q. guarded (context_guard E mid h) h q \<and> context_saved E h mid q) (remember_context_owner E hash mid)"
  by (auto simp: keeps_wp remember_context_owner_def wp_simps context_guard_def split: option.splits
      intro!: guarded_snoc context_saved_snoc)

lemma wp_save_guard:
  assumes "guarded (context_guard E mid h) h p"
  shows "wp (save_context E mid vc) (\<lambda>r q. guarded (context_guard E mid h) h q \<and> (\<forall>x. r = Inr x \<longrightarrow> context_saved E h mid q)) p"
  unfolding wp_conj
proof
  show "wp (save_context E mid vc) (\<lambda>r. guarded (context_guard E mid h) h) p"
    by (rule wp_keeps [OF keeps_plain [OF plain_checkpoint(3)] assms])
  show "wp (save_context E mid vc) (\<lambda>r q. \<forall>x. r = Inr x \<longrightarrow> context_saved E h mid q) p"
    by (rule wp_mono [OF wp_save_context])
       (auto simp: context_saved_def intro: made_earlier [OF _ guarded_prefix [OF assms]])
qed

lemma keeps_save:
  "keeps (guarded (context_guard E (mf_id mf) h) h)
     (catchE (save_context E (mf_id mf) vc)
       (\<lambda>e. thenI (delete_evidence_frames E (Some vc)) (thenI (bnd (now_ms E) (\<lambda>now. record_stage st (now - t0) False)) (failE e)))
       (\<lambda>_. thenI (remember_context_owner E hash (mf_id mf))
          (thenI (bnd (now_ms E) (\<lambda>now. record_stage st (now - t0) True)) (okE vc))))"
proof (rule keeps_catchE_post [where R = "\<lambda>_. context_saved E h (mf_id mf)"])
  show "keeps (guarded (context_guard E (mf_id mf) h) h) (thenI (delete_evidence_frames E (Some vc))
     (thenI (bnd (now_ms E) (\<lambda>now. record_stage st (now - t0) False)) (failE e)))" for e
    by (intro keeps_plain use_intros)
  show "keeps (\<lambda>q. guarded (context_guard E (mf_id mf) h) h q \<and> context_saved E h (mf_id mf) q)
     (thenI (remember_context_owner E hash (mf_id mf)) (thenI (bnd (now_ms E) (\<lambda>now. record_stage st (now - t0) True)) (okE vc)))"
    by (rule keeps_thenI [OF keeps_owner]) (intro keeps_plain_saved use_intros)
qed (rule wp_save_guard)

lemma keeps_build_context:
  fixes mid raw
  defines "key \<equiv> context_lock_key (normalize_content_hash mid raw)"
  assumes "mf_id mf = mid"
  shows "keeps (\<lambda>q. guarded (context_guard E mid h) h q \<and> lock_granted E h key q) (build_context E mf goal hash mode)"
proof -
  have save: "keeps (\<lambda>q. guarded (context_guard E mid h) h q \<and> lock_granted E h key q)
     (catchE (save_context E (mf_id mf) vc)
       (\<lambda>e. thenI (delete_evidence_frames E (Some vc)) (thenI (bnd (now_ms E) (\<lambda>now. record_stage st (now - t0) False)) (failE e)))
       (\<lambda>_. thenI (remember_context_owner E hash (mf_id mf))
          (thenI (bnd (now_ms E) (\<lambda>now. record_stage st (now - t0) True)) (okE vc))))" (is "keeps _ ?m") for vc st t0
  proof (unfold keeps_wp wp_conj, intro allI impI conjI)
    fix p assume p: "guarded (context_guard E mid h) h p \<and> lock_granted E h key p"
    then show "wp ?m (\<lambda>r. guarded (context_guard E mid h) h) p"
      using keeps_save [of E mf h] assms(2) by (auto intro: wp_keeps)
    have "extends ?m" by (intro ext_intros)
    with p show "wp ?m (\<lambda>r. lock_granted E h key) p"
      using lock_granted_snoc by (auto simp: wp_def dest!: extendsD [of _ p] elim!: prefixE)
  qed
  show ?thesis
    unfolding build_context_def Let_def
    by (intro keep_intros save; (rule keeps_build [of E mid h raw, folded key_def])?; (intro keeps_plain_lock use_intros)?)
qed

lemma keeps_locked_context:
  assumes "mf_id mf = mid"
  shows "keeps (\<lambda>q. guarded (context_guard E mid h) h q \<and>
     (lk \<noteq> None \<longrightarrow> lock_granted E h (context_lock_key (normalize_content_hash mid raw)) q)) (locked_context E mf goal hash mode lk)"
proof (cases lk)
  case None
  then have "uses plain_call (locked_context E mf goal hash mode lk)"
    unfolding locked_context_def by (auto intro!: use_intros)
  with None show ?thesis by (simp add: keeps_plain)
next
  case (Some l)
  then show ?thesis
    unfolding locked_context_def
    by simp (intro keep_intros keeps_build_context [OF assms]; intro keeps_plain_lock use_intros)
qed

lemma wp_lock_guard:
  assumes "guarded G h p" and "\<And>q c. lock_call key c \<Longrightarrow> G q c"
  shows "wp (try_lock E default_locker key w) (\<lambda>r q. guarded G h q \<and>
     (\<forall>lk. r = Inr lk \<longrightarrow> lk \<noteq> None \<longrightarrow> lock_granted E h key q)) p"
  unfolding wp_conj
proof
  show "wp (try_lock E default_locker key w) (\<lambda>r. guarded G h) p"
    by (rule wp_mono [OF wp_guarded [OF uses_try_lock assms(1)]]) (use assms(2) in auto)
  show "wp (try_lock E default_locker key w) (\<lambda>r q. \<forall>lk. r = Inr lk \<longrightarrow> lk \<noteq> None \<longrightarrow> lock_granted E h key q) p"
  proof (rule wp_mono [OF wp_try_lock], intro allI impI)
    fix r q lk
    assume "\<forall>l. r = Inr (Some l) \<longrightarrow> (\<exists>t. l = new_lock key t \<and>
        made (\<lambda>p c. a_bool E p c = Inr True) p (Redis (RSetNX key t (lo_ttl default_locker))) q)" "r = Inr lk" "lk \<noteq> None"
    then have "lock_granted E p key q" by (auto simp: lock_granted_def)
    then show "lock_granted E h key q" by (rule lock_granted_earlier [OF _ guarded_prefix [OF assms(1)]])
  qed
qed

lemma keeps_resolve_context:
  assumes "mf_id mf = mid"
  shows "keeps (guarded (context_guard E mid h) h) (resolve_context E mf goal mode)"
proof -
  have release: "keeps (\<lambda>q. guarded (context_guard E mid h) h q \<and> (lk \<noteq> None \<longrightarrow> lock_granted E h key q))
      (thenI (release_if_held E lk) (ret r))" for lk key r
    by (rule keeps_uses [of plain_call]) (auto intro!: use_intros intro: guarded_snoc guard_plain lock_granted_snoc)
  have lock: "keeps (guarded (context_guard E mid h) h)
     (catchE (try_lock E default_locker (context_lock_key (normalize_content_hash mid raw)) w) (\<lambda>e. failE (f e))
       (\<lambda>lk. bnd (locked_context E mf goal hash mode lk) (\<lambda>r. thenI (release_if_held E lk) (ret r))))" for raw w f hash
    by (rule keeps_catchE_post [OF wp_lock_guard])
       (assumption, erule guard_plain [OF plain_lock(1)], rule keeps_ret, rule keeps_bnd [OF keeps_locked_context [OF assms] release])
  show ?thesis
    unfolding resolve_context_def Let_def assms
    by (rule keeps_bindE keeps_case_option lock keeps_ret | (rule keeps_plain, rule use_intros))+
qed

lemma keeps_async_analyze:
  assumes "\<And>p mf. a_media E p (Media (DFindMedia mid)) = Inr (Some mf) \<Longrightarrow> mf_id mf = mid"
  shows "wp (async_analyze E mid goal mode) (\<lambda>r. guarded (context_guard E mid h) h) h"
proof -
  let ?G = "guarded (context_guard E mid h) h"
  have "keeps ?G (analysis_body E mf goal md trace h0)" if "mf_id mf = mid" for mf md trace h0
    unfolding analysis_body_def
    by (intro keep_intros keeps_resolve_context [OF that]; intro keeps_plain use_intros)
  then have body: "keeps ?G (bnd (analysis_body E mf goal md trace h0) (finish_analysis E mid goal md))"
    if "mf_id mf = mid" for mf md trace h0
    using that by (intro keeps_bnd) (auto intro: keeps_plain use_intros)
  have plain: "?G p \<Longrightarrow> plain_call c \<Longrightarrow> ?G (p @ [c])" for p c
    by (rule guarded_snoc) (auto intro: guard_plain)
  have find: "wp (bnd (analysis_body E mf goal md trace h0) (finish_analysis E mid goal md)) (\<lambda>r. ?G)
      (h @ [Os ONewUUID, Media (DFindMedia mid)])" if "mf_id mf = mid" for mf md trace h0
    using plain [of "h @ [Os ONewUUID]"] plain [of h] by (intro wp_keeps [OF body [OF that]]) simp
  show ?thesis
    unfolding async_analyze_def Let_def wp_bindE wp_bnd [of "new_uuid E"] wp_bnd [of get_hist] wp_new_uuid wp_get_hist wp_ask
    using plain [of "h @ [Os ONewUUID]"] plain [of h] by (auto intro!: find dest: assms simp: wp_failE split: sum.splits option.splits)
qed

section \<open>Properties\<close>


text \<open>A registered context owner is readable: an analysis names a media as the owner of a content
  hash only after MySQL acknowledged that media's own context.\<close>

theorem context_owner_readable:
  assumes "\<forall>p mf. a_media E p (Media (DFindMedia mid)) = Inr (Some mf) \<longrightarrow> mf_id mf = mid"
    and "Redis (RSet (context_owner_key hash) v ttl) \<in> set (calls (async_analyze E mid goal mode) h)"
  shows "v = itoa mid \<and> (\<exists>p vc. prefix (p @ [Redis (RSet (context_owner_key hash) v ttl)]) (final (async_analyze E mid goal mode) h) \<and>
    made (acked E) h (Ledger (DUpsertPair mid ''media:context'' ''media:stage'' StageContextCompleted
      (enc_ctx E (reusable_context vc)))) p)"
proof -
  have "guarded (context_guard E mid h) h (final (async_analyze E mid goal mode) h)"
    using keeps_async_analyze assms(1) by (simp add: wp_def)
  from guarded_mem [OF this] assms(2) show ?thesis
    by (fastforce simp: calls_def context_guard_def context_saved_def)
qed

definition mf7 :: media_file where
  "mf7 = \<lparr>mf_id = 7, mf_user = 1, mf_filename = ''v.mp4'', mf_status = ''COMPLETED'', mf_path = ''v.mp4'', mf_hash = None,
     mf_summary = None, mf_transcript = None, mf_cover = None, mf_uploaded = 0\<rparr>"

definition env_an :: env where
  "env_an = env0\<lparr>a_media := (\<lambda>h c. Inr (Some mf7)), a_strs := (\<lambda>h c. Inr [''a'']),
     a_err := (\<lambda>h c. if c = Os (OSubmit ''ocr'') then Some Canceled else None)\<rparr>"

lemma env_an_answers:
  "a_err env_an h c = (if c = Os (OSubmit ''ocr'') then Some Canceled else None)" "a_bool env_an h c = Inr True"
  "a_media env_an h c = Inr (Some mf7)" "a_strs env_an h c = Inr [''a'']" "a_ostr env_an h c = Inr None" "a_text env_an h c = ''u''"
  "a_proc env_an h c = ProcOk []" "a_http env_an h c = HttpResp 200 (Inr (Some ''t''))" "a_str env_an h c = Inr ''s''"
  "mn_endpoint env_an = ''http://m''" "mn_bucket env_an = ''b''" "sha256 env_an s = s" "rr_found (projr (a_result env_an h c)) = False"
  by (simp_all add: env_an_def env0_def)

lemma text_an: "\<not> is_blank ''t''" "trim_space ''t'' = ''t''" "\<not> is_blank ''v.mp4''" "\<not> is_blank ''g''" "trim_space ''g'' = ''g''"
  by (simp_all add: str_eval)

lemma build_an:
  "wp (build env_an ''v.mp4'' ''g'') (\<lambda>r q. (\<exists>vc. r = Inr vc) \<and>
     Os (OProc ''ffmpeg'' (ffmpeg_segment_args ''v.mp4'' ''/tmp/video-context-u/audio/audio_%03d.mp3'')) \<in> set q) h"
  by (simp add: build_def readable_source_def presigned_def object_root_def has_prefix_def wp_simps asr_branch_def ocr_branch_def
     transcribe_def run_ffmpeg_def regular_files_def Let_def delete_frames_def text_an new_transcript_segment_def
     merge_parts_def new_video_context_def add_transcript_def window_start_def builder_at_def new_builder_def new_video_segment_def
     audio_to_text_def inc_def is_regular_def asr_execute_def finish_def env_an_answers
     asr_max_attempts_def eval_nat_numeral asr_response_def remove_all_def)

lemma digest_an: "goal_digest env_an ''g'' ''GENERAL'' = Inr (sha256_hex env_an (trim_control ''g''))"
  by (simp add: goal_digest_def text_an)

lemma load_an: "wp (load_context env_an mid) Q h = Q (Inr None) (h @ [Redis (RHGet (media_key mid) ''context''), Ledger (DFindPayload mid ''media:context'')])"
  by (simp add: load_context_def load_context_db_def wp_simps env_an_answers)

lemma reuse_an: "wp (reuse_content_context env_an mf goal hash) Q h = Q (Inr None) (h @ [Redis (RGet (context_owner_key hash))])"
  by (simp add: reuse_content_context_def context_owner_def wp_simps env_an_answers)

lemma build_context_an:
  "wp (build_context env_an mf7 ''g'' hash ''GENERAL'') (\<lambda>r q. 
     Os (OProc ''ffmpeg'' (ffmpeg_segment_args ''v.mp4'' ''/tmp/video-context-u/audio/audio_%03d.mp3'')) \<in> set q \<and>
     Redis (RSet (context_owner_key hash) (itoa 7) context_owner_ttl) \<in> set q) h"
proof -
  have "mf_path mf7 = ''v.mp4''" "mf_id mf7 = 7" by (simp_all add: mf7_def)
  then show ?thesis
    by (auto simp: build_context_def publish_analysis_def event_key_def digest_an Let_def publish_event_def save_context_def
        cache_field_def remember_context_owner_def wp_simps env_an_answers intro!: wp_mono [OF build_an])
qed

lemma run_an:
  "wp (async_analyze env_an 7 ''g'' ''GENERAL'') (\<lambda>r q. 
     Os (OProc ''ffmpeg'' (ffmpeg_segment_args ''v.mp4'' ''/tmp/video-context-u/audio/audio_%03d.mp3'')) \<in> set q \<and>
     Redis (RSet (context_owner_key (normalize_content_hash 7 [])) (itoa 7) context_owner_ttl) \<in> set q) []"
proof -
  have mf: "mf_path mf7 = ''v.mp4''" "mf_id mf7 = 7" "mf_hash mf7 = None" by (simp_all add: mf7_def)
  have keep: "wp m Q h" if "extends m" "x \<in> set h" "y \<in> set h" "\<And>r q. x \<in> set q \<Longrightarrow> y \<in> set q \<Longrightarrow> Q r q" for m :: "'a op" and x y h Q
    using extendsD [OF that(1), of h] that(2-4) by (auto simp: wp_def prefix_def)
  show ?thesis
    by (auto simp: async_analyze_def resolve_mode_def analysis_body_def try_checkpoint_def has_result_def goal_key_def goal_checkpoint_def
        digest_an wp_simps env_an_answers env_an_def [THEN arg_cong [of _ _ a_result]] env0_def resolve_context_def load_an reuse_an content_hash_def mf Let_def
        try_lock_def random_token_def poll_bound_def acquire_def locked_context_def
        split: sum.splits intro!: wp_mono [OF build_context_an] ext_intros elim!: keep [rotated])
qed
lemma calls_an:
  "Os (OProc ''ffmpeg'' (ffmpeg_segment_args ''v.mp4'' ''/tmp/video-context-u/audio/audio_%03d.mp3''))
     \<in> set (calls (async_analyze env_an 7 ''g'' ''GENERAL'') [])"
  "Redis (RSet (context_owner_key (normalize_content_hash 7 [])) (itoa 7) context_owner_ttl)
     \<in> set (calls (async_analyze env_an 7 ''g'' ''GENERAL'') [])"
  using run_an by (simp_all add: wp_def calls_def)


theorem context_owner_readable_witness:
  "\<exists>p vc. made (acked env_an) [] (Ledger (DUpsertPair 7 ''media:context'' ''media:stage'' StageContextCompleted
      (enc_ctx env_an (reusable_context vc)))) p"
  using context_owner_readable [OF _ calls_an(2)] by (fastforce simp: env_an_answers mf7_def)

end
