(* ===== verification/Mq.thy ===== *)
theory Mq
  imports TaskKeys
begin

text \<open>
  Records on the wire: internal/mq/topics.go (topic names), routing.go (where a failed attempt goes),
  headers.go (the task headers of a record and its decoding) and producer.go (publishing a first
  attempt).  A zero time is \<open>None\<close>; franz-go's synchronous produce is the call \<open>KProduce\<close>, whose
  answer is the first error of the broker's acknowledgement.
\<close>

section \<open>Topics (topics.go)\<close>

abbreviation "TopicAnalysis \<equiv> ''video.analysis''"
abbreviation "TopicRetry10s \<equiv> ''video.analysis.retry.10s''"
abbreviation "TopicRetry60s \<equiv> ''video.analysis.retry.60s''"
abbreviation "TopicDLQ \<equiv> ''video.analysis.dlq''"

definition topics :: "(gostr \<times> int) list" where
  "topics = [(TopicAnalysis, 6), (TopicRetry10s, 3), (TopicRetry60s, 3), (TopicDLQ, 1)]"

definition consumed_topics :: "gostr list" where
  "consumed_topics = [TopicAnalysis, TopicRetry10s, TopicRetry60s]"

section \<open>Routing (routing.go)\<close>

definition max_attempts :: int where "max_attempts = 3"

abbreviation "ReasonPermanent \<equiv> ''permanent''"
abbreviation "ReasonExhausted \<equiv> ''exhausted''"
abbreviation "ReasonPoison \<equiv> ''poison''"

record route =
  rt_topic :: gostr
  rt_delay :: int
  rt_reason :: gostr

text \<open>RetryDelays; a Go map returns the zero value for a missing key.\<close>

definition retry_delay :: "gostr \<Rightarrow> int" where
  "retry_delay t = (if t = TopicRetry10s then seconds 10 else if t = TopicRetry60s then seconds 60 else 0)"

definition route_failure :: "bool \<Rightarrow> int \<Rightarrow> route" where
  "route_failure permanent attempt =
     (if permanent then \<lparr>rt_topic = TopicDLQ, rt_delay = 0, rt_reason = ReasonPermanent\<rparr>
      else if attempt \<le> 1 then \<lparr>rt_topic = TopicRetry10s, rt_delay = retry_delay TopicRetry10s, rt_reason = []\<rparr>
      else if attempt < max_attempts
        then \<lparr>rt_topic = TopicRetry60s, rt_delay = retry_delay TopicRetry60s, rt_reason = []\<rparr>
      else \<lparr>rt_topic = TopicDLQ, rt_delay = 0, rt_reason = ReasonExhausted\<rparr>)"

section \<open>Headers (headers.go)\<close>

abbreviation "HeaderAttempt \<equiv> ''x-attempt''"
abbreviation "HeaderNotBefore \<equiv> ''x-not-before''"
abbreviation "HeaderFirstError \<equiv> ''x-first-error''"
abbreviation "HeaderDLQReason \<equiv> ''x-dlq-reason''"

definition max_first_error_bytes :: nat where "max_first_error_bytes = 512"

record delivery =
  dl_topic :: gostr
  dl_partition :: int
  dl_offset :: int
  dl_key :: gostr
  dl_value :: gostr
  dl_msg :: "analysis_task_msg option"
  dl_decode_err :: "goerr option"
  dl_attempt :: int
  dl_not_before :: "int option"
  dl_first_error :: gostr

text \<open>The first header of that name.\<close>

definition header :: "kafka_record \<Rightarrow> gostr \<Rightarrow> gostr option" where
  "header rec key = map_of (kr_headers rec) key"

definition decode_attempt :: "gostr option \<Rightarrow> int" where
  "decode_attempt v = (case Option.bind v atoi of Some n \<Rightarrow> if n > 0 then n else 1 | None \<Rightarrow> 1)"

definition decode_not_before :: "gostr option \<Rightarrow> int option" where
  "decode_not_before v = (case Option.bind v (parse_int 64) of Some ms \<Rightarrow> if ms > 0 then Some ms else None | None \<Rightarrow> None)"

definition decode_record :: "env \<Rightarrow> kafka_record \<Rightarrow> int \<Rightarrow> int \<Rightarrow> delivery" where
  "decode_record E rec prt off =
     \<lparr>dl_topic = kr_topic rec, dl_partition = prt, dl_offset = off, dl_key = kr_key rec, dl_value = kr_value rec,
      dl_msg = (case dec_msg E (kr_value rec) of Inl e \<Rightarrow> None | Inr m \<Rightarrow> m),
      dl_decode_err = (case dec_msg E (kr_value rec) of Inl e \<Rightarrow> Some e | Inr m \<Rightarrow> None),
      dl_attempt = decode_attempt (header rec HeaderAttempt),
      dl_not_before = decode_not_before (header rec HeaderNotBefore),
      dl_first_error = deref0 (header rec HeaderFirstError)\<rparr>"

text \<open>The loop of truncateBytes drops bytes until the string is valid UTF-8.\<close>

function chop_invalid :: "gostr \<Rightarrow> gostr" where
  "chop_invalid s = (if valid_utf8 s then s else chop_invalid (butlast s))"
  by pat_completeness auto
termination
proof (relation "measure length", goal_cases)
  case (2 s)
  then have "s \<noteq> []" by (auto simp: valid_utf8_def)
  then show ?case by simp
qed simp

declare chop_invalid.simps [simp del]

definition truncate_bytes :: "gostr \<Rightarrow> nat \<Rightarrow> gostr" where
  "truncate_bytes s n = (if length s \<le> n then s else chop_invalid (take n s))"

definition task_headers :: "int \<Rightarrow> int option \<Rightarrow> gostr \<Rightarrow> (gostr \<times> gostr) list \<Rightarrow> (gostr \<times> gostr) list" where
  "task_headers attempt not_before first_error extra =
     [(HeaderAttempt, itoa attempt)]
     @ (case not_before of None \<Rightarrow> [] | Some ms \<Rightarrow> [(HeaderNotBefore, itoa ms)])
     @ (if first_error \<noteq> [] then [(HeaderFirstError, truncate_bytes first_error max_first_error_bytes)] else [])
     @ extra"

section \<open>The producer (producer.go)\<close>

definition produce :: "env \<Rightarrow> kafka_record \<Rightarrow> unit opE" where
  "produce E rec = ask_err (a_err E) (Kafka (KProduce rec))"

definition task_record :: "env \<Rightarrow> analysis_task_msg \<Rightarrow> kafka_record" where
  "task_record E msg = \<lparr>kr_topic = TopicAnalysis, kr_key = deref0 (tm_hash msg), kr_value = enc_msg E msg,
     kr_headers = task_headers 1 None [] []\<rparr>"

definition publish_task :: "env \<Rightarrow> analysis_task_msg \<Rightarrow> unit opE" where
  "publish_task E msg = produce E (task_record E msg)"

section \<open>Facts\<close>

lemma extends_produce [ext_intros]: "extends (produce E rec)"
  unfolding produce_def by (intro ext_intros)

lemma extends_publish_task [ext_intros]: "extends (publish_task E msg)"
  unfolding publish_task_def by (intro ext_intros)

lemma wp_produce [wp_simps]:
  "wp (produce E rec) Q h = (case a_err E h (Kafka (KProduce rec)) of
     None \<Rightarrow> Q (Inr ()) (h @ [Kafka (KProduce rec)]) | Some e \<Rightarrow> Q (Inl e) (h @ [Kafka (KProduce rec)]))"
  by (simp add: produce_def wp_simps)

lemma wp_publish_task [wp_simps]:
  "wp (publish_task E msg) Q h = wp (produce E (task_record E msg)) Q h"
  by (simp add: publish_task_def)

lemma valid_utf8_Nil [simp]: "valid_utf8 []"
  by (simp add: valid_utf8_def)

lemma chop_invalid_prefix: "prefix (chop_invalid s) s \<and> valid_utf8 (chop_invalid s)"
proof (induction s rule: chop_invalid.induct)
  case (1 s)
  show ?case
  proof (cases "valid_utf8 s")
    case False
    then have "prefix (chop_invalid (butlast s)) (butlast s) \<and> valid_utf8 (chop_invalid (butlast s))"
      by (rule "1.IH")
    with False show ?thesis
      by (subst (1 2) chop_invalid.simps) (auto intro: prefix_order.trans prefixeq_butlast)
  qed (simp add: chop_invalid.simps)
qed

text \<open>Nothing longer that is valid is thrown away.\<close>

lemma chop_invalid_longest: "prefix t s \<Longrightarrow> valid_utf8 t \<Longrightarrow> length t \<le> length (chop_invalid s)"
proof (induction s rule: chop_invalid.induct)
  case (1 s)
  show ?case
  proof (cases "valid_utf8 s")
    case True
    with "1.prems" show ?thesis by (simp add: chop_invalid.simps prefix_length_le)
  next
    case False
    with "1.prems" have "t \<noteq> s" by auto
    with "1.prems"(1) have "prefix t (butlast s)"
      by (metis append_butlast_last_id prefix_bot.extremum_unique prefix_snoc butlast.simps(1))
    with "1.IH" [OF False this "1.prems"(2)] False show ?thesis
      by (subst chop_invalid.simps) simp
  qed
qed

lemma valid_utf8_take: "valid_utf8 s \<Longrightarrow> valid_utf8 (unrunes (take k (runes s)))"
  using runes_prefix [of s k] by (auto simp: valid_utf8_def list_all_iff dest: in_set_takeD)

lemma rune_boundary:
  assumes "n < length s"
  shows "\<exists>k. length (unrunes (take k (runes s))) \<le> n \<and> n < length (unrunes (take k (runes s))) + 4"
proof -
  let ?f = "\<lambda>k. length (unrunes (take k (runes s)))"
  have step: "?f (Suc k) \<le> ?f k + 4" for k
  proof (cases "k < length (runes s)")
    case True
    then have "take (Suc k) (runes s) = take k (runes s) @ [runes s ! k]" by (simp add: take_Suc_conv_app_nth)
    moreover have "length (snd (runes s ! k)) \<le> 4"
      using rune_bytes_4 [of "fst (runes s ! k)" "snd (runes s ! k)" s] nth_mem [OF True] by simp
    ultimately show ?thesis by (simp add: unrunes_def)
  qed (simp add: unrunes_def)
  have up: "\<exists>k. ?f k > n" using assms by (intro exI [of _ "length (runes s)"]) simp
  define m where "m = (LEAST k. ?f k > n)"
  have m: "?f m > n" unfolding m_def using up by (rule LeastI_ex)
  then obtain k where k: "m = Suc k" by (cases m) (auto simp: unrunes_def)
  then have "?f k \<le> n" using not_less_Least [of k "\<lambda>k. ?f k > n"] by (simp add: m_def)
  with step [of k] m k show ?thesis by (intro exI [of _ k]) auto
qed

text \<open>The first three headers win over whatever follows them.\<close>

lemma decode_task_headers:
  assumes "1 \<le> n" and "n < 2 ^ 63"
  shows "dl_attempt (decode_record E (rec\<lparr>kr_headers := task_headers n nb ferr extra\<rparr>) p i) = n"
    and "nb = Some t \<Longrightarrow> 0 < t \<Longrightarrow> t < 2 ^ 63 \<Longrightarrow>
      dl_not_before (decode_record E (rec\<lparr>kr_headers := task_headers n nb ferr extra\<rparr>) p i) = Some t"
proof -
  have itoa: "atoi (itoa t) = Some t" if "0 < t" "t < 2 ^ 63" for t
    using that by (intro parse_int_itoa) (simp add: in_bits_def)
  show "dl_attempt (decode_record E (rec\<lparr>kr_headers := task_headers n nb ferr extra\<rparr>) p i) = n"
    using assms itoa [of n] by (simp add: decode_record_def header_def task_headers_def decode_attempt_def)
  show "dl_not_before (decode_record E (rec\<lparr>kr_headers := task_headers n nb ferr extra\<rparr>) p i) = Some t"
    if "nb = Some t" "0 < t" "t < 2 ^ 63"
    using that itoa [of t] by (simp add: decode_record_def header_def task_headers_def decode_not_before_def)
qed

section \<open>Properties\<close>

text \<open>truncateBytes cuts on a character boundary: the result is a prefix of at most n bytes; when
  it had to cut, the result is valid UTF-8, and for a valid text at most three bytes are given up
  below the limit.\<close>

theorem truncate_bytes_spec:
  "prefix (truncate_bytes s n) s \<and> length (truncate_bytes s n) \<le> n
    \<and> (length s \<le> n \<longrightarrow> truncate_bytes s n = s)
    \<and> (n < length s \<longrightarrow> valid_utf8 (truncate_bytes s n))
    \<and> (n < length s \<longrightarrow> valid_utf8 s \<longrightarrow> n < length (truncate_bytes s n) + 4)"
proof (cases "length s \<le> n")
  case False
  note c = chop_invalid_prefix [of "take n s"]
  have "length (chop_invalid (take n s)) \<le> n"
    using prefix_length_le [of "chop_invalid (take n s)" "take n s"] c by simp
  moreover have "prefix (chop_invalid (take n s)) s"
    using c take_is_prefix prefix_order.trans by blast
  moreover have "n < length (chop_invalid (take n s)) + 4" if v: "valid_utf8 s"
  proof -
    from rune_boundary [of n s] False obtain k where
      k: "length (unrunes (take k (runes s))) \<le> n" "n < length (unrunes (take k (runes s))) + 4" by auto
    from runes_prefix [of s k] obtain t where "s = unrunes (take k (runes s)) @ t" by blast
    with k(1) have "prefix (unrunes (take k (runes s))) (take n s)"
      by (metis prefixI prefix_length_prefix take_is_prefix length_take min.absorb2 False linorder_le_cases)
    from chop_invalid_longest [OF this valid_utf8_take [OF v]] k(2) show ?thesis by simp
  qed
  ultimately show ?thesis using False c by (simp add: truncate_bytes_def)
qed (simp add: truncate_bytes_def)

theorem truncate_bytes_spec_witness:
  "truncate_bytes ''abcdef'' 3 = ''abc'' \<and> truncate_bytes [char_of (0xE5::nat), char_of (0xA5::nat), char_of (0xBD::nat)] 2 = []"
proof -
  let ?s = "[char_of (0xE5::nat), char_of (0xA5::nat), char_of (0xBD::nat)]"
  have "valid_utf8 ''abc''" by (simp add: valid_utf8_def runes_ascii_Cons byte_def rune_error_def)
  then have a: "truncate_bytes ''abcdef'' 3 = ''abc''" by (simp add: truncate_bytes_def chop_invalid.simps)
  from truncate_bytes_spec [of ?s 2] have v: "valid_utf8 (truncate_bytes ?s 2)" "length (truncate_bytes ?s 2) \<le> 2"
    "prefix (truncate_bytes ?s 2) ?s" by simp_all
  then consider "truncate_bytes ?s 2 = []" | "truncate_bytes ?s 2 = take 1 ?s" | "truncate_bytes ?s 2 = take 2 ?s"
    by (auto simp: prefix_Cons)
  then show ?thesis
    using a v(1)
    by cases (simp_all add: valid_utf8_def runes_step Let_def byte_def rune_error_def)
qed

text \<open>The task headers are read back as they were written: a record built by taskHeaders with an
  attempt and a due time that fit 64 bits, whatever headers follow, decodes to the same attempt, the
  same due time (absent when it was zero) and the first error cut to 512 bytes; a record without
  task headers decodes to attempt 1, due now.\<close>

theorem headers_roundtrip:
  assumes "1 \<le> n" and "n < 2 ^ 63" and "\<forall>t. nb = Some t \<longrightarrow> 0 < t \<and> t < 2 ^ 63"
    and "nb = None \<longrightarrow> map_of extra HeaderNotBefore = None"
    and "ferr = [] \<longrightarrow> map_of extra HeaderFirstError = None"
  shows "dl_attempt (decode_record E (rec\<lparr>kr_headers := task_headers n nb ferr extra\<rparr>) p i) = n
    \<and> dl_not_before (decode_record E (rec\<lparr>kr_headers := task_headers n nb ferr extra\<rparr>) p i) = nb
    \<and> dl_first_error (decode_record E (rec\<lparr>kr_headers := task_headers n nb ferr extra\<rparr>) p i) = truncate_bytes ferr 512
    \<and> dl_attempt (decode_record E (rec\<lparr>kr_headers := []\<rparr>) p i) = 1
    \<and> dl_not_before (decode_record E (rec\<lparr>kr_headers := []\<rparr>) p i) = None"
proof -
  have "dl_attempt (decode_record E (rec\<lparr>kr_headers := task_headers n nb ferr extra\<rparr>) p i) = n"
    by (rule decode_task_headers [OF assms(1,2)])
  moreover have "dl_not_before (decode_record E (rec\<lparr>kr_headers := task_headers n nb ferr extra\<rparr>) p i) = nb"
  proof (cases nb)
    case None
    with assms(4) show ?thesis by (simp add: decode_record_def header_def task_headers_def decode_not_before_def)
  next
    case (Some t)
    with assms(3) decode_task_headers(2) [OF assms(1,2) Some] show ?thesis by simp
  qed
  moreover have "dl_first_error (decode_record E (rec\<lparr>kr_headers := task_headers n nb ferr extra\<rparr>) p i) = truncate_bytes ferr 512"
    using assms(5) by (auto simp: decode_record_def header_def task_headers_def deref0_def max_first_error_bytes_def
        truncate_bytes_def [of "[]"] split: option.splits)
  ultimately show ?thesis
    by (simp add: decode_record_def header_def decode_attempt_def decode_not_before_def)
qed

theorem headers_roundtrip_witness:
  "dl_attempt (decode_record env0 \<lparr>kr_topic = TopicRetry10s, kr_key = [], kr_value = [],
      kr_headers = task_headers 2 (Some 10000) ''E'' []\<rparr> 0 0) = 2"
  using headers_roundtrip [of 2 "Some 10000" "[]" "''E''" env0
      "\<lparr>kr_topic = TopicRetry10s, kr_key = [], kr_value = [], kr_headers = []\<rparr>" 0 0] by simp

end
