(* ===== verification/FailedTasks.thy ===== *)
theory FailedTasks
  imports Mq TaskEvents
begin

text \<open>
  The failed-task ledger: internal/analysis/failedtask.go.  The three regular expressions of
  SanitizeError are matchers over the runes of a string: each of them is deterministic (the classes
  that meet are disjoint), so the greedy leftmost match is a longest run.  Under \<^verbatim>\<open>(?i)\<close> the letters s
  and k also match U+017F and U+212A.
\<close>

section \<open>Column widths\<close>

fun take_units :: "nat \<Rightarrow> (nat \<times> gostr) list \<Rightarrow> (nat \<times> gostr) list" where
  "take_units m [] = []"
| "take_units m (rb # rs) = (if rune_units (fst rb) > m then [] else write_rune rb # take_units (m - rune_units (fst rb)) rs)"

definition truncate_utf16 :: "gostr \<Rightarrow> nat \<Rightarrow> gostr" where
  "truncate_utf16 s m = (if utf16_len s \<le> m then s else unrunes (take_units m (runes s)))"

definition column :: "gostr \<Rightarrow> gostr \<Rightarrow> nat \<Rightarrow> gostr" where
  "column v fallback m = truncate_utf16 (if is_blank v then fallback else v) m"

section \<open>Masking secrets\<close>

definition fold_rune :: "nat \<Rightarrow> nat" where
  "fold_rune r = (if 65 \<le> r \<and> r \<le> 90 then r + 32 else if r = 0x17F then 115 else if r = 0x212A then 107 else r)"

text \<open>Number of runes a literal consumes, if it matches.\<close>

definition lit :: "gostr \<Rightarrow> nat list \<Rightarrow> nat option" where
  "lit w rs = (if take (length w) (map fold_rune rs) = map byte w then Some (length w) else None)"

definition run_of :: "(nat \<Rightarrow> bool) \<Rightarrow> nat list \<Rightarrow> nat" where
  "run_of p rs = length (takeWhile p rs)"

definition re_space :: "nat \<Rightarrow> bool" where "re_space r = (r \<in> {9, 10, 12, 13, 32})"

definition re_word :: "nat \<Rightarrow> bool" where
  "re_word r = ((48 \<le> r \<and> r \<le> 57) \<or> (97 \<le> fold_rune r \<and> fold_rune r \<le> 122))"

definition bearer_char :: "nat \<Rightarrow> bool" where
  "bearer_char r = (re_word r \<or> r \<in> set (map byte ''._~+/=-''))"

definition key_char :: "nat \<Rightarrow> bool" where
  "key_char r = (re_word r \<or> r \<in> set (map byte ''_-''))"

definition value_char :: "nat \<Rightarrow> bool" where
  "value_char r = (\<not> re_space r \<and> r \<notin> set (map byte '',;''))"

text \<open>A matcher gives the runes kept (group 1) and the runes replaced.\<close>

definition match_bearer :: "nat list \<Rightarrow> (nat \<times> nat) option" where
  "match_bearer rs = (case lit ''bearer'' rs of None \<Rightarrow> None | Some n \<Rightarrow>
     (let sp = run_of re_space (drop n rs); k = run_of bearer_char (drop (n + sp) rs) in
      if 1 \<le> sp \<and> 8 \<le> k then Some (n + sp, k) else None))"

definition match_name :: "nat list \<Rightarrow> nat option" where
  "match_name rs = (case lit ''api'' rs of
      Some n \<Rightarrow> (let o1 = (case drop n rs of r # _ \<Rightarrow> if r \<in> set (map byte ''-_ '') then 1 else 0 | [] \<Rightarrow> 0) in
                 map_option (\<lambda>k. n + o1 + k) (lit ''key'' (drop (n + o1) rs)))
    | None \<Rightarrow> (case lit ''token'' rs of Some n \<Rightarrow> Some n | None \<Rightarrow> lit ''secret'' rs))"

definition match_named :: "nat list \<Rightarrow> (nat \<times> nat) option" where
  "match_named rs = (case match_name rs of None \<Rightarrow> None | Some n \<Rightarrow>
     (let sp = run_of re_space (drop n rs) in
      case drop (n + sp) rs of [] \<Rightarrow> None
      | r # _ \<Rightarrow> (if r \<in> set (map byte ''=:'') then
           (let sp2 = run_of re_space (drop (n + sp + 1) rs); m = n + sp + 1 + sp2; k = run_of value_char (drop m rs) in
            if 8 \<le> k then Some (m, k) else None) else None)))"

definition match_prefixed :: "nat list \<Rightarrow> (nat \<times> nat) option" where
  "match_prefixed rs = (case lit ''sk-'' rs of None \<Rightarrow> None
     | Some n \<Rightarrow> (let k = run_of key_char (drop n rs) in if 16 \<le> k then Some (0, n + k) else None))"

definition stars :: "(nat \<times> gostr) list" where
  "stars = replicate 4 (42, ''*'')"

text \<open>ReplaceAllString with the kept group followed by four stars.\<close>

function replace_all :: "(nat list \<Rightarrow> (nat \<times> nat) option) \<Rightarrow> (nat \<times> gostr) list \<Rightarrow> (nat \<times> gostr) list" where
  "replace_all m rs = (case rs of [] \<Rightarrow> [] | r # rs' \<Rightarrow>
     (case m (map fst rs) of
        None \<Rightarrow> r # replace_all m rs'
      | Some (keep, k) \<Rightarrow> take keep rs @ stars @ replace_all m (drop (max 1 (keep + k)) rs)))"
  by pat_completeness auto
termination by (relation "measure (length \<circ> snd)") auto

declare replace_all.simps [simp del]

definition mask :: "(nat list \<Rightarrow> (nat \<times> nat) option) \<Rightarrow> gostr \<Rightarrow> gostr" where
  "mask m s = unrunes (replace_all m (runes s))"

definition sanitize_error :: "gostr \<Rightarrow> gostr" where
  "sanitize_error v = truncate_utf16 (mask match_prefixed (mask match_named (mask match_bearer v))) 1000"

section \<open>The ledger\<close>

abbreviation (input) "unknown_media_id \<equiv> (-1) :: int"

definition failed_row :: "analysis_task_msg \<Rightarrow> int \<Rightarrow> goerr \<Rightarrow> int \<Rightarrow> int \<Rightarrow> failed_task" where
  "failed_row msg attempts cause created updated =
     \<lparr>ft_id = 0, ft_media = (case tm_media msg of None \<Rightarrow> unknown_media_id | Some m \<Rightarrow> m),
      ft_action = column (deref0 (tm_action msg)) ''UNKNOWN'' 32,
      ft_mode = mode_from_nullable (deref0 (tm_mode msg)),
      ft_hash = column (deref0 (tm_hash msg)) ''unknown'' 128,
      ft_goal = column (deref0 (tm_goal msg)) m_no_goal_column 500,
      ft_attempts = attempts, ft_error_type = column (code_of (Some cause)) ''UNKNOWN'' 128,
      ft_error_message = Some (sanitize_error (error_text (root_cause cause))),
      ft_status = ''FAILED'', ft_created = created, ft_updated = updated\<rparr>"

definition record_failure :: "env \<Rightarrow> analysis_task_msg \<Rightarrow> int \<Rightarrow> goerr \<Rightarrow> unit opE" where
  "record_failure E msg attempts cause =
     bnd (now_ms E) (\<lambda>created. bnd (now_ms E) (\<lambda>updated.
     ask_err (a_err E) (Ledger (DInsertFailed (failed_row msg attempts cause created updated)))))"

definition is_placeholder_record :: "failed_task \<Rightarrow> bool" where
  "is_placeholder_record t = (ft_media t = unknown_media_id \<or> \<not> is_supported_action (ft_action t))"

abbreviation (input) "active_ttl \<equiv> hours 6"

definition replay :: "env \<Rightarrow> int \<Rightarrow> unit opE" where
  "replay E tid =
     bindE (ask (a_failed E) (Ledger (DFindFailed tid))) (\<lambda>found.
     case found of
       None \<Rightarrow> failE (NotFound m_failed_missing)
     | Some task \<Rightarrow>
        (if ft_status task \<noteq> ''FAILED'' then failE (InvalidArgument m_already_replayed)
         else if is_placeholder_record task then failE (InvalidArgument m_not_replayable)
         else
          (let mode = mode_from_nullable (ft_mode task);
               hash = normalize_content_hash (ft_media task) (ft_hash task) in
           case goal_digest E (ft_goal task) mode of
             Inl e \<Rightarrow> failE e
           | Inr digest \<Rightarrow>
              (let key = active_key hash digest in
               bindE (ask (a_bool E) (Redis (RSetNX key (itoa (ft_media task)) active_ttl))) (\<lambda>ok.
               if \<not> ok then failE (InvalidArgument m_same_task_running)
               else catchE (publish_task E (new_task_msg (ft_media task) (ft_action task) hash (ft_goal task) mode))
                 (\<lambda>e. thenI (del_key E key) (failE e))
                 (\<lambda>_. bindE (ask (a_int E) (Ledger (DMarkRequeued tid))) (\<lambda>n.
                    if n \<noteq> 1 then failE (Internal m_replay_ledger_failed None)
                    else thenI (publish_analysis E (ft_media task) (ft_goal task) mode
                                  (status_of StateQueued m_requeued_by_admin) StageManualReplay)
                           (okE ()))))))))"

section \<open>Facts\<close>

lemma extends_record_failure [ext_intros]: "extends (record_failure E msg attempts cause)"
  unfolding record_failure_def by (intro ext_intros)

lemma extends_replay [ext_intros]: "extends (replay E tid)"
  unfolding replay_def Let_def by (intro ext_intros)

lemma take_units_chunks: "set rs \<subseteq> set (runes s) \<Longrightarrow> list_all chunk (take_units m rs)"
  by (induction m rs rule: take_units.induct) (auto simp: write_rune_chunk)

lemma take_units_bound: "sum_list (map (rune_units \<circ> fst) (take_units m rs)) \<le> m"
  by (induction m rs rule: take_units.induct) auto

lemma truncate_utf16_bound: "utf16_len (truncate_utf16 s m) \<le> m"
  using take_units_bound [of m "runes s"] runes_chunks [OF take_units_chunks [of "runes s" s m]]
  by (simp add: truncate_utf16_def utf16_len_def)

lemma column_bound: "utf16_len (column v fb m) \<le> m"
  by (simp add: column_def truncate_utf16_bound)

section \<open>Properties\<close>

text \<open>Every row written to the ledger fits its columns, whatever the message and the error hold:
  action 32, content hash 128, goal 500, error type 128 and error message 1000 UTF-16 units; the mode
  is one of the four modes and the attempt count is the caller's.\<close>

theorem failed_row_fits:
  "utf16_len (ft_action (failed_row msg n cause t t')) \<le> 32 \<and> utf16_len (ft_hash (failed_row msg n cause t t')) \<le> 128
   \<and> utf16_len (ft_goal (failed_row msg n cause t t')) \<le> 500 \<and> utf16_len (ft_error_type (failed_row msg n cause t t')) \<le> 128
   \<and> (case ft_error_message (failed_row msg n cause t t') of None \<Rightarrow> False | Some m \<Rightarrow> utf16_len m \<le> 1000)
   \<and> ft_mode (failed_row msg n cause t t') \<in> set all_modes \<and> ft_attempts (failed_row msg n cause t t') = n"
  by (simp add: failed_row_def column_bound sanitize_error_def truncate_utf16_bound mode_from_nullable_valid)

text \<open>Replaying a ledger row.  The task is produced only for a FAILED row with real parameters and
  after SET NX reserved its idempotency key; success means the broker acknowledged the record and
  exactly one row was marked.  When the produce fails the key is released and the error returned;
  once the record is out the key is never released, so a failing bookkeeping step cannot cause a
  second replay.\<close>

theorem replay_spec:
  assumes "run_state (replay E tid) h = (r, h')"
    and "a_failed E h (Ledger (DFindFailed tid)) = Inr (Some task)"
    and "ft_status task = ''FAILED''" and "\<not> is_placeholder_record task"
    and "goal_digest E (ft_goal task) (mode_from_nullable (ft_mode task)) = Inr digest"
    and "key = active_key (normalize_content_hash (ft_media task) (ft_hash task)) digest"
    and "rec = task_record E (new_task_msg (ft_media task) (ft_action task)
           (normalize_content_hash (ft_media task) (ft_hash task)) (ft_goal task) (mode_from_nullable (ft_mode task)))"
    and "h1 = h @ [Ledger (DFindFailed tid), Redis (RSetNX key (itoa (ft_media task)) (hours 6))]"
  shows "(r = Inr () \<longrightarrow> made (acked E) h (Kafka (KProduce rec)) h' \<and> made (\<lambda>p c. a_int E p c = Inr 1) h (Ledger (DMarkRequeued tid)) h')
    \<and> (\<forall>rec'. Kafka (KProduce rec') \<in> set (drop (length h) h') \<longrightarrow> rec' = rec \<and>
          a_bool E (h @ [Ledger (DFindFailed tid)]) (Redis (RSetNX key (itoa (ft_media task)) (hours 6))) = Inr True)
    \<and> (a_bool E (h @ [Ledger (DFindFailed tid)]) (Redis (RSetNX key (itoa (ft_media task)) (hours 6))) = Inr True \<longrightarrow>
        (case a_err E h1 (Kafka (KProduce rec)) of
           Some e \<Rightarrow> r = Inl e \<and> h' = h1 @ [Kafka (KProduce rec), Redis (RDel [key])]
         | None \<Rightarrow> \<forall>ks. Redis (RDel ks) \<notin> set (drop (length h) h')))"
proof -
  define Q where "Q = (\<lambda>r h'. (r = Inr () \<longrightarrow> made (acked E) h (Kafka (KProduce rec)) h'
       \<and> made (\<lambda>p c. a_int E p c = Inr 1) h (Ledger (DMarkRequeued tid)) h')
    \<and> (\<forall>rec'. Kafka (KProduce rec') \<in> set (drop (length h) h') \<longrightarrow> rec' = rec \<and>
          a_bool E (h @ [Ledger (DFindFailed tid)]) (Redis (RSetNX key (itoa (ft_media task)) (hours 6))) = Inr True)
    \<and> (a_bool E (h @ [Ledger (DFindFailed tid)]) (Redis (RSetNX key (itoa (ft_media task)) (hours 6))) = Inr True \<longrightarrow>
        (case a_err E h1 (Kafka (KProduce rec)) of
           Some e \<Rightarrow> r = Inl e \<and> h' = h1 @ [Kafka (KProduce rec), Redis (RDel [key])]
         | None \<Rightarrow> \<forall>ks. Redis (RDel ks) \<notin> set (drop (length h) h'))))"
  have "wp (replay E tid) Q h"
    unfolding replay_def Let_def
    using assms(2-5)
    by (auto simp: wp_simps Q_def made_append publish_analysis_def publish_event_def
        assms(6-8) split: sum.splits option.splits)
  from wp_run [OF assms(1) this] show ?thesis by (simp add: Q_def)
qed

definition task1 :: failed_task where
  "task1 = \<lparr>ft_id = 5, ft_media = 7, ft_action = ActionStart, ft_mode = ModeGeneral, ft_hash = ''x'', ft_goal = ''g'',
     ft_attempts = 3, ft_error_type = ''TRANSIENT'', ft_error_message = None, ft_status = ''FAILED'',
     ft_created = 0, ft_updated = 0\<rparr>"

theorem replay_spec_witness:
  "\<forall>ks. Redis (RDel ks) \<notin> set (final (replay (env0\<lparr>a_failed := (\<lambda>h c. Inr (Some task1))\<rparr>) 5) [])"
proof -
  let ?E = "env0\<lparr>a_failed := (\<lambda>h c. Inr (Some task1))\<rparr>"
  obtain r h' where r: "run_state (replay ?E 5) [] = (r, h')" by fastforce
  have g: "\<not> is_blank (ft_goal task1)" by (simp add: task1_def) (simp add: str_eval)
  obtain d where d: "goal_digest ?E (ft_goal task1) (mode_from_nullable (ft_mode task1)) = Inr d"
    using goal_digest_ok [OF g] by blast
  have p: "ft_status task1 = ''FAILED''" "\<not> is_placeholder_record task1"
    by (simp_all add: task1_def is_placeholder_record_def is_supported_action_def)
  from replay_spec [OF r _ p d refl refl refl] have "\<forall>ks. Redis (RDel ks) \<notin> set h'"
    by (simp add: env0_def)
  then show ?thesis by (simp add: final_def r)
qed

end
