(* ===== verification/Consumer.thy ===== *)
theory Consumer
  imports Analyzer FailedTasks
begin

text \<open>
  Handling one task record: internal/mq/consumer.go.  The analysis itself is an argument of the model,
  as it is an interface of the code: the record \<open>worker\<close> and, for what the consumer relies on, the
  locale \<open>analysis_worker\<close>, interpreted on the model of internal/analysis/analyzer.go.
  Losing the task lock cancels the work, which the environment shows as errors of its calls.
\<close>

section \<open>Interfaces\<close>

datatype outcome = OutcomeSuccess | OutcomeSkipped | OutcomeRetry | OutcomeDLQ | OutcomeBudget | OutcomePoison | OutcomeRedeliver

record worker =
  wk_analyze :: "int \<Rightarrow> gostr \<Rightarrow> analysis_mode \<Rightarrow> unit opE"
  wk_reuse :: "int \<Rightarrow> int \<Rightarrow> gostr \<Rightarrow> analysis_mode \<Rightarrow> reuse_response opE"

definition analyzer_worker :: "env \<Rightarrow> worker" where
  "analyzer_worker E = \<lparr>wk_analyze = async_analyze E, wk_reuse = reuse_result E\<rparr>"

section \<open>Validation\<close>

text \<open>deref of the consumer: a nil pointer reads as "null".\<close>

definition deref_null :: "gostr option \<Rightarrow> gostr" where
  "deref_null s = (case s of None \<Rightarrow> ''null'' | Some v \<Rightarrow> v)"

definition rejection_reason :: "analysis_task_msg option \<Rightarrow> gostr" where
  "rejection_reason m = (case m of
      None \<Rightarrow> m_msg_empty
    | Some msg \<Rightarrow>
        (if tm_media msg = None then m_msg_no_media
         else if (case tm_goal msg of None \<Rightarrow> True | Some g \<Rightarrow> is_blank g) then m_msg_no_goal
         else if \<not> has_supported_action msg then m_msg_bad_action @ deref_null (tm_action msg)
         else []))"

section \<open>Sinks\<close>

definition save_stage_quiet :: "env \<Rightarrow> int \<Rightarrow> gostr \<Rightarrow> analysis_mode \<Rightarrow> task_stage \<Rightarrow> unit op" where
  "save_stage_quiet E mid goal mode stage = thenI (save_stage E mid goal mode stage) (ret ())"

definition publish_quiet :: "env \<Rightarrow> int \<Rightarrow> gostr \<Rightarrow> analysis_mode \<Rightarrow> task_status \<Rightarrow> task_stage \<Rightarrow> unit op" where
  "publish_quiet E mid goal mode st stage = thenI (publish_analysis E mid goal mode st stage) (ret ())"

definition dead_letter_record :: "delivery \<Rightarrow> int \<Rightarrow> gostr \<Rightarrow> gostr \<Rightarrow> kafka_record" where
  "dead_letter_record d attempt first_error reason =
     \<lparr>kr_topic = TopicDLQ, kr_key = dl_key d, kr_value = dl_value d,
      kr_headers = task_headers attempt None first_error [(HeaderDLQReason, reason)]\<rparr>"

definition dead_letter :: "env \<Rightarrow> delivery \<Rightarrow> int \<Rightarrow> gostr \<Rightarrow> gostr \<Rightarrow> unit opE" where
  "dead_letter E d attempt first_error reason = produce E (dead_letter_record d attempt first_error reason)"

definition release_poison_task_state :: "env \<Rightarrow> analysis_task_msg \<Rightarrow> unit op" where
  "release_poison_task_state E msg = (case (tm_media msg, tm_goal msg) of
      (Some mid, Some goal) \<Rightarrow>
        (if is_blank goal then ret ()
         else
          (let mode = mode_from_nullable (deref0 (tm_mode msg));
               hash = normalize_content_hash mid (deref0 (tm_hash msg)) in
           case goal_digest E goal mode of
             Inl e \<Rightarrow> ret ()
           | Inr digest \<Rightarrow>
               catchE (ask_err (a_err E) (Redis (RDel [active_key hash digest]))) (\<lambda>e. ret ())
                 (\<lambda>_. thenI (save_stage_quiet E mid goal mode StageDeadLettered)
                    (publish_quiet E mid goal mode (status_of StateFailed m_poison_ended) StageDeadLettered))))
    | _ \<Rightarrow> ret ())"

definition poison_msg :: "delivery \<Rightarrow> analysis_task_msg" where
  "poison_msg d = (case dl_msg d of None \<Rightarrow> empty_msg | Some m \<Rightarrow> m)"

definition poison_cause :: "gostr \<Rightarrow> goerr" where
  "poison_cause reason = InvalidArgument (''invalid video analysis message: '' @ reason)"

definition poison_record :: "delivery \<Rightarrow> gostr \<Rightarrow> kafka_record" where
  "poison_record d reason = dead_letter_record d (dl_attempt d) (''INVALID_ARGUMENT: '' @ reason) ReasonPoison"

definition discard_poison :: "env \<Rightarrow> delivery \<Rightarrow> gostr \<Rightarrow> outcome opE" where
  "discard_poison E d reason =
      bnd (record_failure E (poison_msg d) 0 (poison_cause reason)) (\<lambda>recorded.
      bnd (produce E (poison_record d reason)) (\<lambda>dead.
      if recorded \<noteq> Inr () \<and> dead \<noteq> Inr () then failE (Internal m_poison_stuck (Some (poison_cause reason)))
      else thenI (release_poison_task_state E (poison_msg d)) (okE OutcomePoison)))"

section \<open>One attempt under the task lock\<close>

definition try_reuse :: "env \<Rightarrow> worker \<Rightarrow> int \<Rightarrow> gostr \<Rightarrow> analysis_mode \<Rightarrow> gostr \<Rightarrow> gostr \<Rightarrow> bool opE" where
  "try_reuse E W mid goal mode completed_at completed =
     (let forget = bindE (ask_err (a_err E) (Redis (RDel [completed_at]))) (\<lambda>_. okE False) in
      case parse_int 64 completed of
        None \<Rightarrow> thenI (del_key E completed_at) forget
      | Some src \<Rightarrow>
          bindE (ask (a_result E) (Agent (AResult src goal mode))) (\<lambda>found.
          if \<not> rr_found found then forget
          else bindE (wk_reuse W mid src goal mode) (\<lambda>reuse.
            if \<not> ru_reused reuse then forget
            else bindE (case (case ru_status reuse of None \<Rightarrow> rr_status found | Some s \<Rightarrow> Some s) of
                          None \<Rightarrow> okE ()
                        | Some st \<Rightarrow> publish_analysis E mid goal mode st StageCompletedReused) (\<lambda>_.
                 okE True))))"

text \<open>The part of process before the analysis: \<open>True\<close> means the task is already done.\<close>

definition prepare :: "env \<Rightarrow> worker \<Rightarrow> analysis_task_msg \<Rightarrow> int \<Rightarrow> gostr \<Rightarrow> analysis_mode \<Rightarrow> gostr \<Rightarrow> bool opE" where
  "prepare E W msg mid goal mode completed_at =
     (if is_revision msg then
        bindE (ask (a_bool E) (Agent (ABeginRevision mid goal mode))) (\<lambda>begun.
        if \<not> begun then failE (Internal m_revision_missing None)
        else bindE (ask_err (a_err E) (Redis (RDel [completed_at]))) (\<lambda>_. okE False))
      else
        bindE (ask (a_ostr E) (Redis (RGet completed_at))) (\<lambda>c.
        case c of None \<Rightarrow> okE False | Some v \<Rightarrow> try_reuse E W mid goal mode completed_at v))"

definition completed_ttl :: int where "completed_ttl = hours 168"

definition process :: "env \<Rightarrow> worker \<Rightarrow> analysis_task_msg \<Rightarrow> int \<Rightarrow> gostr \<Rightarrow> analysis_mode \<Rightarrow> gostr \<Rightarrow> outcome opE" where
  "process E W msg mid goal mode completed_at =
     bindE (media_exists E mid) (\<lambda>there.
     if \<not> there then okE OutcomeSkipped
     else
     bindE (publish_analysis E mid goal mode (status_of StateProcessing m_task_started) StageConsuming) (\<lambda>_.
     bindE (prepare E W msg mid goal mode completed_at) (\<lambda>finished.
     if finished then okE OutcomeSuccess
     else
     thenI (save_stage_quiet E mid goal mode StageConsuming)
     (bindE (wk_analyze W mid goal mode) (\<lambda>_.
      bindE (if is_revision msg then ask_err (a_err E) (Agent (ACompleteRevision mid goal mode)) else okE ()) (\<lambda>_.
      bindE (media_exists E mid) (\<lambda>still.
      if \<not> still then thenI (purge_runtime_artifacts E mid) (okE OutcomeSuccess)
      else
      bindE (ask_err (a_err E) (Redis (RSet completed_at (itoa mid) completed_ttl))) (\<lambda>_.
      bindE (ask (a_result E) (Agent (AResult mid goal mode))) (\<lambda>res.
      if rr_found res then
        (case rr_status res of
           None \<Rightarrow> okE OutcomeSuccess
         | Some st \<Rightarrow> bindE (publish_analysis E mid goal mode st StageCompleted) (\<lambda>_. okE OutcomeSuccess))
      else okE OutcomeSuccess)))))))))"

section \<open>Handling a record\<close>

definition budget_message :: "goerr \<Rightarrow> gostr" where
  "budget_message e = (case find (\<lambda>c. is_typed c \<and> err_kind c = KindBudgetExhausted) (chain e) of
      None \<Rightarrow> m_budget_reached
    | Some c \<Rightarrow> if is_blank (err_msg c) then m_budget_reached else err_msg c)"

definition first_error_of :: "delivery \<Rightarrow> goerr \<Rightarrow> gostr" where
  "first_error_of d e =
     (if dl_first_error d = [] then code_of (Some e) @ '': '' @ sanitize_error (describe e) else dl_first_error d)"

definition retry_record :: "delivery \<Rightarrow> int \<Rightarrow> route \<Rightarrow> int \<Rightarrow> gostr \<Rightarrow> kafka_record" where
  "retry_record d attempt rt now first_error =
     \<lparr>kr_topic = rt_topic rt, kr_key = dl_key d, kr_value = dl_value d,
      kr_headers = task_headers (attempt + 1) (Some (now + rt_delay rt)) first_error []\<rparr>"

text \<open>Budget exhaustion, retry or dead letter: what follows a body that returned an error.\<close>

definition route_error :: "env \<Rightarrow> delivery \<Rightarrow> analysis_task_msg \<Rightarrow> int \<Rightarrow> gostr \<Rightarrow> analysis_mode \<Rightarrow> gostr \<Rightarrow> goerr \<Rightarrow> outcome opE" where
  "route_error E d msg mid goal mode akey e =
     (if has_kind e KindBudgetExhausted then
        thenI (del_key E akey)
        (thenI (save_stage_quiet E mid goal mode StageBudgetExhausted)
        (thenI (publish_quiet E mid goal mode (status_of StateFailed (budget_message e)) StageBudgetExhausted)
           (okE OutcomeBudget)))
      else
       (let attempt = max (dl_attempt d) 1;
            rt = route_failure (is_permanent_failure (Some e)) attempt;
            first_error = first_error_of d e in
        if rt_topic rt \<noteq> TopicDLQ then
          bnd (now_ms E) (\<lambda>now.
          catchE (produce E (retry_record d attempt rt now first_error))
            (\<lambda>pe. failE (Plain (''forward to '' @ rt_topic rt @ '': '' @ error_text pe) (Some pe)))
            (\<lambda>_. thenI (ask_err (a_err E) (Redis (RExpire akey active_ttl)))
               (thenI (save_stage_quiet E mid goal mode StageRetrying)
               (thenI (publish_quiet E mid goal mode (status_of StateProcessing m_retry_waiting) StageRetrying)
                  (okE OutcomeRetry)))))
        else
          thenI (record_failure E msg attempt e)
          (bindE (dead_letter E d attempt first_error (rt_reason rt)) (\<lambda>_.
           thenI (del_key E akey)
           (thenI (save_stage_quiet E mid goal mode StageDeadLettered)
           (thenI (publish_quiet E mid goal mode (status_of StateFailed m_dead_lettered) StageDeadLettered)
              (okE OutcomeDLQ)))))))"

definition locked_body :: "env \<Rightarrow> worker \<Rightarrow> analysis_task_msg \<Rightarrow> int \<Rightarrow> gostr \<Rightarrow> analysis_mode \<Rightarrow> gostr \<Rightarrow> gostr \<Rightarrow> (lock option \<times> outcome res) op" where
  "locked_body E W msg mid goal mode lkey completed_at =
     catchE (try_lock E default_locker lkey 0) (\<lambda>e. ret (None, Inl e))
       (\<lambda>lk. case lk of
          None \<Rightarrow> ret (None, Inr OutcomeSkipped)
        | Some l \<Rightarrow> bnd (process E W msg mid goal mode completed_at) (\<lambda>r. ret (Some l, r)))"

definition handle_task :: "env \<Rightarrow> worker \<Rightarrow> delivery \<Rightarrow> analysis_task_msg \<Rightarrow> int \<Rightarrow> gostr \<Rightarrow> analysis_mode \<Rightarrow> gostr \<Rightarrow> gostr \<Rightarrow> outcome opE" where
  "handle_task E W d msg mid goal mode hash digest =
     (let akey = active_key hash digest in
      bnd (locked_body E W msg mid goal mode (lock_key hash digest) (completed_key hash digest)) (\<lambda>(lk, body).
      bnd (case body of
             Inr out \<Rightarrow> thenI (if lk \<noteq> None then del_key E akey else ret ()) (okE out)
           | Inl e \<Rightarrow> route_error E d msg mid goal mode akey e) (\<lambda>r.
      thenI (release_if_held E lk) (ret r))))"

text \<open>Handle; the last branches would dereference nil, which an empty rejection reason excludes.\<close>

definition handle :: "env \<Rightarrow> worker \<Rightarrow> delivery \<Rightarrow> outcome opE" where
  "handle E W d =
     (let reason = (case dl_decode_err d of
            Some e \<Rightarrow> m_msg_undecodable @ error_text e
          | None \<Rightarrow> rejection_reason (dl_msg d)) in
      if reason \<noteq> [] then discard_poison E d reason
      else case dl_msg d of
        None \<Rightarrow> failE (Plain ''nil pointer dereference'' None)
      | Some msg \<Rightarrow> (case (tm_media msg, tm_goal msg) of
          (Some mid, Some goal) \<Rightarrow>
            (let mode = mode_from_nullable (deref0 (tm_mode msg));
                 hash = normalize_content_hash mid (deref0 (tm_hash msg)) in
             case goal_digest E goal mode of
               Inl e \<Rightarrow> discard_poison E d (error_text e)
             | Inr digest \<Rightarrow> handle_task E W d msg mid goal mode hash digest)
        | _ \<Rightarrow> failE (Plain ''nil pointer dereference'' None)))"

section \<open>Facts\<close>

lemma completed_key_plain [simp]: "\<not> has_prefix (completed_key hash digest) active_prefix" "\<not> has_prefix (completed_key hash digest) owner_prefix"
  by (simp_all add: completed_key_def has_prefix_def)

lemma plain_quiet [use_intros]:
  "uses plain_call (save_stage_quiet E mid goal mode st)" "uses plain_call (publish_quiet E mid goal mode ts sg)"
  unfolding save_stage_quiet_def publish_quiet_def by (intro use_intros)+

section \<open>Specification of the routing\<close>

text \<open>
  What a record's handling leaves behind.  \<open>quiet\<close> calls (everything the analysis, the checkpoints and the
  events may do) neither produce a record nor write the ledger nor touch an idempotency key; the
  relations list the other calls exactly.
\<close>

definition attempt_of :: "delivery \<Rightarrow> int" where
  "attempt_of d = max (dl_attempt d) 1"

definition route_of :: "delivery \<Rightarrow> goerr \<Rightarrow> route" where
  "route_of d e = route_failure (is_permanent_failure (Some e)) (attempt_of d)"

abbreviation quiet :: "call list \<Rightarrow> bool" where
  "quiet \<equiv> list_all worker_call"

inductive routed :: "env \<Rightarrow> delivery \<Rightarrow> analysis_task_msg \<Rightarrow> gostr \<Rightarrow> goerr \<Rightarrow> hist \<Rightarrow> outcome res \<Rightarrow> call list \<Rightarrow> bool"
  for E d msg akey e p where
  routed_budget: "has_kind e KindBudgetExhausted \<Longrightarrow> quiet zs \<Longrightarrow>
     routed E d msg akey e p (Inr OutcomeBudget) (Redis (RDel [akey]) # zs)"
| routed_retry: "\<not> has_kind e KindBudgetExhausted \<Longrightarrow> rt_topic (route_of d e) \<noteq> TopicDLQ \<Longrightarrow>
     rec = retry_record d (attempt_of d) (route_of d e) (a_num E p (Os ONow)) (first_error_of d e) \<Longrightarrow>
     acked E (p @ [Os ONow]) (Kafka (KProduce rec)) \<Longrightarrow> quiet zs \<Longrightarrow>
     routed E d msg akey e p (Inr OutcomeRetry) (Os ONow # Kafka (KProduce rec) # Redis (RExpire akey active_ttl) # zs)"
| routed_stuck: "\<not> has_kind e KindBudgetExhausted \<Longrightarrow> rt_topic (route_of d e) \<noteq> TopicDLQ \<Longrightarrow>
     rec = retry_record d (attempt_of d) (route_of d e) (a_num E p (Os ONow)) (first_error_of d e) \<Longrightarrow>
     \<not> acked E (p @ [Os ONow]) (Kafka (KProduce rec)) \<Longrightarrow>
     routed E d msg akey e p (Inl pe) [Os ONow, Kafka (KProduce rec)]"
| routed_dead: "\<not> has_kind e KindBudgetExhausted \<Longrightarrow> rt_topic (route_of d e) = TopicDLQ \<Longrightarrow>
     rec = dead_letter_record d (attempt_of d) (first_error_of d e) (rt_reason (route_of d e)) \<Longrightarrow>
     row = failed_row msg (attempt_of d) e (a_num E p (Os ONow)) (a_num E (p @ [Os ONow]) (Os ONow)) \<Longrightarrow>
     acked E (p @ [Os ONow, Os ONow, Ledger (DInsertFailed row)]) (Kafka (KProduce rec)) \<Longrightarrow> quiet zs \<Longrightarrow>
     routed E d msg akey e p (Inr OutcomeDLQ)
       (Os ONow # Os ONow # Ledger (DInsertFailed row) # Kafka (KProduce rec) # Redis (RDel [akey]) # zs)"
| routed_unparked: "\<not> has_kind e KindBudgetExhausted \<Longrightarrow> rt_topic (route_of d e) = TopicDLQ \<Longrightarrow>
     rec = dead_letter_record d (attempt_of d) (first_error_of d e) (rt_reason (route_of d e)) \<Longrightarrow>
     row = failed_row msg (attempt_of d) e (a_num E p (Os ONow)) (a_num E (p @ [Os ONow]) (Os ONow)) \<Longrightarrow>
     \<not> acked E (p @ [Os ONow, Os ONow, Ledger (DInsertFailed row)]) (Kafka (KProduce rec)) \<Longrightarrow>
     routed E d msg akey e p (Inl pe) [Os ONow, Os ONow, Ledger (DInsertFailed row), Kafka (KProduce rec)]"

lemma wp_plain_tail:
  "uses plain_call m \<Longrightarrow> (\<And>r zs. quiet zs \<Longrightarrow> Q r (p @ zs)) \<Longrightarrow> wp m Q p"
  by (rule wp_usesI [OF worker_of_plain])

lemma wp_route_error:
  "wp (route_error E d msg mid goal mode akey e) (\<lambda>r q. \<exists>ys. q = p @ ys \<and> routed E d msg akey e p r ys) p"
proof -
  have tail: "wp (thenI (save_stage_quiet E mid goal mode st) (thenI (publish_quiet E mid goal mode ts sg) (okE out)))
      (\<lambda>r q. \<exists>ys. q = p @ ys \<and> routed E d msg akey e p r ys) (p @ xs)"
    if "\<And>zs. quiet zs \<Longrightarrow> routed E d msg akey e p (Inr out) (xs @ zs)" for st ts sg xs out
  proof (rule wp_uses_conj)
    show "uses worker_call (thenI (save_stage_quiet E mid goal mode st) (thenI (publish_quiet E mid goal mode ts sg) (okE out)))"
      by (rule worker_of_plain) (intro use_intros)
    show "wp (thenI (save_stage_quiet E mid goal mode st) (thenI (publish_quiet E mid goal mode ts sg) (okE out)))
       (\<lambda>r q. r = Inr out) (p @ xs)"
      by (auto simp: wp_simps save_stage_quiet_def publish_quiet_def intro!: wp_plain_tail use_intros)
  qed (use that in auto)
  show ?thesis
    unfolding route_error_def Let_def attempt_of_def [symmetric] route_of_def [symmetric] record_failure_def dead_letter_def
    by (auto simp: wp_bnd wp_if wp_thenI [of "del_key E akey"] wp_thenI [of "ask_err f x" for f x] wp_del_key wp_catchE wp_bindE wp_failE
        wp_produce wp_ask_err wp_now wp_thenI [of "bnd f x" for f x] split: option.splits sum.splits
        intro!: tail intro: routed.intros [simplified])
qed

definition task_key :: "env \<Rightarrow> analysis_task_msg \<Rightarrow> gostr \<Rightarrow> bool" where
  "task_key E msg k \<longleftrightarrow> (\<exists>mid goal digest. tm_media msg = Some mid \<and> tm_goal msg = Some goal \<and>
     goal_digest E goal (mode_from_nullable (deref0 (tm_mode msg))) = Inr digest \<and>
     k = active_key (normalize_content_hash mid (deref0 (tm_hash msg))) digest)"

definition released :: "env \<Rightarrow> analysis_task_msg \<Rightarrow> call list \<Rightarrow> bool" where
  "released E msg ys \<longleftrightarrow> quiet ys \<or> (\<exists>k zs. task_key E msg k \<and> quiet zs \<and> ys = Redis (RDel [k]) # zs)"

definition poison_row :: "env \<Rightarrow> delivery \<Rightarrow> gostr \<Rightarrow> hist \<Rightarrow> failed_task" where
  "poison_row E d reason p = failed_row (poison_msg d) 0 (poison_cause reason) (a_num E p (Os ONow)) (a_num E (p @ [Os ONow]) (Os ONow))"

inductive poisoned :: "env \<Rightarrow> delivery \<Rightarrow> gostr \<Rightarrow> hist \<Rightarrow> outcome res \<Rightarrow> call list \<Rightarrow> bool"
  for E d reason p where
  poison_parked: "row = poison_row E d reason p \<Longrightarrow>
     acked E (p @ [Os ONow, Os ONow]) (Ledger (DInsertFailed row)) \<or>
       acked E (p @ [Os ONow, Os ONow, Ledger (DInsertFailed row)]) (Kafka (KProduce (poison_record d reason))) \<Longrightarrow>
     released E (poison_msg d) zs \<Longrightarrow>
     poisoned E d reason p (Inr OutcomePoison)
       (Os ONow # Os ONow # Ledger (DInsertFailed row) # Kafka (KProduce (poison_record d reason)) # zs)"
| poison_stuck: "row = poison_row E d reason p \<Longrightarrow>
     \<not> acked E (p @ [Os ONow, Os ONow]) (Ledger (DInsertFailed row)) \<Longrightarrow>
     \<not> acked E (p @ [Os ONow, Os ONow, Ledger (DInsertFailed row)]) (Kafka (KProduce (poison_record d reason))) \<Longrightarrow>
     poisoned E d reason p (Inl pe) [Os ONow, Os ONow, Ledger (DInsertFailed row), Kafka (KProduce (poison_record d reason))]"

lemma wp_release_poison:
  "wp (release_poison_task_state E msg) (\<lambda>r q. \<exists>ys. q = p @ ys \<and> released E msg ys) p"
proof -
  have tail: "wp (thenI (save_stage_quiet E mid goal mode st) (publish_quiet E mid goal mode ts sg))
     (\<lambda>r q. \<exists>ys. q = p @ ys \<and> released E msg ys) (p @ [Redis (RDel [k])])" if "task_key E msg k" for mid goal mode st ts sg k
    by (rule wp_plain_tail) (use that in \<open>auto intro!: use_intros simp: released_def\<close>)
  have key: "task_key E msg (active_key (normalize_content_hash mid (deref0 (tm_hash msg))) digest)"
    if "tm_media msg = Some mid" "tm_goal msg = Some goal" "goal_digest E goal (mode_from_nullable (deref0 (tm_mode msg))) = Inr digest"
    for mid goal digest
    using that by (simp add: task_key_def)
  show ?thesis
    by (auto simp: release_poison_task_state_def Let_def wp_catchE wp_ask_err wp_ret key released_def [of _ _ "[]"] released_def [of _ _ "[x]" for x]
        split: option.splits sum.splits intro!: tail)
qed

lemma wp_discard_poison:
  "wp (discard_poison E d reason) (\<lambda>r q. \<exists>ys. q = p @ ys \<and> poisoned E d reason p r ys) p"
proof -
  have tail: "wp (thenI (release_poison_task_state E (poison_msg d)) (okE OutcomePoison)) (\<lambda>r q. \<exists>ys. q = p @ ys \<and> poisoned E d reason p r ys) (p @ xs)"
    if "\<And>zs. released E (poison_msg d) zs \<Longrightarrow> poisoned E d reason p (Inr OutcomePoison) (xs @ zs)" for xs
    unfolding wp_thenI wp_okE
    by (rule wp_mono [OF wp_release_poison]) (use that in auto)
  show ?thesis
    unfolding discard_poison_def record_failure_def
    by (auto simp: wp_bnd wp_if wp_failE wp_produce wp_ask_err wp_now poison_row_def [symmetric] split: option.splits
        intro!: tail intro: poisoned.intros)
qed

text \<open>The whole handling: an unusable record, a task another worker holds, a finished task, a failed one.\<close>

inductive settled :: "env \<Rightarrow> delivery \<Rightarrow> hist \<Rightarrow> outcome res \<Rightarrow> call list \<Rightarrow> bool"
  for E d h where
  settled_poison: "poisoned E d reason h r ys \<Longrightarrow> settled E d h r ys"
| settled_busy: "quiet xs \<Longrightarrow> settled E d h (Inr OutcomeSkipped) xs"
| settled_done: "dl_msg d = Some msg \<Longrightarrow> task_key E msg akey \<Longrightarrow> out \<in> {OutcomeSuccess, OutcomeSkipped} \<Longrightarrow>
     lock_granted E h lkey (h @ xs) \<Longrightarrow> quiet xs \<Longrightarrow> quiet zs \<Longrightarrow>
     settled E d h (Inr out) (xs @ Redis (RDel [akey]) # zs)"
| settled_failed: "dl_msg d = Some msg \<Longrightarrow> task_key E msg akey \<Longrightarrow> quiet xs \<Longrightarrow> routed E d msg akey e (h @ xs) r ys \<Longrightarrow> quiet zs \<Longrightarrow>
     settled E d h r (xs @ ys @ zs)"

lemma rejection_reason_Nil:
  "rejection_reason m = [] \<Longrightarrow> \<exists>msg mid goal. m = Some msg \<and> tm_media msg = Some mid \<and> tm_goal msg = Some goal \<and> \<not> is_blank goal"
  by (auto simp: rejection_reason_def m_msg_empty_def m_msg_no_media_def m_msg_no_goal_def m_msg_bad_action_def split: option.splits if_splits)

lemma process_outcome:
  "wp (process E W msg mid goal mode ckey) (\<lambda>r q. \<forall>out. r = Inr out \<longrightarrow> out \<in> {OutcomeSuccess, OutcomeSkipped}) p"
  unfolding process_def
  by (auto simp: wp_bindE wp_okE wp_if wp_thenI wp_case_option split: sum.splits option.splits intro!: wp_any)

text \<open>Calls to the agent service.\<close>

definition no_agent :: "call \<Rightarrow> bool" where
  "no_agent c \<longleftrightarrow> (\<forall>a. c \<noteq> Agent a)"

definition task_lock :: "env \<Rightarrow> analysis_task_msg \<Rightarrow> gostr \<Rightarrow> bool" where
  "task_lock E msg k \<longleftrightarrow> (\<exists>mid goal digest. tm_media msg = Some mid \<and> tm_goal msg = Some goal \<and>
     goal_digest E goal (mode_from_nullable (deref0 (tm_mode msg))) = Inr digest \<and>
     k = lock_key (normalize_content_hash mid (deref0 (tm_hash msg))) digest)"

definition agent_guard :: "env \<Rightarrow> delivery \<Rightarrow> hist \<Rightarrow> hist \<Rightarrow> call \<Rightarrow> bool" where
  "agent_guard E d h p c \<longleftrightarrow> (\<forall>a. c = Agent a \<longrightarrow> (\<exists>msg k. dl_msg d = Some msg \<and> task_lock E msg k \<and> lock_granted E h k p))"

lemma no_agent_sinks [use_intros]:
  "uses no_agent (save_stage E mid goal mode st)" "uses no_agent (publish_analysis E mid goal mode ts sg)"
  "uses no_agent (release_if_held E lk)" "uses no_agent (record_failure E msg n e)" "uses no_agent (produce E rec)" "uses no_agent (del_key E k)"
  "uses no_agent (now_ms E)"
  unfolding save_stage_def cache_stage_def hdel_def remember_goal_key_def publish_analysis_def publish_event_def release_if_held_def held_now_def unlock_def
    record_failure_def produce_def del_key_def now_ms_def
  by (intro use_intros; simp add: no_agent_def)+

lemma no_agent_routing [use_intros]:
  "uses no_agent (discard_poison E d reason)" "uses no_agent (route_error E d msg mid goal mode akey e)"
  unfolding discard_poison_def release_poison_task_state_def route_error_def save_stage_quiet_def publish_quiet_def dead_letter_def Let_def
  by (intro use_intros; simp add: no_agent_def)+

text \<open>What the consumer relies on of the analysis: it neither produces records nor writes the ledger nor
  touches an idempotency key.\<close>

locale analysis_worker =
  fixes W :: worker
  assumes analyze_calls: "uses worker_call (wk_analyze W mid goal mode)"
    and reuse_calls: "uses worker_call (wk_reuse W mid src goal mode)"
begin

lemma worker_try_reuse: "uses worker_call (try_reuse E W mid goal mode (completed_key hash digest) v)"
  unfolding try_reuse_def Let_def del_key_def
  by (rule use_struct worker_ask reuse_calls | (rule worker_of_plain, rule plain_parts) | simp)+

lemma worker_prepare: "uses worker_call (prepare E W msg mid goal mode (completed_key hash digest))"
  unfolding prepare_def
  by (rule use_struct worker_ask worker_try_reuse | simp)+

lemma worker_process: "uses worker_call (process E W msg mid goal mode (completed_key hash digest))"
  unfolding process_def
  by (rule use_struct worker_ask analyze_calls worker_prepare | (rule worker_of_plain, rule plain_parts plain_quiet plain_purge) | simp)+

lemma wp_locked_body:
  "wp (locked_body E W msg mid goal mode key (completed_key hash digest)) (\<lambda>(lk, r) q. \<exists>xs. q = h @ xs \<and> quiet xs \<and>
     (\<forall>out. r = Inr out \<longrightarrow> (lk = None \<longrightarrow> out = OutcomeSkipped) \<and> (lk \<noteq> None \<longrightarrow> lock_granted E h key q \<and> out \<in> {OutcomeSuccess, OutcomeSkipped}))) h"
proof (rule wp_uses_conj)
  show "uses worker_call (locked_body E W msg mid goal mode key (completed_key hash digest))"
    unfolding locked_body_def by (rule use_struct worker_process | (rule worker_of_plain, rule plain_lock_ops))+
  have body: "wp (bnd (process E W msg mid goal mode (completed_key hash digest)) (\<lambda>r. ret (Some l, r))) (\<lambda>(lk, r) q.
     \<forall>out. r = Inr out \<longrightarrow> (lk = None \<longrightarrow> out = OutcomeSkipped) \<and> (lk \<noteq> None \<longrightarrow> lock_granted E h key q \<and> out \<in> {OutcomeSuccess, OutcomeSkipped})) p"
    if "lock_granted E h key p" for l p
    unfolding wp_bnd wp_ret
    by (rule wp_uses_conj [OF worker_process process_outcome]) (auto intro: lock_granted_snoc that)
  show "wp (locked_body E W msg mid goal mode key (completed_key hash digest)) (\<lambda>(lk, r) q.
     \<forall>out. r = Inr out \<longrightarrow> (lk = None \<longrightarrow> out = OutcomeSkipped) \<and> (lk \<noteq> None \<longrightarrow> lock_granted E h key q \<and> out \<in> {OutcomeSuccess, OutcomeSkipped})) h"
    unfolding locked_body_def wp_catchE
    by (rule wp_mono [OF wp_try_lock]) (auto simp: wp_ret lock_granted_def split: sum.splits option.splits intro!: body [simplified])
qed auto

lemma wp_handle_task:
  assumes "dl_msg d = Some msg" "tm_media msg = Some mid" "tm_goal msg = Some goal"
    "goal_digest E goal (mode_from_nullable (deref0 (tm_mode msg))) = Inr digest"
    "hash = normalize_content_hash mid (deref0 (tm_hash msg))"
  shows "wp (handle_task E W d msg mid goal mode hash digest) (\<lambda>r q. \<exists>ys. q = h @ ys \<and> settled E d h r ys) h"
proof -
  let ?k = "active_key hash digest"
  have key: "task_key E msg ?k" using assms by (auto simp: task_key_def)
  have release: "wp (thenI (release_if_held E lk) (ret r)) (\<lambda>r q. \<exists>ys. q = h @ ys \<and> settled E d h r ys) (h @ xs)"
    if "\<And>zs. quiet zs \<Longrightarrow> settled E d h r (xs @ zs)" for lk r xs
    unfolding wp_thenI wp_ret by (rule wp_plain_tail [OF plain_lock_ops(2)]) (auto intro: that)
  have fail: "wp (route_error E d msg mid goal mode ?k e) (\<lambda>r q. wp (thenI (release_if_held E lk) (ret r)) (\<lambda>r q. \<exists>ys. q = h @ ys \<and> settled E d h r ys) q) (h @ xs)"
    if "quiet xs" for e lk xs
  proof (rule wp_mono [OF wp_route_error], elim exE conjE)
    fix r q ys
    assume "q = (h @ xs) @ ys" "routed E d msg ?k e (h @ xs) r ys"
    then show "wp (thenI (release_if_held E lk) (ret r)) (\<lambda>r q. \<exists>ys. q = h @ ys \<and> settled E d h r ys) q"
      using release [of r "xs @ ys" lk] settled_failed [OF assms(1) key that] by simp
  qed
  have busy: "wp (thenI (release_if_held E lk) (ret (Inr OutcomeSkipped))) (\<lambda>r q. \<exists>ys. q = h @ ys \<and> settled E d h r ys) (h @ xs)"
    if "quiet xs" for lk xs
    by (rule release, rule settled_busy) (simp add: that)
  have fin: "wp (thenI (release_if_held E lk) (ret (Inr out))) (\<lambda>r q. \<exists>ys. q = h @ ys \<and> settled E d h r ys) (h @ xs @ [Redis (RDel [?k])])"
    if "quiet xs" "out \<in> {OutcomeSuccess, OutcomeSkipped}" "lock_granted E h lkey (h @ xs)" for lk xs out lkey
    by (rule release) (use settled_done [OF assms(1) key that(2,3,1)] in auto)
  show ?thesis
    unfolding handle_task_def Let_def wp_bnd [of "locked_body E W msg mid goal mode key ck" for key ck]
    by (rule wp_mono [OF wp_locked_body])
       (auto simp: wp_bnd wp_thenI [of "del_key E ?k"] wp_del_key wp_okE wp_case_sum wp_if wp_thenI [of "ret ()"] wp_ret
         wp_thenI [of "if b then x else y" for b x y]
         split: sum.splits intro!: fail busy fin)
qed

lemma wp_handle: "wp (handle E W d) (\<lambda>r q. \<exists>ys. q = h @ ys \<and> settled E d h r ys) h"
proof -
  have poison: "wp (discard_poison E d reason) (\<lambda>r q. \<exists>ys. q = h @ ys \<and> settled E d h r ys) h" for reason
    by (rule wp_mono [OF wp_discard_poison]) (auto intro: settled_poison)
  show ?thesis
    unfolding handle_def Let_def
    by (auto simp: poison m_msg_undecodable_def split: option.splits sum.splits intro!: wp_handle_task dest!: rejection_reason_Nil)
qed

lemma wp_handle_guard: "wp (handle E W d) (\<lambda>r. guarded (agent_guard E d h) h) h"
proof -
  have G: "guarded (agent_guard E d h) h q \<Longrightarrow> no_agent c \<Longrightarrow> guarded (agent_guard E d h) h (q @ [c])" for q c
    by (rule guarded_snoc) (auto simp: agent_guard_def no_agent_def)
  have quiet: "keeps (guarded (agent_guard E d h) h) m" if "uses no_agent m" for m :: "'a op"
    by (rule keeps_uses [OF that]) (rule G)
  have task: "keeps (guarded (agent_guard E d h) h) (handle_task E W d msg mid goal mode hash digest)"
    if "dl_msg d = Some msg" "task_lock E msg (lock_key hash digest)" for msg mid goal mode hash digest
  proof -
    have process: "keeps (\<lambda>q. guarded (agent_guard E d h) h q \<and> (lk \<noteq> None \<longrightarrow> lock_granted E h (lock_key hash digest) q))
        (case lk of None \<Rightarrow> ret (None, Inr OutcomeSkipped) | Some l \<Rightarrow> bnd (process E W msg mid goal mode (completed_key hash digest)) (\<lambda>r. ret (Some l, r)))" for lk
    proof (cases lk)
      case (Some l)
      show ?thesis
        unfolding Some option.case
        by (intro keep_intros, rule keeps_uses [OF worker_process])
           (use that in \<open>auto simp: agent_guard_def intro!: guarded_snoc lock_granted_snoc\<close>)
    qed (simp add: keep_intros)
    have "keeps (guarded (agent_guard E d h) h) (locked_body E W msg mid goal mode (lock_key hash digest) (completed_key hash digest))"
      unfolding locked_body_def
      by (rule keeps_catchE_post [OF wp_lock_guard])
         (assumption, use process in \<open>auto simp: agent_guard_def lock_call_def intro: keep_intros\<close>)
    then show ?thesis
      unfolding handle_task_def Let_def by (intro keep_intros) (auto intro!: quiet use_intros simp: no_agent_def)
  qed
  have "keeps (guarded (agent_guard E d h) h) (handle E W d)"
    unfolding handle_def Let_def
    by (auto simp: task_lock_def split: option.splits sum.splits intro!: task quiet [OF no_agent_routing(1)] quiet [OF uses_failE])
  then show ?thesis by (rule wp_keeps) simp
qed

end

interpretation analyzer: analysis_worker "analyzer_worker E"
  by unfold_locales (simp_all add: analyzer_worker_def worker_async_analyze worker_of_plain plain_reuse)

lemma analyzer_settled:
  "run_state (handle E (analyzer_worker E) d) h = (r, h') \<Longrightarrow> \<exists>ys. h' = h @ ys \<and> settled E d h r ys"
  by (rule wp_run [OF _ analyzer.wp_handle])

text \<open>The calls that are not quiet.\<close>

lemma loud_calls [simp]:
  "\<not> worker_call (Kafka k)" "\<not> worker_call (Ledger (DInsertFailed row))"
  "\<not> worker_call (Redis (RDel [active_key hash digest]))"
  by (simp_all add: worker_call_def plain_call_def local_call_def active_key_def has_prefix_def)

lemma made_in_mem: "made_in P h c xs \<Longrightarrow> c \<in> set xs"
  by (induction P h c xs rule: made_in.induct) auto

lemma quiet_made [simp]: "quiet xs \<Longrightarrow> \<not> worker_call c \<Longrightarrow> \<not> made_in P h c xs"
  by (auto simp: list_all_iff dest: made_in_mem)

lemma quiet_mem [simp]: "quiet xs \<Longrightarrow> \<not> worker_call c \<Longrightarrow> c \<notin> set xs"
  by (auto simp: list_all_iff)

lemma task_key_loud: "task_key E msg k \<Longrightarrow> \<not> worker_call (Redis (RDel [k]))"
  by (auto simp: task_key_def)

lemma retry_topic: "rt_topic (route_of d e) \<noteq> TopicDLQ \<Longrightarrow>
    rt_topic (route_of d e) \<in> {TopicRetry10s, TopicRetry60s} \<and> attempt_of d \<le> 2 \<and> \<not> is_permanent_failure (Some e) \<and>
    rt_delay (route_of d e) = (if attempt_of d = 1 then seconds 10 else seconds 60)"
  by (auto simp: route_of_def route_failure_def max_attempts_def retry_delay_def attempt_of_def split: if_splits)

lemma record_fields [simp]:
  "kr_topic (retry_record d n rt now fe) = rt_topic rt" "kr_key (retry_record d n rt now fe) = dl_key d" "kr_value (retry_record d n rt now fe) = dl_value d"
  "kr_topic (dead_letter_record d n fe why) = TopicDLQ" "kr_key (dead_letter_record d n fe why) = dl_key d"
  "kr_value (dead_letter_record d n fe why) = dl_value d"
  by (simp_all add: retry_record_def dead_letter_record_def)

definition sent_in :: "gostr set \<Rightarrow> env \<Rightarrow> delivery \<Rightarrow> hist \<Rightarrow> call list \<Rightarrow> bool" where
  "sent_in ts E d h ys \<longleftrightarrow> (\<exists>rec. kr_topic rec \<in> ts \<and> kr_key rec = dl_key d \<and> kr_value rec = dl_value d \<and>
     made_in (acked E) h (Kafka (KProduce rec)) ys)"

lemma sent_in_extend: "sent_in ts E d (h @ xs) ys \<Longrightarrow> sent_in ts E d h (xs @ ys @ zs)"
  by (auto simp: sent_in_def made_in_append)

lemma sent_in_mono: "sent_in ts E d h ys \<Longrightarrow> ts \<subseteq> ts' \<Longrightarrow> sent_in ts' E d h ys"
  by (auto simp: sent_in_def)

text \<open>The sinks of a failed task, outcome by outcome.\<close>

lemma routed_sent:
  assumes "routed E d msg akey e p r ys"
  shows "case r of
      Inl x \<Rightarrow> \<forall>rec. \<not> made_in (acked E) p (Kafka (KProduce rec)) ys
    | Inr out \<Rightarrow> (out = OutcomeRetry \<and> sent_in {TopicRetry10s, TopicRetry60s} E d p ys) \<or> (out = OutcomeDLQ \<and> sent_in {TopicDLQ} E d p ys) \<or>
        (out = OutcomeBudget \<and> (\<forall>k. Kafka k \<notin> set ys))"
  using assms
proof cases
  case (routed_retry rec zs)
  then have "made_in (acked E) p (Kafka (KProduce rec)) ys" by simp
  with routed_retry retry_topic [of d e] show ?thesis by (auto simp: sent_in_def)
next
  case (routed_dead rec row zs)
  then have "made_in (acked E) p (Kafka (KProduce rec)) ys" by simp
  with routed_dead show ?thesis by (auto simp: sent_in_def)
qed auto

lemma poisoned_sent:
  assumes "poisoned E d reason p r ys"
  shows "case r of
      Inl x \<Rightarrow> \<forall>rec. \<not> made_in (acked E) p (Kafka (KProduce rec)) ys
    | Inr out \<Rightarrow> out = OutcomePoison \<and> (sent_in {TopicDLQ} E d p ys \<or> (\<exists>row. made_in (acked E) p (Ledger (DInsertFailed row)) ys))"
  using assms
proof cases
  case (poison_parked row zs)
  then have "made_in (acked E) p (Kafka (KProduce (poison_record d reason))) ys \<or> made_in (acked E) p (Ledger (DInsertFailed row)) ys"
    by auto
  moreover have "kr_topic (poison_record d reason) = TopicDLQ" "kr_key (poison_record d reason) = dl_key d"
    "kr_value (poison_record d reason) = dl_value d" by (simp_all add: poison_record_def)
  ultimately show ?thesis using poison_parked(1) by (simp add: sent_in_def) blast
qed auto

lemma settled_sent:
  assumes "settled E d h r ys"
  shows "case r of
      Inl x \<Rightarrow> \<forall>rec. \<not> made_in (acked E) h (Kafka (KProduce rec)) ys
    | Inr out \<Rightarrow> (case out of
          OutcomeRetry \<Rightarrow> sent_in {TopicRetry10s, TopicRetry60s} E d h ys
        | OutcomeDLQ \<Rightarrow> sent_in {TopicDLQ} E d h ys
        | OutcomePoison \<Rightarrow> sent_in {TopicDLQ} E d h ys \<or> (\<exists>row. made_in (acked E) h (Ledger (DInsertFailed row)) ys)
        | OutcomeRedeliver \<Rightarrow> False
        | _ \<Rightarrow> \<forall>k. Kafka k \<notin> set ys)"
  using assms
proof cases
  case (settled_poison reason)
  from poisoned_sent [OF this] show ?thesis by (auto split: sum.splits)
next
  case (settled_failed msg akey xs e ys' zs)
  from routed_sent [OF settled_failed(5)] settled_failed show ?thesis
    by (auto simp: made_in_append intro: sent_in_extend split: sum.splits)
qed auto

section \<open>Properties\<close>

text \<open>The record's key and value were produced to one of the topics, and the broker acknowledged it.\<close>

definition parked_in :: "gostr set \<Rightarrow> env \<Rightarrow> delivery \<Rightarrow> hist \<Rightarrow> hist \<Rightarrow> bool" where
  "parked_in ts E d h h' \<longleftrightarrow> (\<exists>rec. kr_topic rec \<in> ts \<and> kr_key rec = dl_key d \<and> kr_value rec = dl_value d \<and>
     made (acked E) h (Kafka (KProduce rec)) h')"

lemma parked_sent: "parked_in ts E d h (h @ ys) = sent_in ts E d h ys"
  by (simp add: parked_in_def sent_in_def made_append)


text \<open>(C2) Re-handling is safe: when Handle returns an error, so that the same record is attempted again,
  no record it produced was acknowledged, and the idempotency key of the task was not released.\<close>

theorem handle_error_leaves_nothing:
  assumes "run_state (handle E (analyzer_worker E) d) h = (Inl e, h')"
  shows "(\<forall>rec. \<not> made (acked E) h (Kafka (KProduce rec)) h') \<and>
    (\<forall>hash digest. Redis (RDel [active_key hash digest]) \<notin> set (drop (length h) h'))"
proof -
  obtain ys where ys: "h' = h @ ys" "settled E d h (Inl e) ys" using analyzer_settled [OF assms] by blast
  have "Redis (RDel [active_key hash digest]) \<notin> set ys" for hash digest
    using ys(2) by (auto elim!: settled.cases poisoned.cases routed.cases)
  with settled_sent [OF ys(2)] show ?thesis by (simp add: ys(1) made_append)
qed

lemma task_key_unique: "task_key E msg k \<Longrightarrow> task_key E msg k' \<Longrightarrow> k = k'"
  by (auto simp: task_key_def)

text \<open>(C4) Who may submit the task again: a handled record releases the idempotency key of its task when the
  task ended (finished, out of budget or dead-lettered) and keeps it alive for six hours, unreleased, while a
  retry is pending.\<close>

theorem handle_active_key:
  assumes "run_state (handle E (analyzer_worker E) d) h = (Inr out, h')"
    and "dl_msg d = Some msg" and "task_key E msg k"
  shows "(out \<in> {OutcomeSuccess, OutcomeBudget, OutcomeDLQ} \<longrightarrow> Redis (RDel [k]) \<in> set (drop (length h) h')) \<and>
    (out = OutcomeRetry \<longrightarrow> Redis (RExpire k (hours 6)) \<in> set (drop (length h) h') \<and> Redis (RDel [k]) \<notin> set (drop (length h) h'))"
proof -
  obtain ys where ys: "h' = h @ ys" "settled E d h (Inr out) ys" using analyzer_settled [OF assms(1)] by blast
  from ys(2) show ?thesis
  proof cases
    case (settled_poison reason)
    then show ?thesis by (auto elim: poisoned.cases)
  next
    case (settled_done msg' akey lkey xs zs)
    with assms(2,3) have "akey = k" by (auto dest: task_key_unique)
    with settled_done ys(1) show ?thesis by auto
  next
    case (settled_failed msg' akey xs e ys' zs)
    with assms(2,3) have k: "akey = k" by (auto dest: task_key_unique)
    note [simp] = task_key_loud [OF assms(3)]
    from settled_failed(5) show ?thesis
      using settled_failed(1,4,6) ys(1) k by cases auto
  qed (auto simp: ys(1))
qed


text \<open>(C5) The agent works for a task only under its lock: every call Handle makes to the agent service comes
  after Redis granted this worker the lock of the task's content hash and goal digest.\<close>

theorem handle_agent_locked:
  assumes "Agent a \<in> set (calls (handle E (analyzer_worker E) d) h)"
  shows "\<exists>msg k p token. dl_msg d = Some msg \<and> task_lock E msg k \<and>
    prefix (p @ [Agent a]) (final (handle E (analyzer_worker E) d) h) \<and>
    made (\<lambda>p c. a_bool E p c = Inr True) h (Redis (RSetNX k token (lo_ttl default_locker))) p"
proof -
  have "guarded (agent_guard E d h) h (final (handle E (analyzer_worker E) d) h)"
    using analyzer.wp_handle_guard by (simp add: wp_def)
  from guarded_mem [OF this] assms show ?thesis
    by (fastforce simp: calls_def agent_guard_def lock_granted_def)
qed

section \<open>Witnesses\<close>

text \<open>A first attempt whose media lookup fails, with and without a working broker.\<close>

definition msg1 :: analysis_task_msg where
  "msg1 = new_task_msg 7 ActionStart ''h'' ''g'' ModeGeneral"

definition delivery1 :: delivery where
  "delivery1 = \<lparr>dl_topic = TopicAnalysis, dl_partition = 0, dl_offset = 0, dl_key = ''k'', dl_value = ''v'', dl_msg = Some msg1,
     dl_decode_err = None, dl_attempt = 1, dl_not_before = None, dl_first_error = ''x''\<rparr>"

definition env_down :: "bool \<Rightarrow> env" where
  "env_down broker = env0\<lparr>a_media := (\<lambda>h c. Inl (Plain ''db'' None)), a_num := (\<lambda>h c. 5),
     a_err := (\<lambda>h c. case c of Kafka k \<Rightarrow> if broker then None else Some Canceled | _ \<Rightarrow> None)\<rparr>"

lemma env_down_answers:
  "a_media (env_down b) h c = Inl (Plain ''db'' None)" "a_num (env_down b) h c = 5" "a_bool (env_down b) h c = Inr True"
  "a_err (env_down b) h c = (case c of Kafka k \<Rightarrow> if b then None else Some Canceled | _ \<Rightarrow> None)" "a_str (env_down b) h c = Inr ''s''"
  by (simp_all add: env_down_def env0_def)

lemma msg1_fields: "tm_media msg1 = Some 7" "tm_goal msg1 = Some ''g''" "mode_from_nullable (deref0 (tm_mode msg1)) = ModeGeneral"
  "goal_digest (env_down b) ''g'' ModeGeneral = Inr (sha256_hex (env_down b) (trim_control ''g''))"
  "rejection_reason (Some msg1) = []" "is_revision msg1 = False"
  by (simp_all add: msg1_def new_task_msg_def goal_digest_def text_an rejection_reason_def has_supported_action_def is_supported_action_def
      mode_from_nullable_fixed all_modes_def deref0_def is_revision_def)

definition key1 :: gostr where
  "key1 = active_key (normalize_content_hash 7 (deref0 (tm_hash msg1))) (sha256_hex (env_down True) (trim_control ''g''))"

lemma task_key1: "task_key (env_down b) msg1 key1"
  unfolding task_key_def key1_def by (simp add: msg1_fields) (simp add: sha256_hex_def env_down_def)

lemma run1:
  "wp (handle (env_down b) W delivery1) (\<lambda>r q. if b then r = Inr OutcomeRetry else (\<exists>e. r = Inl e)) []"
proof -
  let ?e = "Plain ''db'' None"
  have "\<not> is_permanent_failure (Some ?e)" by (simp add: is_permanent_failure_def max_cause_depth_def eval_nat_numeral)
  then have "rt_topic (route_failure (is_permanent_failure (Some ?e)) 1) \<noteq> TopicDLQ"
    by (simp add: route_failure_def)
  moreover have "\<not> has_kind ?e KindBudgetExhausted" by (simp add: has_kind_def)
  ultimately have "wp (route_error (env_down b) delivery1 msg mid goal mode akey ?e)
      (\<lambda>r q. if b then r = Inr OutcomeRetry else (\<exists>e. r = Inl e)) h" for msg mid goal mode akey h
    unfolding route_error_def Let_def
    by (auto simp: delivery1_def wp_simps env_down_answers split: option.splits intro!: wp_any)
  then have "wp (route_error (env_down b) delivery1 msg mid goal mode akey ?e)
      (\<lambda>r. wp (release_if_held (env_down b) lk) (\<lambda>_ q. if b then r = Inr OutcomeRetry else (\<exists>e. r = Inl e))) h" for msg mid goal mode akey h lk
    by (rule wp_mono) (auto intro!: wp_any)
  moreover have "dl_msg delivery1 = Some msg1" "dl_decode_err delivery1 = None" by (simp_all add: delivery1_def)
  ultimately show ?thesis
    by (simp add: handle_def msg1_fields handle_task_def Let_def locked_body_def wp_simps try_lock_def random_token_def poll_bound_def
        acquire_def env_down_answers process_def media_exists_def)
qed

lemma run1_retry:
  "run_state (handle (env_down True) (analyzer_worker (env_down True)) delivery1) []
     = (Inr OutcomeRetry, final (handle (env_down True) (analyzer_worker (env_down True)) delivery1) [])"
  using run1 [of True "analyzer_worker (env_down True)"] by (simp add: wp_def result_def final_def prod_eq_iff)


theorem handle_error_leaves_nothing_witness:
  "\<forall>rec. \<not> made (acked (env_down False)) [] (Kafka (KProduce rec))
     (final (handle (env_down False) (analyzer_worker (env_down False)) delivery1) [])"
proof -
  obtain e where "run_state (handle (env_down False) (analyzer_worker (env_down False)) delivery1) []
      = (Inl e, final (handle (env_down False) (analyzer_worker (env_down False)) delivery1) [])"
    using run1 [of False "analyzer_worker (env_down False)"] by (auto simp: wp_def result_def final_def prod_eq_iff)
  from handle_error_leaves_nothing [OF this] show ?thesis by simp
qed

theorem handle_active_key_witness:
  "Redis (RExpire key1 (hours 6)) \<in> set (final (handle (env_down True) (analyzer_worker (env_down True)) delivery1) [])"
  using handle_active_key [OF run1_retry _ task_key1] by (simp add: delivery1_def)


text \<open>A revision: the agent is asked to begin it.\<close>

definition delivery2 :: delivery where
  "delivery2 = delivery1\<lparr>dl_msg := Some (msg1\<lparr>tm_action := Some ActionRevise\<rparr>)\<rparr>"

definition env_rev :: env where
  "env_rev = env0\<lparr>a_media := (\<lambda>h c. Inr (Some mf7)), a_bool := (\<lambda>h c. case c of Agent a \<Rightarrow> Inr False | _ \<Rightarrow> Inr True)\<rparr>"

lemma env_rev_answers:
  "a_media env_rev h c = Inr (Some mf7)" "a_bool env_rev h c = (case c of Agent a \<Rightarrow> Inr False | _ \<Rightarrow> Inr True)"
  "a_err env_rev h c = None" "a_str env_rev h c = Inr ''s''" "a_ostr env_rev h c = Inr None"
  by (simp_all add: env_rev_def env0_def)

lemma wp_mem: "extends m \<Longrightarrow> c \<in> set h \<Longrightarrow> (\<And>r q. c \<in> set q \<Longrightarrow> Q r q) \<Longrightarrow> wp m Q h"
  using extendsD [of m h] by (auto simp: wp_def prefix_def)

lemma run2:
  "Agent (ABeginRevision 7 ''g'' ModeGeneral) \<in> set (calls (handle env_rev (analyzer_worker env_rev) delivery2) [])"
proof -
  let ?m = "msg1\<lparr>tm_action := Some ActionRevise\<rparr>" and ?a = "Agent (ABeginRevision 7 ''g'' ModeGeneral)"
  have d: "dl_msg delivery2 = Some ?m" "dl_decode_err delivery2 = None" by (simp_all add: delivery2_def delivery1_def)
  have m: "rejection_reason (Some ?m) = []" "is_revision ?m" "tm_media ?m = Some 7" "tm_goal ?m = Some ''g''"
    by (simp_all add: msg1_def new_task_msg_def rejection_reason_def text_an has_supported_action_def is_supported_action_def is_revision_def)
  have g: "goal_digest env_rev ''g'' ModeGeneral = Inr (sha256_hex env_rev (trim_control ''g''))"
    by (simp add: goal_digest_def text_an)
  have "wp (handle env_rev (analyzer_worker env_rev) delivery2) (\<lambda>r q. ?a \<in> set q) []"
    by (auto simp: handle_def d m g msg1_fields handle_task_def Let_def locked_body_def wp_simps try_lock_def random_token_def poll_bound_def
        acquire_def env_rev_answers process_def media_exists_def publish_analysis_def event_key_def publish_event_def prepare_def
        intro!: wp_mem [of _ ?a] ext_intros uses_extends [OF no_agent_routing(2)])
  then show ?thesis by (simp add: wp_def calls_def)
qed

theorem handle_agent_locked_witness:
  "\<exists>k p token. task_lock env_rev (msg1\<lparr>tm_action := Some ActionRevise\<rparr>) k \<and>
    made (\<lambda>p c. a_bool env_rev p c = Inr True) [] (Redis (RSetNX k token (lo_ttl default_locker))) p"
  using handle_agent_locked [OF run2] by (auto simp: delivery2_def)

end
