(* ===== verification/Runner.thy ===== *)
theory Runner
  imports Consumer
begin

text \<open>
  The consumer group's workers: internal/mq/runner.go.  First the handling of one record by a
  partition worker, as an operation over a handler (the interface Handler of the code); \<open>OStopped\<close>
  asks whether the worker was stopped, and a sleep answers an error when it is stopped meanwhile.  The
  redelivery loop may run as long as the handler fails, so it takes the number of attempts it may make
  and answers \<open>None\<close> when they are used up.

  Then one partition as a transition system: the poll loop, the worker goroutine and the rebalance
  callbacks interleave at the points where the code takes its locks.  Fetched records are their offsets.
\<close>

section \<open>One record\<close>

definition stopped :: "env \<Rightarrow> bool op" where
  "stopped E = bnd (ask (a_bool E) (Os OStopped)) (\<lambda>r. ret (r = Inr True))"

definition worker_sleep :: "env \<Rightarrow> int \<Rightarrow> bool op" where
  "worker_sleep E dur =
     (if dur \<le> 0 then bnd (stopped E) (\<lambda>s. ret (\<not> s))
      else catchE (ask_err (a_err E) (Os (OSleep dur))) (\<lambda>e. ret False) (\<lambda>_. ret True))"

definition max_backoff :: int where "max_backoff = seconds 30"
definition redeliver_backoff :: int where "redeliver_backoff = seconds 1"

definition commit :: "env \<Rightarrow> delivery \<Rightarrow> unit op" where
  "commit E d = thenI (ask_err (a_err E) (Kafka (KCommit (dl_topic d) (dl_partition d) (dl_offset d)))) (ret ())"

fun redeliver :: "env \<Rightarrow> (delivery \<Rightarrow> outcome opE) \<Rightarrow> delivery \<Rightarrow> int \<Rightarrow> nat \<Rightarrow> bool option op" where
  "redeliver E H d backoff 0 = ret None"
| "redeliver E H d backoff (Suc n) =
     catchE (H d)
       (\<lambda>e. bnd (worker_sleep E backoff) (\<lambda>on.
          if \<not> on then ret (Some False) else redeliver E H d (min (backoff * 2) max_backoff) n))
       (\<lambda>out. thenI (commit E d) (ret (Some True)))"

definition worker_handle :: "env \<Rightarrow> (delivery \<Rightarrow> outcome opE) \<Rightarrow> kafka_record \<Rightarrow> int \<Rightarrow> int \<Rightarrow> nat \<Rightarrow> bool option op" where
  "worker_handle E H rec prt off n =
     (let d = decode_record E rec prt off in
      bnd (case dl_not_before d of
             None \<Rightarrow> ret True
           | Some t \<Rightarrow> bnd (now_ms E) (\<lambda>now. worker_sleep E (t - now))) (\<lambda>on.
      if \<not> on then ret (Some False) else redeliver E H d redeliver_backoff n))"

text \<open>What the worker relies on of a handler: it only adds calls, and it never commits.\<close>

definition no_commit :: "call \<Rightarrow> bool" where
  "no_commit c \<longleftrightarrow> (\<forall>t p i. c \<noteq> Kafka (KCommit t p i))"

text \<open>The record was committed exactly when the handler returned without an error, as the last thing.\<close>

definition delivered :: "(delivery \<Rightarrow> outcome opE) \<Rightarrow> delivery \<Rightarrow> hist \<Rightarrow> bool option \<Rightarrow> call list \<Rightarrow> bool" where
  "delivered H d h r xs \<longleftrightarrow>
     (if r = Some True
      then \<exists>ys p out. xs = ys @ [Kafka (KCommit (dl_topic d) (dl_partition d) (dl_offset d))] \<and> list_all no_commit ys \<and>
             prefix h p \<and> result (H d) p = Inr out \<and> final (H d) p = h @ ys
      else list_all no_commit xs)"

lemma delivered_later: "list_all no_commit zs \<Longrightarrow> delivered H d (h @ zs) r xs \<Longrightarrow> delivered H d h r (zs @ xs)"
  unfolding delivered_def
  by (auto split: if_splits dest: append_prefixD) (metis append.assoc append_prefixD list_all_append)

lemma no_commit_sleep: "uses no_commit (worker_sleep E dur)" "uses no_commit (stopped E)"
  unfolding worker_sleep_def stopped_def by (intro use_intros; simp add: no_commit_def)+

locale record_handler =
  fixes H :: "delivery \<Rightarrow> outcome opE"
  assumes handler_calls: "uses no_commit (H d)"
begin

lemma wp_handler:
  "(\<And>r xs. list_all no_commit xs \<Longrightarrow> result (H d) h = r \<Longrightarrow> final (H d) h = h @ xs \<Longrightarrow> Q r (h @ xs)) \<Longrightarrow> wp (H d) Q h"
  by (rule wp_uses_conj [OF handler_calls, of _ "\<lambda>r q. result (H d) h = r \<and> final (H d) h = q"]) (auto simp: wp_def)

lemma wp_redeliver: "wp (redeliver E H d backoff n) (\<lambda>r q. \<exists>xs. q = h @ xs \<and> delivered H d h r xs) h"
proof (induction n arbitrary: h backoff)
  case (Suc n)
  have again: "wp (redeliver E H d b n) (\<lambda>r q. \<exists>xs. q = h @ xs \<and> delivered H d h r xs) (h @ zs)"
    if "list_all no_commit zs" for zs b
    by (rule wp_mono [OF Suc.IH]) (use delivered_later [OF that] in auto)
  have sleep: "wp (bnd (worker_sleep E b) (\<lambda>on. if \<not> on then ret (Some False) else redeliver E H d b' n))
      (\<lambda>r q. \<exists>xs. q = h @ xs \<and> delivered H d h r xs) (h @ zs)" if "list_all no_commit zs" for zs b b'
    unfolding wp_bnd
    by (rule wp_usesI [OF no_commit_sleep(1)]) (use that again in \<open>auto simp: wp_simps delivered_def\<close>)
  show ?case
    unfolding redeliver.simps wp_catchE
  proof (rule wp_handler, goal_cases)
    case (1 r xs)
    then have "delivered H d h (Some True) (xs @ [Kafka (KCommit (dl_topic d) (dl_partition d) (dl_offset d))])" if "r = Inr out" for out
      using that by (auto simp: delivered_def)
    with 1 show ?case
      by (cases r) (auto intro!: sleep simp: wp_thenI commit_def wp_ask_err wp_ret split: option.splits)
  qed
qed (simp add: wp_simps delivered_def)

lemma wp_worker_handle:
  "wp (worker_handle E H rec prt off n) (\<lambda>r q. \<exists>xs. q = h @ xs \<and> delivered H (decode_record E rec prt off) h r xs) h"
proof -
  let ?d = "decode_record E rec prt off"
  have start: "wp (if \<not> on then ret (Some False) else redeliver E H ?d b n) (\<lambda>r q. \<exists>xs. q = h @ xs \<and> delivered H ?d h r xs) (h @ zs)"
    if "list_all no_commit zs" for on b zs
    using that wp_redeliver [of E ?d b n "h @ zs"]
    by (auto simp: wp_ret delivered_def [of _ _ _ "Some False"] elim!: wp_mono intro: delivered_later)
  have "uses no_commit (case dl_not_before ?d of None \<Rightarrow> ret True | Some t \<Rightarrow> bnd (now_ms E) (\<lambda>now. worker_sleep E (t - now)))"
    by (auto simp: now_ms_def no_commit_def intro!: use_intros no_commit_sleep)
  then show ?thesis
    unfolding worker_handle_def Let_def wp_bnd [of _ "\<lambda>on. if \<not> on then x else y" for x y]
    by (rule wp_usesI) (rule start)
qed

end

section \<open>Retrying until handled\<close>

text \<open>The wait before attempt \<open>k + 1\<close>, and the history before attempt \<open>k\<close> while every attempt fails.\<close>

fun backoff_at :: "int \<Rightarrow> nat \<Rightarrow> int" where
  "backoff_at b 0 = b"
| "backoff_at b (Suc k) = backoff_at (min (b * 2) max_backoff) k"

fun attempt_hist :: "(delivery \<Rightarrow> outcome opE) \<Rightarrow> delivery \<Rightarrow> int \<Rightarrow> hist \<Rightarrow> nat \<Rightarrow> hist" where
  "attempt_hist H d b h 0 = h"
| "attempt_hist H d b h (Suc k) = attempt_hist H d (min (b * 2) max_backoff) (final (H d) h @ [Os (OSleep b)]) k"

lemma backoff_doubles: "0 \<le> b \<Longrightarrow> b \<le> max_backoff \<Longrightarrow> backoff_at b k = min (b * 2 ^ k) max_backoff"
proof (induction k arbitrary: b)
  case (Suc k)
  have m: "max_backoff \<le> max_backoff * 2 ^ k" by (simp add: max_backoff_def)
  show ?case
  proof (cases "b * 2 \<le> max_backoff")
    case True
    with Suc show ?thesis by (simp add: mult.assoc)
  next
    case False
    then have "max_backoff * 2 ^ k \<le> b * 2 * 2 ^ k" by (intro mult_right_mono) auto
    with m have "max_backoff \<le> b * 2 ^ Suc k" by (simp only: power_Suc mult.assoc)
    then have "min (b * 2 ^ Suc k) max_backoff = max_backoff" by (rule min_absorb2)
    moreover have "0 \<le> max_backoff" by (simp add: max_backoff_def)
    with Suc.IH [of max_backoff] m False have "backoff_at b (Suc k) = max_backoff" by (simp add: min_absorb2)
    ultimately show ?thesis by simp
  qed
qed (simp add: min_def)

lemma redeliver_eventually:
  assumes "\<And>p dur. acked E p (Os (OSleep dur))" and "0 < b"
    and "result (H d) (attempt_hist H d b h k) = Inr out" and "k < n"
  shows "result (redeliver E H d b n) h = Some True"
  using assms(2-4)
proof (induction n arbitrary: k b h)
  case (Suc n)
  have b: "0 < min (b * 2) max_backoff" using Suc.prems(1) by (simp add: max_backoff_def)
  have "wp (redeliver E H d b (Suc n)) (\<lambda>r q. r = Some True) h"
  proof (cases "result (H d) h")
    case (Inr out')
    then show ?thesis
      unfolding redeliver.simps wp_catchE by (simp add: wp_def [of "H d"] wp_simps commit_def split: option.splits)
  next
    case (Inl e)
    with Suc.prems(2) obtain k' where k: "k = Suc k'" by (cases k) auto
    have "wp (redeliver E H d (min (b * 2) max_backoff) n) (\<lambda>r q. r = Some True) (final (H d) h @ [Os (OSleep b)])"
      using Suc.IH [OF b, of "final (H d) h @ [Os (OSleep b)]" k'] Suc.prems k by (simp add: wp_def)
    then have "wp (bnd (worker_sleep E b) (\<lambda>on. if \<not> on then ret (Some False) else redeliver E H d (min (b * 2) max_backoff) n))
        (\<lambda>r q. r = Some True) (final (H d) h)"
      using Suc.prems(1) assms(1) by (simp add: worker_sleep_def wp_simps)
    with Inl show ?thesis unfolding redeliver.simps wp_catchE by (simp add: wp_def [of "H d"])
  qed
  then show ?case by (simp add: wp_def)
qed simp

section \<open>The consumer as a handler\<close>

lemma worker_no_commit: "worker_call c \<Longrightarrow> no_commit c"
  by (auto simp: worker_call_def plain_call_def local_call_def no_commit_def split: call.splits)

lemma no_commit_simps [simp]:
  "no_commit (Kafka (KProduce rec))" "no_commit (Redis x)" "no_commit (Ledger y)" "no_commit (Os z)" "no_commit (Agent a)"
  by (simp_all add: no_commit_def)

lemma settled_no_commit:
  assumes "settled E d h r ys"
  shows "list_all no_commit ys"
proof -
  have q [simp]: "list_all no_commit xs" if "quiet xs" for xs
    using that by (rule list.pred_mono_strong) (rule worker_no_commit)
  have p: "list_all no_commit ys" if "poisoned E d reason p r ys" for reason p r ys
    using that by cases (auto simp: released_def)
  have rt: "list_all no_commit ys" if "routed E d msg akey e p r ys" for msg akey e p r ys
    using that by cases auto
  from assms show ?thesis by cases (auto intro: p dest: rt)
qed

lemma uses_handle: "uses no_commit (handle E (analyzer_worker E) d)"
  unfolding uses_def
proof
  fix h
  obtain ys where "final (handle E (analyzer_worker E) d) h = h @ ys" "settled E d h (result (handle E (analyzer_worker E) d) h) ys"
    using analyzer.wp_handle [of E E d h] by (auto simp: wp_def)
  with settled_no_commit [OF this(2)] show "prefix h (final (handle E (analyzer_worker E) d) h) \<and>
      list_all no_commit (drop (length h) (final (handle E (analyzer_worker E) d) h))" by simp
qed

interpretation consumer: record_handler "handle E (analyzer_worker E)"
  by unfold_locales (rule uses_handle)

section \<open>One partition\<close>

text \<open>Where a worker goroutine is: before the stop check of its inner loop, in next(), handling a record,
  waiting for a wake-up, returned.\<close>

datatype phase = Looping | Taking | Busy nat | Waiting | Exited

record pworker =
  pw_queue :: "nat list"
  pw_phase :: phase
  pw_stopped :: bool
  pw_wake :: bool

definition new_pworker :: pworker where
  "new_pworker = \<lparr>pw_queue = [], pw_phase = Looping, pw_stopped = False, pw_wake = False\<rparr>"

definition enqueue :: "pworker \<Rightarrow> nat list \<Rightarrow> pworker" where
  "enqueue w recs = w\<lparr>pw_queue := pw_queue w @ recs, pw_wake := True\<rparr>"

definition stop :: "pworker \<Rightarrow> pworker" where
  "stop w = w\<lparr>pw_stopped := True\<rparr>"

text \<open>What a worker step does to the rest: nothing, resume the fetching of its partition, or handle a record
  and commit it (the commit itself may fail).\<close>

datatype action = Internal_step | Resume | Handled nat bool

inductive wstep :: "pworker \<Rightarrow> action \<Rightarrow> pworker \<Rightarrow> bool" where
  w_check: "pw_phase w = Looping \<Longrightarrow> \<not> pw_stopped w \<Longrightarrow> wstep w Internal_step (w\<lparr>pw_phase := Taking\<rparr>)"
| w_return: "pw_phase w = Looping \<Longrightarrow> pw_stopped w \<Longrightarrow> wstep w Internal_step (w\<lparr>pw_phase := Exited\<rparr>)"
| w_take: "pw_phase w = Taking \<Longrightarrow> pw_queue w = x # xs \<Longrightarrow> wstep w Internal_step (w\<lparr>pw_phase := Busy x, pw_queue := xs\<rparr>)"
| w_empty: "pw_phase w = Taking \<Longrightarrow> pw_queue w = [] \<Longrightarrow> wstep w (if pw_stopped w then Internal_step else Resume) (w\<lparr>pw_phase := Waiting\<rparr>)"
| w_wake: "pw_phase w = Waiting \<Longrightarrow> pw_wake w \<Longrightarrow> wstep w Internal_step (w\<lparr>pw_phase := Looping, pw_wake := False\<rparr>)"
| w_quit: "pw_phase w = Waiting \<Longrightarrow> pw_stopped w \<Longrightarrow> wstep w Internal_step (w\<lparr>pw_phase := Exited\<rparr>)"
| w_handled: "pw_phase w = Busy x \<Longrightarrow> wstep w (Handled x ok) (w\<lparr>pw_phase := Looping\<rparr>)"
| w_abandon: "pw_phase w = Busy x \<Longrightarrow> pw_stopped w \<Longrightarrow> wstep w Internal_step (w\<lparr>pw_phase := Exited\<rparr>)"

text \<open>
  The partition: its entry in the worker map, workers that lost it but still run, whether fetching is
  paused, the next offset to fetch, the batch the poll loop is dispatching (paused, not yet enqueued),
  the offsets whose handling succeeded and those whose commit was acknowledged.
\<close>

record part =
  pt_worker :: "pworker option"
  pt_detached :: "pworker list"
  pt_paused :: bool
  pt_next :: nat
  pt_pending :: "nat list"
  pt_handled :: "nat list"
  pt_commits :: "nat list"

definition act :: "action \<Rightarrow> part \<Rightarrow> part" where
  "act a s = (case a of
      Internal_step \<Rightarrow> s
    | Resume \<Rightarrow> s\<lparr>pt_paused := False\<rparr>
    | Handled x ok \<Rightarrow> s\<lparr>pt_handled := x # pt_handled s, pt_commits := (if ok then x # pt_commits s else pt_commits s)\<rparr>)"

definition part_init :: "part \<Rightarrow> bool" where
  "part_init s \<longleftrightarrow> s = \<lparr>pt_worker = None, pt_detached = [], pt_paused = False, pt_next = 0, pt_pending = [], pt_handled = [], pt_commits = []\<rparr>"

inductive pstep :: "part \<Rightarrow> part \<Rightarrow> bool" where
  p_dispatch: "\<not> pt_paused s \<Longrightarrow> pt_pending s = [] \<Longrightarrow> 0 < n \<Longrightarrow>
     w = (case pt_worker s of None \<Rightarrow> new_pworker | Some w0 \<Rightarrow> w0) \<Longrightarrow>
     pstep s (s\<lparr>pt_worker := Some w, pt_paused := True, pt_pending := [pt_next s ..< pt_next s + n], pt_next := pt_next s + n\<rparr>)"
| p_enqueue: "pt_worker s = Some w \<Longrightarrow> pt_pending s \<noteq> [] \<Longrightarrow>
     pstep s (s\<lparr>pt_worker := Some (enqueue w (pt_pending s)), pt_pending := []\<rparr>)"
| p_work: "pt_worker s = Some w \<Longrightarrow> wstep w a w' \<Longrightarrow> pstep s (act a s\<lparr>pt_worker := Some w'\<rparr>)"
| p_detached: "i < length (pt_detached s) \<Longrightarrow> wstep (pt_detached s ! i) a w' \<Longrightarrow>
     pstep s (act a s\<lparr>pt_detached := (pt_detached s)[i := w']\<rparr>)"
| p_revoke: "pt_worker s = Some w \<Longrightarrow> pt_pending s = [] \<Longrightarrow> c = 0 \<or> (\<exists>x \<in> set (pt_commits s). c = Suc x) \<Longrightarrow>
     pstep s (s\<lparr>pt_worker := None, pt_detached := pt_detached s @ [stop w], pt_paused := False, pt_next := c\<rparr>)"

inductive_cases wstepE: "wstep w a w'"

text \<open>The records a worker still has are consecutive and everything before them was handled.\<close>

definition held :: "pworker \<Rightarrow> nat list" where
  "held w = (case pw_phase w of Busy x \<Rightarrow> [x] | _ \<Rightarrow> []) @ pw_queue w"

definition spans :: "pworker \<Rightarrow> nat list \<Rightarrow> nat \<Rightarrow> nat list \<Rightarrow> bool" where
  "spans w ps m hs \<longleftrightarrow> (\<exists>k \<le> m. held w @ ps = [k ..< m] \<and> (\<forall>y < k. y \<in> set hs))"

definition part_inv :: "part \<Rightarrow> bool" where
  "part_inv s \<longleftrightarrow>
     (case pt_worker s of
        None \<Rightarrow> pt_pending s = [] \<and> (\<forall>y < pt_next s. y \<in> set (pt_handled s))
      | Some w \<Rightarrow> \<not> pw_stopped w \<and> pw_phase w \<noteq> Exited \<and> spans w (pt_pending s) (pt_next s) (pt_handled s)) \<and>
     (\<forall>w \<in> set (pt_detached s). pw_phase w = Exited \<or> (\<exists>m. spans w [] m (pt_handled s))) \<and>
     (\<forall>x \<in> set (pt_commits s). \<forall>y \<le> x. y \<in> set (pt_handled s))"

lemma spans_mono: "spans w ps m hs \<Longrightarrow> set hs \<subseteq> set hs' \<Longrightarrow> spans w ps m hs'"
  by (auto simp: spans_def)

lemma wstep_spans:
  assumes "wstep w a w'" and "spans w ps m hs" and "pw_phase w \<noteq> Exited"
  shows "case a of
      Handled x ok \<Rightarrow> spans w' ps m (x # hs) \<and> (\<forall>y < x. y \<in> set hs)
    | _ \<Rightarrow> pw_phase w' = Exited \<or> spans w' ps m hs"
  using assms
proof cases
  case (w_handled x ok)
  from assms(2) obtain k where k: "k \<le> m" "held w @ ps = [k ..< m]" "\<forall>y < k. y \<in> set hs" by (auto simp: spans_def)
  with w_handled have "x # pw_queue w @ ps = [k ..< m]" by (simp add: held_def)
  then have x: "x = k" "k < m" and rest: "pw_queue w @ ps = [Suc k ..< m]"
    by (auto simp: upt_rec [of k] split: if_splits)
  have "spans w' ps m (x # hs)"
    unfolding spans_def
    by (rule exI [of _ "Suc k"]) (use x k rest w_handled in \<open>auto simp: held_def less_Suc_eq\<close>)
  with w_handled x k(3) show ?thesis by auto
qed (auto simp: spans_def held_def)

lemma wstep_attached: "wstep w a w' \<Longrightarrow> \<not> pw_stopped w \<Longrightarrow> pw_phase w \<noteq> Exited \<Longrightarrow> \<not> pw_stopped w' \<and> pw_phase w' \<noteq> Exited"
  by (auto elim!: wstepE)

lemma wstep_exited: "wstep w a w' \<Longrightarrow> pw_phase w \<noteq> Exited"
  by (auto elim!: wstepE)

lemma act_simps [simp]:
  "pt_worker (act a s) = pt_worker s" "pt_detached (act a s) = pt_detached s" "pt_pending (act a s) = pt_pending s" "pt_next (act a s) = pt_next s"
  by (simp_all add: act_def split: action.splits)

lemma act_handled: "set (pt_handled s) \<subseteq> set (pt_handled (act a s))"
  by (auto simp: act_def split: action.splits)

text \<open>A step of any worker keeps the other parts of the invariant.\<close>

lemma act_commits:
  assumes "\<forall>x \<in> set (pt_commits s). \<forall>y \<le> x. y \<in> set (pt_handled s)"
    and "wstep w a w'" and "spans w ps m (pt_handled s)"
  shows "\<forall>x \<in> set (pt_commits (act a s)). \<forall>y \<le> x. y \<in> set (pt_handled (act a s))"
  using assms wstep_spans [OF assms(2,3) wstep_exited [OF assms(2)]]
  by (cases a) (auto simp: act_def le_less)

lemma act_spans:
  assumes "wstep w a w'" and "spans w ps m (pt_handled s)"
  shows "pw_phase w' = Exited \<or> spans w' ps m (pt_handled (act a s))"
  using wstep_spans [OF assms wstep_exited [OF assms(1)]] by (cases a) (auto simp: act_def)

lemma act_detached:
  "part_inv s \<Longrightarrow> w \<in> set (pt_detached s) \<Longrightarrow> pw_phase w = Exited \<or> (\<exists>m. spans w [] m (pt_handled (act a s)))"
  using spans_mono [OF _ act_handled] unfolding part_inv_def by blast

lemma part_inv_step:
  assumes "pstep s t" and inv: "part_inv s"
  shows "part_inv t"
  using assms(1)
proof cases
  case (p_dispatch n w)
  have "spans w [pt_next s ..< pt_next s + n] (pt_next s + n) (pt_handled s)"
  proof (cases "pt_worker s")
    case None
    with inv p_dispatch show ?thesis
      unfolding spans_def by (intro exI [of _ "pt_next s"]) (auto simp: part_inv_def held_def new_pworker_def)
  next
    case (Some w0)
    with inv p_dispatch obtain k where "k \<le> pt_next s" "held w = [k ..< pt_next s]" "\<forall>y < k. y \<in> set (pt_handled s)"
      by (auto simp: part_inv_def spans_def)
    then show ?thesis
      unfolding spans_def by (intro exI [of _ k]) (simp add: upt_add_eq_append [of k "pt_next s" n])
  qed
  with inv p_dispatch show ?thesis by (auto simp: part_inv_def new_pworker_def split: option.splits)
next
  case (p_enqueue w)
  have "held (enqueue w (pt_pending s)) = held w @ pt_pending s" by (simp add: held_def enqueue_def split: phase.splits)
  with inv p_enqueue show ?thesis by (auto simp: part_inv_def spans_def enqueue_def)
next
  case (p_work w a w')
  with inv have w: "spans w (pt_pending s) (pt_next s) (pt_handled s)" "\<not> pw_stopped w" "pw_phase w \<noteq> Exited"
    by (auto simp: part_inv_def)
  note k = act_spans [OF p_work(3) w(1)] wstep_attached [OF p_work(3) w(2,3)] act_commits [OF _ p_work(3) w(1)]
  have "\<forall>x \<in> set (pt_commits (act a s)). \<forall>y \<le> x. y \<in> set (pt_handled (act a s))"
    using inv by (intro k(3)) (simp add: part_inv_def)
  with p_work(1) k(1,2) act_detached [OF inv] show ?thesis by (simp add: part_inv_def)
next
  case (p_detached i a w')
  let ?w = "pt_detached s ! i"
  from inv p_detached have "pw_phase ?w = Exited \<or> (\<exists>m. spans ?w [] m (pt_handled s))" by (simp add: part_inv_def)
  with wstep_exited [OF p_detached(3)] obtain m where m: "spans ?w [] m (pt_handled s)" by blast
  note k = act_spans [OF p_detached(3) m] act_commits [OF _ p_detached(3) m]
  have "\<forall>w \<in> set ((pt_detached s)[i := w']). pw_phase w = Exited \<or> (\<exists>m. spans w [] m (pt_handled (act a s)))"
  proof
    fix w assume "w \<in> set ((pt_detached s)[i := w'])"
    then have "w = w' \<or> w \<in> set (pt_detached s)" using set_update_subset_insert by fastforce
    with k(1) act_detached [OF inv] show "pw_phase w = Exited \<or> (\<exists>m. spans w [] m (pt_handled (act a s)))" by blast
  qed
  moreover have "case pt_worker s of None \<Rightarrow> pt_pending s = [] \<and> (\<forall>y < pt_next s. y \<in> set (pt_handled (act a s)))
      | Some w \<Rightarrow> \<not> pw_stopped w \<and> pw_phase w \<noteq> Exited \<and> spans w (pt_pending s) (pt_next s) (pt_handled (act a s))"
    using inv spans_mono [OF _ act_handled] act_handled [of s a] by (auto simp: part_inv_def split: option.splits)
  moreover have "\<forall>x \<in> set (pt_commits (act a s)). \<forall>y \<le> x. y \<in> set (pt_handled (act a s))"
    using inv by (intro k(2)) (simp add: part_inv_def)
  ultimately show ?thesis using p_detached(1) by (simp add: part_inv_def split: option.splits)
next
  case (p_revoke w c)
  with inv have "spans (stop w) [] (pt_next s) (pt_handled s)" by (auto simp: part_inv_def spans_def held_def stop_def)
  with inv p_revoke show ?thesis by (auto simp: part_inv_def less_Suc_eq_le)
qed

interpretation partition_system: inductive_system part_init pstep part_inv
proof
  show "part_inv s" if "part_init s" for s using that by (simp add: part_inv_def part_init_def)
  show "part_inv t" if "pstep s t" "part_inv s" for s t by (rule part_inv_step [OF that])
qed

section \<open>Properties\<close>



text \<open>(C8) At least once, in order: however polling, handling, failing commits, stops and rebalances of a partition
  interleave, an offset is committed only when it and every offset before it were handled, by this worker or an earlier
  one; and the records a worker still has are consecutive, so none is skipped.\<close>

theorem partition_at_least_once:
  assumes "reach part_init pstep s"
  shows "(\<forall>x \<in> set (pt_commits s). \<forall>y \<le> x. y \<in> set (pt_handled s)) \<and>
    (\<forall>w. pt_worker s = Some w \<longrightarrow> (\<exists>k. held w @ pt_pending s = [k ..< pt_next s] \<and> (\<forall>y < k. y \<in> set (pt_handled s))))"
  using partition_system.reach_inv [OF assms] by (auto simp: part_inv_def spans_def)

text \<open>The pause that should keep one batch per partition outstanding can be undone: the worker goroutine is started
  before the first batch is enqueued, finds its queue empty and resumes fetching after the poll loop paused it, so a
  state is reachable in which a batch is queued and the partition is still being fetched.\<close>

theorem pause_race:
  "\<exists>s w. reach part_init pstep s \<and> pt_worker s = Some w \<and> pw_queue w \<noteq> [] \<and> \<not> pt_paused s"
proof -
  define s0 where "s0 = \<lparr>pt_worker = None, pt_detached = [], pt_paused = False, pt_next = 0, pt_pending = [], pt_handled = [], pt_commits = []\<rparr>"
  define s1 where "s1 = s0\<lparr>pt_worker := Some new_pworker, pt_paused := True, pt_pending := [0], pt_next := 1\<rparr>"
  define s2 where "s2 = s1\<lparr>pt_worker := Some (new_pworker\<lparr>pw_phase := Taking\<rparr>)\<rparr>"
  define s3 where "s3 = s2\<lparr>pt_paused := False, pt_worker := Some (new_pworker\<lparr>pw_phase := Waiting\<rparr>)\<rparr>"
  define s4 where "s4 = s3\<lparr>pt_worker := Some (enqueue (new_pworker\<lparr>pw_phase := Waiting\<rparr>) [0]), pt_pending := []\<rparr>"
  have 1: "pstep s0 s1" using p_dispatch [of s0 1] by (simp add: s0_def s1_def)
  have 2: "pstep s1 s2"
    using p_work [of s1 new_pworker Internal_step] w_check [of new_pworker] by (simp add: s1_def s2_def act_def new_pworker_def)
  have 3: "pstep s2 s3"
    using p_work [of s2 "new_pworker\<lparr>pw_phase := Taking\<rparr>" Resume "new_pworker\<lparr>pw_phase := Waiting\<rparr>"]
      w_empty [of "new_pworker\<lparr>pw_phase := Taking\<rparr>"] by (simp add: s2_def s3_def act_def new_pworker_def)
  have 4: "pstep s3 s4" using p_enqueue [of s3] by (simp add: s0_def s1_def s2_def s3_def s4_def)
  have 0: "reach part_init pstep s0" by (rule reach_init) (simp add: part_init_def s0_def)
  have "reach part_init pstep s4"
    by (rule reach_step [OF reach_step [OF reach_step [OF reach_step [OF 0 1] 2] 3] 4])
  moreover have "\<exists>w. pt_worker s4 = Some w \<and> pw_queue w \<noteq> []" "\<not> pt_paused s4" by (simp_all add: s4_def s3_def enqueue_def)
  ultimately show ?thesis by blast
qed

section \<open>Witnesses\<close>


lemma run_skip: "result (handle env0 W delivery1) h = Inr OutcomeSkipped"
proof -
  have d: "dl_msg delivery1 = Some msg1" "dl_decode_err delivery1 = None" by (simp_all add: delivery1_def)
  have g: "goal_digest env0 ''g'' ModeGeneral = Inr (sha256_hex env0 (trim_control ''g''))" by (simp add: goal_digest_def text_an)
  have a: "a_bool env0 h c = Inr True" "a_media env0 h c = Inr None" "a_str env0 h c = Inr ''s''" for h c by (simp_all add: env0_def)
  have "wp (handle env0 W delivery1) (\<lambda>r q. r = Inr OutcomeSkipped) h"
    by (simp add: handle_def d msg1_fields g handle_task_def Let_def locked_body_def wp_simps try_lock_def random_token_def poll_bound_def
        acquire_def a process_def media_exists_def release_if_held_def held_now_def unlock_def new_lock_def split: option.splits)
  then show ?thesis by (simp add: wp_def)
qed


theorem partition_at_least_once_witness:
  "\<exists>s. reach part_init pstep s \<and> pt_commits s = [0] \<and> 0 \<in> set (pt_handled s)"
proof -
  define s0 where "s0 = \<lparr>pt_worker = None, pt_detached = [], pt_paused = False, pt_next = 0, pt_pending = [], pt_handled = [], pt_commits = []\<rparr>"
  define w where "w = enqueue new_pworker [0]"
  define s1 where "s1 = s0\<lparr>pt_worker := Some new_pworker, pt_paused := True, pt_pending := [0], pt_next := 1\<rparr>"
  define s2 where "s2 = s1\<lparr>pt_worker := Some w, pt_pending := []\<rparr>"
  define s3 where "s3 = s2\<lparr>pt_worker := Some (w\<lparr>pw_phase := Taking\<rparr>)\<rparr>"
  define s4 where "s4 = s3\<lparr>pt_worker := Some (w\<lparr>pw_phase := Busy 0, pw_queue := []\<rparr>)\<rparr>"
  define s5 where "s5 = act (Handled 0 True) s4\<lparr>pt_worker := Some (w\<lparr>pw_phase := Looping, pw_queue := []\<rparr>)\<rparr>"
  note defs = s0_def s1_def s2_def s3_def s4_def s5_def w_def act_def new_pworker_def enqueue_def
  have 1: "pstep s0 s1" using p_dispatch [of s0 1] by (simp add: s0_def s1_def)
  have 2: "pstep s1 s2" using p_enqueue [of s1 new_pworker] by (simp add: s1_def s2_def w_def)
  have 3: "pstep s2 s3" using p_work [of s2 w Internal_step] w_check [of w] by (simp add: defs)
  have 4: "pstep s3 s4" using p_work [of s3 "w\<lparr>pw_phase := Taking\<rparr>" Internal_step] w_take [of "w\<lparr>pw_phase := Taking\<rparr>" 0 "[]"] by (simp add: defs)
  have 5: "pstep s4 s5" using p_work [of s4 "w\<lparr>pw_phase := Busy 0, pw_queue := []\<rparr>" "Handled 0 True"]
      w_handled [of "w\<lparr>pw_phase := Busy 0, pw_queue := []\<rparr>" 0 True] by (simp add: defs)
  have 0: "reach part_init pstep s0" by (rule reach_init) (simp add: part_init_def s0_def)
  have r: "reach part_init pstep s5"
    by (rule reach_step [OF reach_step [OF reach_step [OF reach_step [OF reach_step [OF 0 1] 2] 3] 4] 5])
  have "pt_commits s5 = [0]" by (simp add: defs)
  with partition_at_least_once [OF r] r show ?thesis by auto
qed

end
