(* ===== verification/Group.thy ===== *)
theory Group
  imports Runner
begin

text \<open>
  The whole runner of internal/mq/runner.go: the poll loop of Run, which dispatches every fetched partition, rebalances, the workers of all
  partitions, and Shutdown.  The partitions are those of theory Runner; \<open>P\<close> is the set of partitions of the consumed topics.  The client hands over at most one batch per
  partition and poll, only of partitions that are not paused, and blocks rebalances from a poll until AllowRebalance (kgo.BlockRebalanceOnPoll); the handling
  of a record ends (\<open>w_handled\<close>).
\<close>

section \<open>States and steps\<close>

datatype topic_partition = TopicPartition gostr int

text \<open>Where Run is: in PollRecords, dispatching the partitions of a fetch, returned.\<close>

datatype poll_phase = Polling | Dispatching "(topic_partition \<times> nat) list" | Ended

text \<open>Where Shutdown is: not called, waiting for the workers, returned with the client closed.\<close>

datatype down_phase = Up | Draining | Closed

record group =
  gp_parts :: "topic_partition \<Rightarrow> part"
  gp_poll :: poll_phase
  gp_down :: down_phase

definition new_group :: group where
  "new_group = \<lparr>gp_parts = (\<lambda>tp. \<lparr>pt_worker = None, pt_detached = [], pt_paused = False, pt_next = 0, pt_pending = [], pt_handled = [], pt_commits = []\<rparr>),
     gp_poll = Polling, gp_down = Up\<rparr>"

definition set_part :: "topic_partition \<Rightarrow> part \<Rightarrow> group \<Rightarrow> group" where
  "set_part tp s g = g\<lparr>gp_parts := (gp_parts g)(tp := s)\<rparr>"

text \<open>dispatch up to the pause, and its end.\<close>

definition dispatch_part :: "nat \<Rightarrow> part \<Rightarrow> part" where
  "dispatch_part n s = s\<lparr>pt_worker := Some (case pt_worker s of None \<Rightarrow> new_pworker | Some w \<Rightarrow> w), pt_paused := True,
     pt_pending := [pt_next s ..< pt_next s + n], pt_next := pt_next s + n\<rparr>"

definition enqueue_part :: "part \<Rightarrow> part" where
  "enqueue_part s = s\<lparr>pt_worker := map_option (\<lambda>w. enqueue w (pt_pending s)) (pt_worker s), pt_pending := []\<rparr>"

text \<open>What Shutdown does to a partition: its worker is stopped and removed from the map.\<close>

definition stop_part :: "part \<Rightarrow> part" where
  "stop_part s = (case pt_worker s of None \<Rightarrow> s | Some w \<Rightarrow> s\<lparr>pt_worker := None, pt_detached := pt_detached s @ [stop w]\<rparr>)"

definition part_exited :: "part \<Rightarrow> bool" where
  "part_exited s = list_all (\<lambda>w. pw_phase w = Exited) (pt_detached s)"

inductive gstep :: "topic_partition set \<Rightarrow> group \<Rightarrow> group \<Rightarrow> bool" for P where
  g_poll: "gp_poll g = Polling \<Longrightarrow> distinct (map fst fs) \<Longrightarrow>
     (\<forall>x \<in> set fs. fst x \<in> P \<and> 0 < snd x \<and> \<not> pt_paused (gp_parts g (fst x))) \<Longrightarrow> gstep P g (g\<lparr>gp_poll := Dispatching fs\<rparr>)"
| g_dispatch: "gp_poll g = Dispatching ((tp, n) # fs) \<Longrightarrow> pt_pending (gp_parts g tp) = [] \<Longrightarrow>
     gstep P g (set_part tp (dispatch_part n (gp_parts g tp)) g)"
| g_enqueue: "gp_poll g = Dispatching ((tp, n) # fs) \<Longrightarrow> pt_pending (gp_parts g tp) \<noteq> [] \<Longrightarrow>
     gstep P g (set_part tp (enqueue_part (gp_parts g tp)) g\<lparr>gp_poll := Dispatching fs\<rparr>)"
| g_allow: "gp_poll g = Dispatching [] \<Longrightarrow> gstep P g (g\<lparr>gp_poll := Polling\<rparr>)"
| g_cancel: "gp_poll g = Polling \<Longrightarrow> gstep P g (g\<lparr>gp_poll := Ended\<rparr>)"
| g_work: "pt_worker (gp_parts g tp) = Some w \<Longrightarrow> wstep w a w' \<Longrightarrow>
     gstep P g (set_part tp (act a (gp_parts g tp)\<lparr>pt_worker := Some w'\<rparr>) g)"
| g_detached: "i < length (pt_detached (gp_parts g tp)) \<Longrightarrow> wstep (pt_detached (gp_parts g tp) ! i) a w' \<Longrightarrow>
     gstep P g (set_part tp (act a (gp_parts g tp)\<lparr>pt_detached := (pt_detached (gp_parts g tp))[i := w']\<rparr>) g)"
| g_revoke: "gp_poll g = Polling \<Longrightarrow> pt_worker (gp_parts g tp) = Some w \<Longrightarrow> c = 0 \<or> (\<exists>x \<in> set (pt_commits (gp_parts g tp)). c = Suc x) \<Longrightarrow>
     gstep P g (set_part tp ((gp_parts g tp)\<lparr>pt_worker := None, pt_detached := pt_detached (gp_parts g tp) @ [stop w], pt_paused := False, pt_next := c\<rparr>) g)"
| g_shutdown: "gp_poll g = Ended \<Longrightarrow> gp_down g = Up \<Longrightarrow> gstep P g (g\<lparr>gp_parts := (\<lambda>tp. stop_part (gp_parts g tp)), gp_down := Draining\<rparr>)"
| g_close: "gp_down g = Draining \<Longrightarrow> (\<forall>tp \<in> P. part_exited (gp_parts g tp)) \<Longrightarrow> gstep P g (g\<lparr>gp_down := Closed\<rparr>)"

inductive_cases gstepE: "gstep P g g'"

section \<open>The invariant\<close>

text \<open>What a partition keeps also after its worker was taken away: its commits are safe, and the workers that still run were stopped.\<close>

definition part_safe :: "part \<Rightarrow> bool" where
  "part_safe s = ((\<forall>w \<in> set (pt_detached s). pw_phase w = Exited \<or> (\<exists>m. spans w [] m (pt_handled s))) \<and>
     (\<forall>x \<in> set (pt_commits s). \<forall>y \<le> x. y \<in> set (pt_handled s)))"

definition gpart_inv :: "topic_partition set \<Rightarrow> down_phase \<Rightarrow> topic_partition \<Rightarrow> part \<Rightarrow> bool" where
  "gpart_inv P down tp s = (part_safe s \<and> (if down = Up then part_inv s else pt_worker s = None) \<and>
     (\<forall>w \<in> set (pt_detached s). pw_stopped w) \<and> (tp \<notin> P \<longrightarrow> pt_worker s = None \<and> pt_detached s = []) \<and> (down = Closed \<longrightarrow> part_exited s))"

definition poll_inv :: "topic_partition set \<Rightarrow> (topic_partition \<Rightarrow> part) \<Rightarrow> poll_phase \<Rightarrow> bool" where
  "poll_inv P ps ph = (case ph of
      Dispatching fs \<Rightarrow> distinct (map fst fs) \<and> (\<forall>x \<in> set fs. fst x \<in> P \<and> 0 < snd x \<and> (pt_pending (ps (fst x)) = [] \<longrightarrow> \<not> pt_paused (ps (fst x)))) \<and>
        (\<forall>tp. pt_pending (ps tp) \<noteq> [] \<longrightarrow> fs \<noteq> [] \<and> tp = fst (hd fs))
    | _ \<Rightarrow> \<forall>tp. pt_pending (ps tp) = [])"

definition group_inv :: "topic_partition set \<Rightarrow> group \<Rightarrow> bool" where
  "group_inv P g = ((\<forall>tp. gpart_inv P (gp_down g) tp (gp_parts g tp)) \<and> poll_inv P (gp_parts g) (gp_poll g) \<and>
     (gp_down g \<noteq> Up \<longrightarrow> gp_poll g = Ended))"

lemma safe_of_inv: "part_inv s \<Longrightarrow> part_safe s"
  by (simp add: part_inv_def part_safe_def)

lemma wstep_stopped: "wstep w a w' \<Longrightarrow> pw_stopped w' = pw_stopped w"
  by (auto elim!: wstepE)

lemma act_pause [simp]: "pt_paused (act a s) \<Longrightarrow> pt_paused s"
  by (simp add: act_def split: action.splits)

lemma safe_detached:
  assumes "part_safe s" and "i < length (pt_detached s)" and "wstep (pt_detached s ! i) a w'"
  shows "part_safe (act a s\<lparr>pt_detached := (pt_detached s)[i := w']\<rparr>)"
proof -
  let ?w = "pt_detached s ! i"
  from assms(1,2) have "pw_phase ?w = Exited \<or> (\<exists>m. spans ?w [] m (pt_handled s))" by (simp add: part_safe_def)
  with wstep_exited [OF assms(3)] obtain m where m: "spans ?w [] m (pt_handled s)" by blast
  note k = act_spans [OF assms(3) m] act_commits [OF _ assms(3) m]
  have "pw_phase w = Exited \<or> (\<exists>m. spans w [] m (pt_handled (act a s)))" if "w \<in> set ((pt_detached s)[i := w'])" for w
  proof -
    from that have "w = w' \<or> w \<in> set (pt_detached s)" using set_update_subset_insert by fastforce
    with k(1) assms(1) spans_mono [OF _ act_handled] show ?thesis unfolding part_safe_def by blast
  qed
  moreover have "\<forall>x \<in> set (pt_commits (act a s)). \<forall>y \<le> x. y \<in> set (pt_handled (act a s))"
    using assms(1) by (intro k(2)) (simp add: part_safe_def)
  ultimately show ?thesis by (simp add: part_safe_def)
qed

lemma group_part: "group_inv P g \<Longrightarrow> gpart_inv P (gp_down g) tp (gp_parts g tp)"
  by (simp add: group_inv_def)

lemma group_part_up: "group_inv P g \<Longrightarrow> gp_down g = Up \<Longrightarrow> gpart_inv P Up tp (gp_parts g tp)"
  using group_part [of P g tp] by simp

text \<open>A step of the partition \<open>tp\<close> alone that leaves the pending batch and does not pause.\<close>

lemma poll_inv_mono:
  assumes "\<And>t. pt_pending (ps' t) = pt_pending (ps t)" and "\<And>t. pt_paused (ps' t) \<Longrightarrow> pt_paused (ps t)" and "poll_inv P ps ph"
  shows "poll_inv P ps' ph"
proof (cases ph)
  case (Dispatching fs)
  with assms show ?thesis unfolding poll_inv_def by (auto simp: assms(1))
qed (use assms(3) in \<open>auto simp: poll_inv_def assms(1)\<close>)

lemma dispatchingD:
  assumes "poll_inv P ps (Dispatching ((tp, n) # fs))"
  shows "tp \<in> P" "0 < n" "distinct (tp # map fst fs)" "pt_pending (ps tp) = [] \<Longrightarrow> \<not> pt_paused (ps tp)" "t \<noteq> tp \<Longrightarrow> pt_pending (ps t) = []"
    "x \<in> set fs \<Longrightarrow> fst x \<in> P \<and> 0 < snd x \<and> \<not> pt_paused (ps (fst x)) \<and> fst x \<noteq> tp"
proof -
  have d: "distinct (tp # map fst fs)"
    and p1: "\<And>x. x \<in> set ((tp, n) # fs) \<Longrightarrow> fst x \<in> P \<and> 0 < snd x \<and> (pt_pending (ps (fst x)) = [] \<longrightarrow> \<not> pt_paused (ps (fst x)))"
    and p2: "\<And>t. pt_pending (ps t) \<noteq> [] \<Longrightarrow> t = tp"
    using assms unfolding poll_inv_def poll_phase.case list.sel fst_conv list.map by blast+
  show "distinct (tp # map fst fs)" by (rule d)
  show "tp \<in> P" "0 < n" "pt_pending (ps tp) = [] \<Longrightarrow> \<not> pt_paused (ps tp)" using p1 [of "(tp, n)"] by simp_all
  show old: "pt_pending (ps t) = []" if "t \<noteq> tp" for t using p2 that by blast
  assume x: "x \<in> set fs"
  then have "fst x \<noteq> tp" using d by force
  with p1 [of x] x old [of "fst x"] show "fst x \<in> P \<and> 0 < snd x \<and> \<not> pt_paused (ps (fst x)) \<and> fst x \<noteq> tp" by simp
qed

lemma dispatchingI:
  assumes "distinct (map fst fs)" and "\<And>x. x \<in> set fs \<Longrightarrow> fst x \<in> P \<and> 0 < snd x \<and> \<not> pt_paused (ps (fst x))" and "\<And>t. pt_pending (ps t) = []"
  shows "poll_inv P ps (Dispatching fs)"
  using assms unfolding poll_inv_def poll_phase.case by blast

lemma group_set_part:
  assumes "group_inv P g" and "gpart_inv P (gp_down g) tp s" and "pt_pending s = pt_pending (gp_parts g tp)" and "pt_paused s \<Longrightarrow> pt_paused (gp_parts g tp)"
  shows "group_inv P (set_part tp s g)"
proof -
  have "poll_inv P ((gp_parts g)(tp := s)) (gp_poll g)"
  proof (rule poll_inv_mono)
    show "poll_inv P (gp_parts g) (gp_poll g)" using assms(1) by (simp add: group_inv_def)
  qed (use assms(3,4) in \<open>simp_all split: if_splits\<close>)
  with assms(1,2) show ?thesis by (simp add: group_inv_def set_part_def)
qed

lemma group_inv_step:
  assumes "gstep P g g'" and inv: "group_inv P g"
  shows "group_inv P g'"
  using assms(1)
proof cases
  case (g_poll fs)
  with inv show ?thesis by (auto simp: group_inv_def poll_inv_def split: if_splits)
next
  case (g_dispatch tp n fs)
  have p: "poll_inv P (gp_parts g) (Dispatching ((tp, n) # fs))" using inv g_dispatch(2) by (simp add: group_inv_def)
  have up: "gp_down g = Up" using inv g_dispatch(2) by (auto simp: group_inv_def)
  have tp: "tp \<in> P" "0 < n" "\<not> pt_paused (gp_parts g tp)" using dispatchingD [OF p] g_dispatch(3) by blast+
  let ?s = "gp_parts g tp"
  have k: "gpart_inv P Up tp ?s" by (rule group_part_up [OF inv up])
  then have "part_inv ?s" by (simp add: gpart_inv_def)
  moreover have "pstep ?s (dispatch_part n ?s)" unfolding dispatch_part_def by (rule p_dispatch) (use g_dispatch tp in auto)
  ultimately have "part_inv (dispatch_part n ?s)" by (rule part_inv_step [rotated])
  moreover have "\<forall>w \<in> set (pt_detached ?s). pw_stopped w" using k by (simp add: gpart_inv_def)
  ultimately have "gpart_inv P Up tp (dispatch_part n ?s)" using tp by (auto simp: gpart_inv_def safe_of_inv dispatch_part_def)
  moreover have "poll_inv P ((gp_parts g)(tp := dispatch_part n ?s)) (gp_poll g)"
  proof -
    let ?ps = "(gp_parts g)(tp := dispatch_part n ?s)"
    have new: "pt_pending (?ps tp) \<noteq> []" using tp(2) by (simp add: dispatch_part_def)
    note rest = dispatchingD(6) [OF p] and old = dispatchingD(5) [OF p]
    show ?thesis unfolding g_dispatch(2) poll_inv_def poll_phase.case
    proof (intro conjI ballI allI impI)
      show "distinct (map fst ((tp, n) # fs))" using dispatchingD(3) [OF p] by simp
      show "fst x \<in> P" "0 < snd x" if "x \<in> set ((tp, n) # fs)" for x
        using that tp rest [of x] by (cases "x = (tp, n)"; simp)+
      show "\<not> pt_paused (?ps (fst x))" if "x \<in> set ((tp, n) # fs)" "pt_pending (?ps (fst x)) = []" for x
        using that new rest [of x] by (cases "x = (tp, n)"; cases "fst x = tp"; simp)
      show "(tp, n) # fs \<noteq> []" "t = fst (hd ((tp, n) # fs))" if "pt_pending (?ps t) \<noteq> []" for t
        using that old [of t] by (cases "t = tp"; simp)+
    qed
  qed
  ultimately show ?thesis using inv g_dispatch up by (simp add: group_inv_def set_part_def)
next
  case (g_enqueue tp n fs)
  let ?s = "gp_parts g tp"
  from inv g_enqueue have up: "gp_down g = Up" by (auto simp: group_inv_def)
  have k: "gpart_inv P Up tp ?s" by (rule group_part_up [OF inv up])
  then have s: "part_inv ?s" by (simp add: gpart_inv_def)
  with g_enqueue obtain w where w: "pt_worker ?s = Some w" by (auto simp: part_inv_def split: option.splits)
  have "pstep ?s (enqueue_part ?s)" unfolding enqueue_part_def w option.map by (rule p_enqueue [OF w g_enqueue(3)])
  with s have "part_inv (enqueue_part ?s)" by (rule part_inv_step [rotated])
  moreover have "(\<forall>w \<in> set (pt_detached ?s). pw_stopped w) \<and> (tp \<notin> P \<longrightarrow> pt_worker ?s = None \<and> pt_detached ?s = [])"
    using k by (simp add: gpart_inv_def)
  ultimately have "gpart_inv P Up tp (enqueue_part ?s)" by (auto simp: gpart_inv_def safe_of_inv enqueue_part_def)
  moreover have "poll_inv P ((gp_parts g)(tp := enqueue_part ?s)) (Dispatching fs)"
  proof -
    have p: "poll_inv P (gp_parts g) (Dispatching ((tp, n) # fs))" using inv g_enqueue(2) by (simp add: group_inv_def)
    show ?thesis by (rule dispatchingI) (use dispatchingD(3,5,6) [OF p] in \<open>auto simp: enqueue_part_def\<close>)
  qed
  ultimately show ?thesis using inv g_enqueue up by (simp add: group_inv_def set_part_def)
next
  case g_allow
  with inv show ?thesis by (auto simp: group_inv_def poll_inv_def)
next
  case g_cancel
  with inv show ?thesis by (auto simp: group_inv_def poll_inv_def)
next
  case (g_work tp w a w')
  let ?s = "gp_parts g tp" and ?s' = "act a (gp_parts g tp)\<lparr>pt_worker := Some w'\<rparr>"
  have k: "gpart_inv P (gp_down g) tp ?s" by (rule group_part [OF inv])
  with g_work have up: "gp_down g = Up" "part_inv ?s" by (auto simp: gpart_inv_def split: if_splits)
  have "part_inv ?s'" by (rule part_inv_step [OF p_work [OF g_work(2,3)] up(2)])
  with k up g_work show ?thesis unfolding g_work(1)
    by (intro group_set_part [OF inv]) (auto simp: gpart_inv_def safe_of_inv dest: act_pause)
next
  case (g_detached i tp a w')
  let ?s = "gp_parts g tp" and ?s' = "act a (gp_parts g tp)\<lparr>pt_detached := (pt_detached (gp_parts g tp))[i := w']\<rparr>"
  have k: "gpart_inv P (gp_down g) tp ?s" by (rule group_part [OF inv])
  have "pw_stopped w'" using k g_detached(2) wstep_stopped [OF g_detached(3)] by (simp add: gpart_inv_def)
  then have st: "\<forall>w \<in> set (pt_detached ?s'). pw_stopped w" using k by (auto simp: gpart_inv_def dest!: set_update_subset_insert [THEN subsetD])
  have "gp_down g \<noteq> Closed" using k g_detached(2) wstep_exited [OF g_detached(3)] by (auto simp: gpart_inv_def part_exited_def list_all_length)
  moreover have "part_inv ?s'" if "gp_down g = Up"
    using part_inv_step [OF p_detached [OF g_detached(2,3)]] k that by (simp add: gpart_inv_def)
  moreover have "part_safe ?s'" using safe_detached [OF _ g_detached(2,3)] k by (simp add: gpart_inv_def)
  ultimately show ?thesis unfolding g_detached(1)
    using k st g_detached(2) by (intro group_set_part [OF inv]) (auto simp: gpart_inv_def dest: act_pause)
next
  case (g_revoke tp w c)
  let ?s = "gp_parts g tp"
  have up: "gp_down g = Up" using inv g_revoke by (auto simp: group_inv_def)
  have k: "gpart_inv P Up tp ?s" by (rule group_part_up [OF inv up])
  have "pt_pending ?s = []" using inv g_revoke by (simp add: group_inv_def poll_inv_def)
  from part_inv_step [OF p_revoke [OF g_revoke(3) this g_revoke(4)]] k
  have "part_inv (?s\<lparr>pt_worker := None, pt_detached := pt_detached ?s @ [stop w], pt_paused := False, pt_next := c\<rparr>)" by (simp add: gpart_inv_def)
  then show ?thesis unfolding g_revoke(1)
    using k up g_revoke(3) by (intro group_set_part [OF inv]) (auto simp: gpart_inv_def safe_of_inv stop_def)
next
  case g_shutdown
  have "gpart_inv P Draining tp (stop_part (gp_parts g tp))" for tp
  proof -
    have k: "gpart_inv P Up tp (gp_parts g tp)" by (rule group_part_up [OF inv g_shutdown(3)])
    moreover have "pt_pending (gp_parts g tp) = []" using inv g_shutdown by (simp add: group_inv_def poll_inv_def)
    ultimately show ?thesis
      by (auto simp: gpart_inv_def part_inv_def part_safe_def stop_part_def stop_def spans_def held_def split: option.splits)
  qed
  moreover have "pt_pending (stop_part s) = pt_pending s" for s by (simp add: stop_part_def split: option.splits)
  ultimately show ?thesis using inv g_shutdown by (auto simp: group_inv_def poll_inv_def)
next
  case g_close
  have "gpart_inv P Closed tp (gp_parts g tp)" for tp
    using group_part [OF inv, of tp] g_close by (cases "tp \<in> P") (auto simp: gpart_inv_def part_exited_def)
  with inv g_close show ?thesis by (auto simp: group_inv_def)
qed

lemma group_inv_init: "group_inv P new_group"
  by (simp add: group_inv_def gpart_inv_def poll_inv_def new_group_def part_inv_def part_safe_def)

interpretation runner: inductive_system "\<lambda>g. g = new_group" "gstep P" "group_inv P"
  by unfold_locales (auto intro: group_inv_init group_inv_step)

section \<open>Draining\<close>

text \<open>How many steps a stopped worker may still take.\<close>

definition drain_weight :: "pworker \<Rightarrow> nat" where
  "drain_weight w = (case pw_phase w of Exited \<Rightarrow> 0 | Looping \<Rightarrow> 1 | Waiting \<Rightarrow> 2 | Busy x \<Rightarrow> 2 | Taking \<Rightarrow> 3)"

definition part_left :: "part \<Rightarrow> nat" where
  "part_left s = sum_list (map drain_weight (pt_detached s))"

definition drain_left :: "topic_partition set \<Rightarrow> group \<Rightarrow> nat" where
  "drain_left P g = (\<Sum>tp \<in> P. part_left (gp_parts g tp)) + (if gp_down g = Closed then 0 else 1)"

lemma wstep_drains: "wstep w a w' \<Longrightarrow> pw_stopped w \<Longrightarrow> drain_weight w' < drain_weight w"
  by (auto elim!: wstepE simp: drain_weight_def)

lemma wstep_stopped_exists: "pw_stopped w \<Longrightarrow> pw_phase w \<noteq> Exited \<Longrightarrow> \<exists>a w'. wstep w a w'"
proof (cases "pw_phase w")
  case Taking
  then show ?thesis by (cases "pw_queue w") (blast intro: w_empty w_take)+
qed (blast intro: w_return w_quit w_abandon)+

lemma part_left_update:
  assumes "i < length (pt_detached s)" and "drain_weight w' < drain_weight (pt_detached s ! i)"
  shows "part_left (act a s\<lparr>pt_detached := (pt_detached s)[i := w']\<rparr>) < part_left s"
proof -
  let ?ws = "map drain_weight (pt_detached s)"
  have i: "i < length ?ws" "?ws ! i = drain_weight (pt_detached s ! i)" using assms(1) by simp_all
  have "?ws ! i \<le> sum_list ?ws" by (rule elem_le_sum_list [OF i(1)])
  with i assms(2) show ?thesis by (simp add: part_left_def map_update sum_list_update)
qed

lemma drain_left_update: "finite P \<Longrightarrow> tp \<in> P \<Longrightarrow> part_left s < part_left (gp_parts g tp) \<Longrightarrow> drain_left P (set_part tp s g) < drain_left P g"
  unfolding drain_left_def set_part_def by (auto intro!: sum_strict_mono_ex1)

lemma draining_step:
  assumes "finite P" and inv: "group_inv P g" and "gp_down g \<noteq> Up" and "gstep P g g'"
  shows "drain_left P g' < drain_left P g"
  using assms(4)
proof cases
  case (g_detached i tp a w')
  have k: "gpart_inv P (gp_down g) tp (gp_parts g tp)" by (rule group_part [OF inv])
  then have "tp \<in> P" using g_detached(2) by (auto simp: gpart_inv_def)
  moreover have "pw_stopped (pt_detached (gp_parts g tp) ! i)" using k g_detached(2) by (simp add: gpart_inv_def)
  ultimately show ?thesis unfolding g_detached(1)
    by (intro drain_left_update [OF assms(1)] part_left_update [OF g_detached(2)] wstep_drains [OF g_detached(3)])
next
  case (g_work tp w a w')
  with group_part [OF inv, of tp] assms(3) show ?thesis by (auto simp: gpart_inv_def)
qed (use inv assms(3) in \<open>auto simp: group_inv_def drain_left_def\<close>)

lemma draining_progress:
  assumes "gp_down g = Draining" and inv: "group_inv P g"
  shows "\<exists>g'. gstep P g g'"
proof (cases "\<forall>tp \<in> P. part_exited (gp_parts g tp)")
  case True
  with assms(1) show ?thesis by (blast intro: g_close)
next
  case False
  then obtain tp i where i: "i < length (pt_detached (gp_parts g tp))" "pw_phase (pt_detached (gp_parts g tp) ! i) \<noteq> Exited"
    by (auto simp: part_exited_def list_all_length)
  then have "pw_stopped (pt_detached (gp_parts g tp) ! i)" using group_part [OF inv, of tp] by (simp add: gpart_inv_def)
  with i show ?thesis by (meson wstep_stopped_exists g_detached)
qed

lemma closed_stuck:
  assumes "gp_down g = Closed" and inv: "group_inv P g"
  shows "\<not> gstep P g g'"
proof
  assume "gstep P g g'"
  then show False
  proof cases
    case (g_detached i tp a w')
    with group_part [OF inv, of tp] assms(1) wstep_exited [OF g_detached(3)] show False
      by (simp add: gpart_inv_def part_exited_def list_all_length)
  next
    case (g_work tp w a w')
    with group_part [OF inv, of tp] assms(1) show False by (simp add: gpart_inv_def)
  qed (use inv assms(1) in \<open>auto simp: group_inv_def\<close>)
qed

section \<open>Property\<close>

text \<open>(C9) The consumer group as a whole: however the poll loop, the workers of all partitions, rebalances and the shutdown interleave, on every
  partition an offset is committed only when it and all before it were handled; once Shutdown was called it never gets stuck, every step lowers a
  bound, so it ends with the client closed; and then no worker runs any more, so nothing is committed afterwards.\<close>

theorem group_shutdown:
  assumes "finite P" and "reach (\<lambda>g. g = new_group) (gstep P) g"
  shows "(\<forall>tp. \<forall>x \<in> set (pt_commits (gp_parts g tp)). \<forall>y \<le> x. y \<in> set (pt_handled (gp_parts g tp))) \<and>
    (gp_down g = Draining \<longrightarrow> (\<exists>g'. gstep P g g') \<and> (\<forall>g'. gstep P g g' \<longrightarrow> drain_left P g' < drain_left P g)) \<and>
    (gp_down g = Closed \<longrightarrow> (\<forall>tp w. w \<in> set (pt_detached (gp_parts g tp)) \<longrightarrow> pw_phase w = Exited) \<and> (\<forall>g'. \<not> gstep P g g'))"
proof (intro conjI impI)
  have inv: "group_inv P g" by (rule runner.reach_inv [OF assms(2)])
  show "\<forall>tp. \<forall>x \<in> set (pt_commits (gp_parts g tp)). \<forall>y \<le> x. y \<in> set (pt_handled (gp_parts g tp))"
    using group_part [OF inv] by (simp add: gpart_inv_def part_safe_def)
  show "\<exists>g'. gstep P g g'" if "gp_down g = Draining" by (rule draining_progress [OF that inv])
  show "\<forall>g'. gstep P g g' \<longrightarrow> drain_left P g' < drain_left P g" if "gp_down g = Draining"
    using draining_step [OF assms(1) inv] that by simp
  show "\<forall>tp w. w \<in> set (pt_detached (gp_parts g tp)) \<longrightarrow> pw_phase w = Exited" "\<forall>g'. \<not> gstep P g g'" if "gp_down g = Closed"
    using group_part [OF inv] closed_stuck [OF that inv] that by (simp_all add: gpart_inv_def part_exited_def list_all_iff)
qed

text \<open>A record of a partition is fetched, and the server is shut down before the worker took it: it stays uncommitted.\<close>

theorem group_shutdown_witness:
  "\<exists>g tp. reach (\<lambda>g. g = new_group) (gstep {tp}) g \<and> gp_down g = Draining \<and> pt_commits (gp_parts g tp) = [] \<and>
     map pw_queue (pt_detached (gp_parts g tp)) = [[0]] \<and> drain_left {tp} g = 2 \<and> (\<exists>g'. gstep {tp} g g')"
proof -
  define tp where "tp = TopicPartition TopicAnalysis 0"
  define s0 where "s0 = gp_parts new_group tp"
  define g1 where "g1 = new_group\<lparr>gp_poll := Dispatching [(tp, 1)]\<rparr>"
  define g2 where "g2 = set_part tp (dispatch_part 1 s0) g1"
  define g3 where "g3 = set_part tp (enqueue_part (dispatch_part 1 s0)) g2\<lparr>gp_poll := Dispatching []\<rparr>"
  define g4 where "g4 = g3\<lparr>gp_poll := Polling\<rparr>"
  define g5 where "g5 = g4\<lparr>gp_poll := Ended\<rparr>"
  define g6 where "g6 = g5\<lparr>gp_parts := (\<lambda>tp. stop_part (gp_parts g5 tp)), gp_down := Draining\<rparr>"
  note defs = s0_def g1_def g2_def g3_def g4_def g5_def g6_def new_group_def set_part_def dispatch_part_def enqueue_part_def enqueue_def new_pworker_def
  have 1: "gstep {tp} new_group g1" unfolding g1_def by (rule g_poll) (simp_all add: new_group_def)
  have 2: "gstep {tp} g1 g2" using g_dispatch [of g1 tp 1 "[]" "{tp}"] by (simp add: g1_def g2_def s0_def new_group_def)
  have 3: "gstep {tp} g2 g3" using g_enqueue [of g2 tp 1 "[]" "{tp}"] by (simp add: defs)
  have 4: "gstep {tp} g3 g4" unfolding g4_def by (rule g_allow) (simp add: g3_def)
  have 5: "gstep {tp} g4 g5" unfolding g5_def by (rule g_cancel) (simp add: g4_def)
  have 6: "gstep {tp} g5 g6" unfolding g6_def by (rule g_shutdown) (simp_all add: defs)
  have 0: "reach (\<lambda>g. g = new_group) (gstep {tp}) new_group" by (rule reach_init) (rule refl)
  have r: "reach (\<lambda>g. g = new_group) (gstep {tp}) g6"
    by (rule reach_step [OF reach_step [OF reach_step [OF reach_step [OF reach_step [OF reach_step [OF 0 1] 2] 3] 4] 5] 6])
  have d: "gp_down g6 = Draining" by (simp add: g6_def)
  have "pt_commits (gp_parts g6 tp) = []" "map pw_queue (pt_detached (gp_parts g6 tp)) = [[0]]" "drain_left {tp} g6 = 2"
    by (simp_all add: defs stop_part_def stop_def drain_left_def part_left_def drain_weight_def)
  moreover have "\<exists>g'. gstep {tp} g6 g'" using group_shutdown [OF _ r] d by simp
  ultimately show ?thesis using r d by (intro exI [of _ g6], intro exI [of _ tp]) simp
qed

end
