(* ===== verification/Auth.thy ===== *)
theory Auth
  imports Effects
begin

text \<open>
  Accounts and sessions: internal/auth/auth.go over the users table and Redis.  PBKDF2 (golang.org/x/crypto) is the
  parameter \<open>pbkdf2\<close>; the base64 alphabets of encoding/base64 are written out.  Creating a user answers the new id.
\<close>

section \<open>Base64 without padding (encoding/base64)\<close>

definition b64_char :: "bool \<Rightarrow> nat \<Rightarrow> char" where
  "b64_char url n =
     (if n < 26 then char_of (65 + n) else if n < 52 then char_of (71 + n) else if n < 62 then char_of (n - 4)
      else if n = 62 then (if url then CHR ''-'' else CHR ''+'') else (if url then CHR ''_'' else CHR ''/''))"

definition b64_val :: "char \<Rightarrow> nat option" where
  "b64_val c = (let b = byte c in
     if 65 \<le> b \<and> b \<le> 90 then Some (b - 65) else if 97 \<le> b \<and> b \<le> 122 then Some (b - 71)
     else if 48 \<le> b \<and> b \<le> 57 then Some (b + 4) else if c = CHR ''+'' then Some 62 else if c = CHR ''/'' then Some 63 else None)"

text \<open>The six-bit groups of a byte string, and the bytes of such groups.\<close>

fun b64_sextets :: "gostr \<Rightarrow> nat list" where
  "b64_sextets [] = []"
| "b64_sextets [a] = [byte a div 4, byte a mod 4 * 16]"
| "b64_sextets [a, b] = [byte a div 4, byte a mod 4 * 16 + byte b div 16, byte b mod 16 * 4]"
| "b64_sextets (a # b # c # s) =
     [byte a div 4, byte a mod 4 * 16 + byte b div 16, byte b mod 16 * 4 + byte c div 64, byte c mod 64] @ b64_sextets s"

definition b64_encode :: "bool \<Rightarrow> gostr \<Rightarrow> gostr" where
  "b64_encode url s = map (b64_char url) (b64_sextets s)"

fun b64_groups :: "nat list \<Rightarrow> gostr option" where
  "b64_groups [] = Some []"
| "b64_groups [a] = None"
| "b64_groups [a, b] = Some [char_of (a * 4 + b div 16)]"
| "b64_groups [a, b, c] = Some [char_of (a * 4 + b div 16), char_of (b mod 16 * 16 + c div 4)]"
| "b64_groups (a # b # c # d # s) =
     map_option (\<lambda>t. [char_of (a * 4 + b div 16), char_of (b mod 16 * 16 + c div 4), char_of (c mod 4 * 64 + d)] @ t) (b64_groups s)"

text \<open>DecodeString of the standard alphabet: line breaks are skipped, unused bits of the last group ignored.\<close>

definition b64_decode :: "gostr \<Rightarrow> gostr option" where
  "b64_decode s = (case those (map b64_val (filter (\<lambda>c. byte c \<noteq> 10 \<and> byte c \<noteq> 13) s)) of
      None \<Rightarrow> None
    | Some vs \<Rightarrow> b64_groups vs)"

section \<open>Input checks\<close>

definition passwordIterations :: int where "passwordIterations = 600000"
definition passwordKeyBytes :: nat where "passwordKeyBytes = 32"
definition saltBytes :: nat where "saltBytes = 16"
definition tokenBytes :: nat where "tokenBytes = 32"
definition sessionTTL :: int where "sessionTTL = hours 24"
definition maxLoginFailures :: int where "maxLoginFailures = 8"
definition loginFailureWindow :: int where "loginFailureWindow = minutes 10"
definition maxPasswordLength :: nat where "maxPasswordLength = 128"
definition maxNicknameLength :: nat where "maxNicknameLength = 50"

text \<open>The regular expression \<^verbatim>\<open>^[A-Za-z0-9_]{3,32}$\<close>.\<close>

definition is_word_char :: "char \<Rightarrow> bool" where
  "is_word_char c = (is_digit c \<or> (65 \<le> byte c \<and> byte c \<le> 90) \<or> (97 \<le> byte c \<and> byte c \<le> 122) \<or> c = CHR ''_'')"

definition username_re :: "gostr \<Rightarrow> bool" where
  "username_re s = (3 \<le> length s \<and> length s \<le> 32 \<and> list_all is_word_char s)"

definition auth_reply :: "int \<Rightarrow> gostr \<Rightarrow> user_info option \<Rightarrow> gostr \<Rightarrow> auth_response" where
  "auth_reply code msg user token = \<lparr>rs_code = code, rs_msg = msg, rs_user = user, rs_token = token\<rparr>"

definition user_view :: "user \<Rightarrow> user_info" where
  "user_view u = \<lparr>ui_id = u_id u, ui_name = u_name u, ui_nickname = u_nickname u, ui_avatar = u_avatar u, ui_role = u_role u\<rparr>"

definition normalize_username :: "gostr option \<Rightarrow> gostr \<times> bool" where
  "normalize_username username = (case username of
      None \<Rightarrow> ([], False)
    | Some s \<Rightarrow> (trim_space s, username_re (trim_space s)))"

definition normalize_nickname :: "gostr option \<Rightarrow> gostr \<times> bool" where
  "normalize_nickname nickname = (case nickname of
      None \<Rightarrow> ([], True)
    | Some s \<Rightarrow> if is_blank s then ([], True) else (trim_space s, utf16_len (trim_space s) \<le> maxNicknameLength))"

section \<open>Passwords\<close>

definition derive :: "env \<Rightarrow> gostr \<Rightarrow> gostr \<Rightarrow> int \<Rightarrow> gostr" where
  "derive E password salt iterations = pbkdf2 E password salt iterations passwordKeyBytes"

definition format_hash :: "int \<Rightarrow> gostr \<Rightarrow> gostr \<Rightarrow> gostr" where
  "format_hash iterations salt hash = join ''$'' [''pbkdf2'', itoa iterations, b64_encode False salt, b64_encode False hash]"

definition hash_password :: "env \<Rightarrow> gostr \<Rightarrow> gostr opE" where
  "hash_password E password =
     bindE (ask (a_str E) (Os (ORandom saltBytes))) (\<lambda>salt.
     okE (format_hash passwordIterations salt (derive E password salt passwordIterations)))"

definition is_hashed :: "gostr \<Rightarrow> bool" where
  "is_hashed stored = has_prefix stored ''pbkdf2$''"

definition needs_rehash :: "gostr \<Rightarrow> bool" where
  "needs_rehash stored =
     (if \<not> is_hashed stored then True
      else let parts = split_on (CHR ''$'') stored in
        if length parts < 4 then True
        else case atoi (parts ! 1) of None \<Rightarrow> True | Some iterations \<Rightarrow> iterations < passwordIterations)"

definition password_matches :: "env \<Rightarrow> gostr \<Rightarrow> gostr \<Rightarrow> bool" where
  "password_matches E raw stored =
     (if \<not> is_hashed stored then raw = stored
      else let parts = split_on (CHR ''$'') stored in
        if length parts < 4 then False
        else case atoi (parts ! 1) of
          None \<Rightarrow> False
        | Some iterations \<Rightarrow>
            if iterations \<le> 0 then False
            else case (b64_decode (parts ! 2), b64_decode (parts ! 3)) of
              (Some salt, Some expected) \<Rightarrow> pbkdf2 E raw salt iterations (length expected) = expected
            | _ \<Rightarrow> False)"

section \<open>Sessions\<close>

definition session_key :: "env \<Rightarrow> gostr \<Rightarrow> gostr" where
  "session_key E token = ''auth:session:'' @ b64_encode True (sha256 E token)"

definition bearer_token :: "gostr \<Rightarrow> gostr res" where
  "bearer_token authorization =
     (if \<not> has_prefix authorization ''Bearer '' then Inl (Forbidden m_login_first)
      else let token = trim_space (drop (length ''Bearer '') authorization) in
        if utf16_len token < 32 then Inl (Forbidden m_bad_token) else Inr token)"

definition create_session :: "env \<Rightarrow> int \<Rightarrow> gostr opE" where
  "create_session E uid =
     bindE (ask (a_str E) (Os (ORandom tokenBytes))) (\<lambda>b.
     let token = b64_encode True b in
     bindE (ask_err (a_err E) (Redis (RSet (session_key E token) (itoa uid) sessionTTL))) (\<lambda>_. okE token))"

definition resolve_user :: "env \<Rightarrow> gostr \<Rightarrow> int opE" where
  "resolve_user E authorization = (case bearer_token authorization of
      Inl e \<Rightarrow> failE e
    | Inr token \<Rightarrow> bindE (ask (a_ostr E) (Redis (RGet (session_key E token)))) (\<lambda>v.
        case v of
          None \<Rightarrow> failE (Forbidden m_session_invalid)
        | Some s \<Rightarrow> (case parse_int 64 s of
            None \<Rightarrow> failE (InvalidArgument (''invalid number '' @ quote E s))
          | Some n \<Rightarrow> okE n)))"

definition revoke_session :: "env \<Rightarrow> gostr \<Rightarrow> unit opE" where
  "revoke_session E authorization = (case bearer_token authorization of
      Inl e \<Rightarrow> failE e
    | Inr token \<Rightarrow> ask_err (a_err E) (Redis (RDel [session_key E token])))"

section \<open>Accounts\<close>

definition failure_key :: "gostr \<Rightarrow> gostr" where
  "failure_key username = ''auth:login-failures:'' @ username"

definition login_attempt_allowed :: "env \<Rightarrow> gostr \<Rightarrow> bool opE" where
  "login_attempt_allowed E username =
     bindE (ask (a_ostr E) (Redis (RGet (failure_key username)))) (\<lambda>v.
     case v of
       None \<Rightarrow> okE True
     | Some s \<Rightarrow> (case parse_int 64 s of
         None \<Rightarrow> thenI (del_key E (failure_key username)) (okE True)
       | Some n \<Rightarrow> okE (n < maxLoginFailures)))"

definition record_login_failure :: "env \<Rightarrow> gostr \<Rightarrow> unit opE" where
  "record_login_failure E username =
     bindE (ask (a_int E) (Redis (RIncr (failure_key username)))) (\<lambda>n.
     if n = 1 then ask_err (a_err E) (Redis (RExpire (failure_key username) loginFailureWindow)) else okE ())"

definition ErrDuplicate :: goerr where
  "ErrDuplicate = Plain ''duplicate key'' None"

text \<open>The configured invite code is an argument; the empty one leaves registration open.\<close>

definition invite_ok :: "gostr \<Rightarrow> gostr option \<Rightarrow> bool" where
  "invite_ok code given = (code = [] \<or> (case given of None \<Rightarrow> False | Some s \<Rightarrow> trim_space s = code))"

definition register_user :: "env \<Rightarrow> gostr \<Rightarrow> auth_request \<Rightarrow> auth_response opE" where
  "register_user E code req =
     (if \<not> invite_ok code (ar_invite req) then okE (auth_reply 403 m_invite None [])
      else let (username, ok) = normalize_username (ar_username req); password = deref0 (ar_password req) in
        if \<not> ok \<or> ar_password req = None \<or> utf16_len password < 8 \<or> utf16_len password > maxPasswordLength
        then okE (auth_reply 400 m_reg_rules None [])
        else let (nickname, nok) = normalize_nickname (ar_nickname req) in
          if \<not> nok then okE (auth_reply 400 m_nick_long None [])
          else bindE (ask (a_int E) (Media (DCountUsers username))) (\<lambda>count.
            if count > 0 then okE (auth_reply 409 m_user_exists None [])
            else bnd (if nickname = [] then bnd (now_ms E) (\<lambda>now. ret (m_user_prefix @ itoa now)) else ret nickname) (\<lambda>nick.
              bindE (hash_password E password) (\<lambda>hashed.
              let u = \<lparr>u_id = 0, u_name = username, u_password = hashed, u_nickname = nick, u_avatar = None, u_role = ''USER''\<rparr> in
              catchE (ask (a_int E) (Media (DCreateUser u)))
                (\<lambda>e. if ErrDuplicate \<in> set (chain e) then okE (auth_reply 409 m_user_exists None []) else failE e)
                (\<lambda>uid. okE (auth_reply 200 m_registered (Some (user_view (u\<lparr>u_id := uid\<rparr>))) []))))))"

text \<open>Login once the credentials matched.\<close>

definition login_ok :: "env \<Rightarrow> gostr \<Rightarrow> gostr \<Rightarrow> user \<Rightarrow> auth_response opE" where
  "login_ok E username password u =
     bindE (if needs_rehash (u_password u)
            then bindE (hash_password E password) (\<lambda>hashed. ask_err (a_err E) (Media (DUpdatePassword (u_id u) hashed)))
            else okE ()) (\<lambda>_.
     bindE (ask_err (a_err E) (Redis (RDel [failure_key username]))) (\<lambda>_.
     bindE (create_session E (u_id u)) (\<lambda>token.
     okE (auth_reply 200 m_logged_in (Some (user_view u)) token))))"

definition login :: "env \<Rightarrow> auth_request \<Rightarrow> auth_response opE" where
  "login E req =
     (let (username, ok) = normalize_username (ar_username req) in
      if \<not> ok \<or> (case ar_password req of None \<Rightarrow> True | Some p \<Rightarrow> is_blank p) then okE (auth_reply 400 m_need_credentials None [])
      else bindE (login_attempt_allowed E username) (\<lambda>allowed.
        if \<not> allowed then okE (auth_reply 429 m_login_throttled None [])
        else bindE (ask (a_user E) (Media (DFindUserByName username))) (\<lambda>found.
          case found of
            Some u \<Rightarrow>
              if password_matches E (deref0 (ar_password req)) (u_password u) then login_ok E username (deref0 (ar_password req)) u
              else bindE (record_login_failure E username) (\<lambda>_. okE (auth_reply 401 m_bad_credentials None []))
          | None \<Rightarrow> bindE (record_login_failure E username) (\<lambda>_. okE (auth_reply 401 m_bad_credentials None [])))))"

definition require_admin :: "env \<Rightarrow> int \<Rightarrow> unit opE" where
  "require_admin E uid =
     bindE (ask (a_user E) (Media (DFindUser uid))) (\<lambda>u.
     case u of
       None \<Rightarrow> failE (Forbidden m_admin_only)
     | Some v \<Rightarrow> if u_role v \<noteq> ''ADMIN'' then failE (Forbidden m_admin_only) else okE ())"
section \<open>Facts\<close>

lemma sextets_lt: "n \<in> set (b64_sextets s) \<Longrightarrow> n < 64"
proof (induction s rule: b64_sextets.induct)
  case (4 a b c s)
  then show ?case using byte_lt [of a] byte_lt [of b] byte_lt [of c] by auto
next
  case (3 a b)
  then show ?case using byte_lt [of a] byte_lt [of b] by auto
next
  case (2 a)
  then show ?case using byte_lt [of a] by auto
qed simp

lemma digit_split: "z < k \<Longrightarrow> (y * k + z) div k = y" "z < k \<Longrightarrow> (y * k + z) mod k = z" for k y z :: nat
  by simp_all

lemma join_bits:
  "(b::nat) < 256 \<Longrightarrow> a div 4 * 4 + (a mod 4 * 16 + b div 16) div 16 = a"
  "(b::nat) < 256 \<Longrightarrow> c < 256 \<Longrightarrow> (a mod 4 * 16 + b div 16) mod 16 * 16 + (b mod 16 * 4 + c div 64) div 4 = b"
  "(c::nat) < 256 \<Longrightarrow> (b mod 16 * 4 + c div 64) mod 4 * 64 + c mod 64 = c"
  by (simp_all add: digit_split less_mult_imp_div_less)

lemma b64_groups_sextets: "b64_groups (b64_sextets s) = Some s"
proof (induction s rule: b64_sextets.induct)
  case (4 a b c s)
  then show ?case using byte_lt [of a] byte_lt [of b] byte_lt [of c] by (simp add: join_bits char_of_byte)
next
  case (3 a b)
  then show ?case using byte_lt [of a] byte_lt [of b] join_bits(2) [of "byte b" 0 "byte a"] by (simp add: join_bits char_of_byte)
next
  case (2 a)
  then show ?case using byte_lt [of a] join_bits(1) [of "byte a" 0] by (simp add: char_of_byte)
qed simp

lemma b64_val_char: "n < 64 \<Longrightarrow> b64_val (b64_char False n) = Some n"
  by (auto simp: b64_val_def b64_char_def byte_char_of Let_def byte_def)

definition b64_alphabet :: "char \<Rightarrow> bool" where
  "b64_alphabet c = (33 \<le> byte c \<and> byte c < 127 \<and> byte c \<noteq> 36)"

lemma b64_char_alphabet: "n < 64 \<Longrightarrow> b64_alphabet (b64_char url n)"
  by (auto simp: b64_alphabet_def b64_char_def byte_char_of byte_def)
lemma b64_encode_alphabet: "list_all b64_alphabet (b64_encode url s)"
  by (auto simp: b64_encode_def list_all_iff b64_char_alphabet sextets_lt)

lemma those_Some: "(\<And>x. x \<in> set xs \<Longrightarrow> f x = Some (g x)) \<Longrightarrow> those (map f xs) = Some (map g xs)"
  by (induction xs) auto

lemma b64_decode_encode: "b64_decode (b64_encode False s) = Some s"
proof -
  have "filter (\<lambda>c. byte c \<noteq> 10 \<and> byte c \<noteq> 13) (b64_encode False s) = b64_encode False s"
    using b64_encode_alphabet [of False s] by (intro filter_True) (force simp: list_all_iff b64_alphabet_def)
  moreover have "those (map b64_val (b64_encode False s)) = Some (b64_sextets s)"
    using those_Some [of "b64_sextets s" "\<lambda>n. b64_val (b64_char False n)" id]
    by (simp add: b64_encode_def comp_def b64_val_char sextets_lt)
  ultimately show ?thesis by (simp add: b64_decode_def b64_groups_sextets)
qed

interpretation b64: codec "\<lambda>s. True" "b64_encode False" b64_decode
  by unfold_locales (rule b64_decode_encode)

text \<open>Splitting what was joined.\<close>

lemma split_on_plain: "c \<notin> set p \<Longrightarrow> split_on c p = [p]"
  by (induction p) auto

lemma split_on_append: "c \<notin> set p \<Longrightarrow> split_on c (p @ c # s) = p # split_on c s"
  by (induction p) auto

lemma no_dollar: "CHR ''$'' \<notin> set (b64_encode url s)" "CHR ''$'' \<notin> set (itoa passwordIterations)"
proof -
  show "CHR ''$'' \<notin> set (b64_encode url s)"
    using b64_encode_alphabet [of url s] by (auto simp: list_all_iff b64_alphabet_def byte_def)
  show "CHR ''$'' \<notin> set (itoa passwordIterations)"     using nat_digits_digits [of 600000] by (auto simp: passwordIterations_def itoa_def list_all_iff is_digit_def byte_def)
qed

lemma split_hash:
  "split_on (CHR ''$'') (format_hash passwordIterations salt dk) = [''pbkdf2'', itoa passwordIterations, b64_encode False salt, b64_encode False dk]"
  using split_on_append [of "CHR ''$''" "''pbkdf2''"]
  by (simp add: format_hash_def split_on_append split_on_plain no_dollar)

lemma hash_is_hashed: "is_hashed (format_hash it salt dk)"
  by (simp add: is_hashed_def format_hash_def has_prefix_def)

lemma iterations_text: "atoi (itoa passwordIterations) = Some passwordIterations" "\<not> passwordIterations \<le> 0"
  by (simp_all add: parse_int_itoa in_bits_def passwordIterations_def)

lemma password_matches_hash:
  "length dk = passwordKeyBytes \<Longrightarrow>
   password_matches E raw (format_hash passwordIterations salt dk) \<longleftrightarrow> derive E raw salt passwordIterations = dk"
  by (simp add: password_matches_def hash_is_hashed split_hash b64_decode_encode derive_def iterations_text Let_def)

lemma needs_rehash_hash: "\<not> needs_rehash (format_hash passwordIterations salt dk)"
  by (simp add: needs_rehash_def hash_is_hashed split_hash iterations_text Let_def)

text \<open>Tokens: printable ASCII, so the header gives them back unchanged.\<close>

lemma runes_printable: "list_all b64_alphabet s \<Longrightarrow> runes s = map (\<lambda>c. (byte c, [c])) s"
  by (rule runes_ascii) (auto simp: list_all_iff b64_alphabet_def)

lemma trim_printable: "list_all b64_alphabet s \<Longrightarrow> trim_space s = s"
proof -
  assume s: "list_all b64_alphabet s"
  then have "\<not> (is_space \<circ> fst) rb" if "rb \<in> set (runes s)" for rb
    using that by (auto simp: runes_printable list_all_iff b64_alphabet_def is_space_def)
  moreover have "dropWhile P xs = xs" if "\<And>x. x \<in> set xs \<Longrightarrow> \<not> P x" for P and xs :: "(nat \<times> gostr) list"
    using that by (cases xs) auto
  ultimately have "dropWhile (is_space \<circ> fst) (runes s) = runes s" "dropWhile (is_space \<circ> fst) (rev (runes s)) = rev (runes s)"
    by (metis set_rev)+
  then show ?thesis by (simp add: trim_space_def trim_func_def)
qed

lemma utf16_printable: "list_all b64_alphabet s \<Longrightarrow> utf16_len s = length s"
  by (induction s) (auto simp: utf16_len_def rune_units_def runes_ascii_Cons b64_alphabet_def)

lemma length_sextets: "length (b64_sextets s) = (4 * length s + 2) div 3"
  by (induction s rule: b64_sextets.induct) auto

text \<open>The steps of a login.\<close>

definition no_set :: "call \<Rightarrow> bool" where
  "no_set c = (\<forall>k v t. c \<noteq> Redis (RSet k v t))"

lemma no_set_mem: "list_all no_set xs \<Longrightarrow> Redis (RSet k v t) \<notin> set xs"
  by (auto simp: list_all_iff no_set_def)

definition unthrottled :: "env \<Rightarrow> gostr \<Rightarrow> hist \<Rightarrow> bool" where
  "unthrottled E name h \<longleftrightarrow> (\<forall>s n. a_ostr E h (Redis (RGet (failure_key name))) = Inr (Some s) \<longrightarrow> parse_int 64 s = Some n \<longrightarrow> n < 8)"

lemma wp_login_allowed:
  assumes "\<And>e q. Q (Inl e) q" and "\<And>b xs. list_all no_set xs \<Longrightarrow> b \<longrightarrow> unthrottled E name h \<Longrightarrow> Q (Inr b) (h @ xs)"
  shows "wp (login_attempt_allowed E name) Q h"
  using assms by (auto simp: login_attempt_allowed_def wp_simps unthrottled_def no_set_def maxLoginFailures_def split: sum.splits option.splits)

lemma wp_record_failure:
  assumes "\<And>e q. Q (Inl e) q"
    and "\<And>n xs. list_all no_set xs \<Longrightarrow> made_in (\<lambda>p c. a_int E p c = Inr n) h (Redis (RIncr (failure_key name))) xs \<Longrightarrow> Q (Inr ()) (h @ xs)"
  shows "wp (record_login_failure E name) Q h"
  using assms by (auto simp: record_login_failure_def wp_simps no_set_def split: sum.splits option.splits)

lemma wp_create_session:
  assumes "\<And>e q. Q (Inl e) q" and "\<And>token xs. made_in (acked E) h (Redis (RSet (session_key E token) (itoa uid) sessionTTL)) xs \<Longrightarrow> Q (Inr token) (h @ xs)"
  shows "wp (create_session E uid) Q h"
  using assms by (auto simp: create_session_def wp_simps Let_def split: sum.splits option.splits)

lemma wp_login_ok:
  assumes "\<And>e q. Q (Inl e) q" and "\<And>token xs. made_in (acked E) h (Redis (RSet (session_key E token) (itoa (u_id u)) sessionTTL)) xs \<Longrightarrow>
      Q (Inr (auth_reply 200 m_logged_in (Some (user_view u)) token)) (h @ xs)"
  shows "wp (login_ok E name pw u) Q h"
  using assms unfolding login_ok_def hash_password_def
  by (auto simp: wp_simps made_in_append split: sum.splits option.splits intro!: wp_create_session)

section \<open>Properties\<close>

text \<open>(C33) Password hashing.  What HashPassword stores is recognised as a hash that needs no rehash, the password it was
  made from matches it, and another password matches exactly when PBKDF2 derives the same key from it with the stored
  salt.\<close>

theorem password_roundtrip:
  assumes "run_state (hash_password E p) h = (Inr stored, h')"
    and "\<And>q s n k. length (pbkdf2 E q s n k) = k"
  shows "is_hashed stored \<and> \<not> needs_rehash stored \<and> password_matches E p stored \<and>
     (\<exists>salt. a_str E h (Os (ORandom 16)) = Inr salt \<and>
        (\<forall>p'. password_matches E p' stored \<longleftrightarrow> pbkdf2 E p' salt 600000 32 = pbkdf2 E p salt 600000 32))"
proof -
  have "wp (hash_password E p) (\<lambda>r q. r = Inr stored \<longrightarrow> (\<exists>salt. a_str E h (Os (ORandom saltBytes)) = Inr salt \<and>
      stored = format_hash passwordIterations salt (derive E p salt passwordIterations))) h"
    by (auto simp: hash_password_def wp_simps split: sum.splits)
  from wp_run [OF assms(1) this] obtain salt where salt: "a_str E h (Os (ORandom saltBytes)) = Inr salt"
      "stored = format_hash passwordIterations salt (derive E p salt passwordIterations)" by auto
  have "length (derive E p salt passwordIterations) = passwordKeyBytes" by (simp add: derive_def assms(2))
  from password_matches_hash [OF this] salt have "is_hashed stored" "\<not> needs_rehash stored"
      "\<And>p'. password_matches E p' stored \<longleftrightarrow> derive E p' salt passwordIterations = derive E p salt passwordIterations"
    by (simp_all add: hash_is_hashed needs_rehash_hash)
  with salt(1) show ?thesis by (simp add: saltBytes_def derive_def passwordKeyBytes_def passwordIterations_def)
qed
text \<open>(C34) Sessions.  The token a login issues is stored only as the key derived from its SHA-256, carries the user for a
  day, is accepted back in an Authorization header, and resolves to that user whenever Redis answers what was
  stored.\<close>

theorem session_roundtrip:
  assumes "run_state (create_session E uid) h = (Inr token, h')"
    and "\<And>p b. a_str E p (Os (ORandom 32)) = Inr b \<Longrightarrow> length b = 32" and "in_bits 64 uid"
  shows "made (acked E) h (Redis (RSet (session_key E token) (itoa uid) (hours 24))) h' \<and>
     bearer_token (''Bearer '' @ token) = Inr token \<and>
     (\<forall>p. a_ostr E p (Redis (RGet (session_key E token))) = Inr (Some (itoa uid)) \<longrightarrow> result (resolve_user E (''Bearer '' @ token)) p = Inr uid)"
proof -
  have "wp (create_session E uid) (\<lambda>r q. r = Inr token \<longrightarrow> (\<exists>b. length b = 32 \<and> token = b64_encode True b) \<and>
      made (acked E) h (Redis (RSet (session_key E token) (itoa uid) sessionTTL)) q) h"
    using assms(2) by (auto simp: create_session_def wp_simps Let_def made_append tokenBytes_def split: sum.splits option.splits)
  from wp_run [OF assms(1) this] obtain b where b: "length b = 32" "token = b64_encode True b"
      "made (acked E) h (Redis (RSet (session_key E token) (itoa uid) sessionTTL)) h'" by auto
  have bear: "bearer_token (''Bearer '' @ token) = Inr token"
    using b(1) b64_encode_alphabet [of True b]
    by (simp add: bearer_token_def has_prefix_def b(2) trim_printable utf16_printable Let_def) (simp add: b64_encode_def length_sextets)
  have "wp (resolve_user E (''Bearer '' @ token)) (\<lambda>r q. r = Inr uid) p"
    if "a_ostr E p (Redis (RGet (session_key E token))) = Inr (Some (itoa uid))" for p
    unfolding resolve_user_def bear using that by (simp add: wp_simps parse_int_itoa assms(3))
  with b bear show ?thesis by (simp add: wp_def sessionTTL_def)
qed

text \<open>(C35) Logging in.  Success means that the name was well-formed and not throttled, the stored password of that user
  matched, and a session of that user was stored for the returned token; every other answer carries no token and
  stores nothing; a wrong password or an unknown name was counted against the name.\<close>

theorem login_spec:
  assumes "run_state (login E req) h = (Inr resp, h')"
  defines "name \<equiv> fst (normalize_username (ar_username req))"
  shows "(rs_code resp = 200 \<longrightarrow> username_re name \<and>
        (\<forall>s n. a_ostr E h (Redis (RGet (failure_key name))) = Inr (Some s) \<longrightarrow> parse_int 64 s = Some n \<longrightarrow> n < 8) \<and>
        (\<exists>u. made (\<lambda>p c. a_user E p c = Inr (Some u)) h (Media (DFindUserByName name)) h' \<and>
           password_matches E (deref0 (ar_password req)) (u_password u) \<and> rs_user resp = Some (user_view u) \<and>
           made (acked E) h (Redis (RSet (session_key E (rs_token resp)) (itoa (u_id u)) sessionTTL)) h')) \<and>
     (rs_code resp \<noteq> 200 \<longrightarrow> rs_token resp = [] \<and> (\<exists>xs. h' = h @ xs \<and> (\<forall>k v t. Redis (RSet k v t) \<notin> set xs))) \<and>
     (rs_code resp = 401 \<longrightarrow> (\<exists>n. made (\<lambda>p c. a_int E p c = Inr n) h (Redis (RIncr (failure_key name))) h'))"
proof -
  have "wp (login E req) (\<lambda>r q. \<forall>resp. r = Inr resp \<longrightarrow> (\<exists>xs. q = h @ xs \<and>
      (if rs_code resp = 200 then username_re name \<and> unthrottled E name h \<and>
        (\<exists>u. made_in (\<lambda>p c. a_user E p c = Inr (Some u)) h (Media (DFindUserByName name)) xs \<and>
           password_matches E (deref0 (ar_password req)) (u_password u) \<and> rs_user resp = Some (user_view u) \<and>
           made_in (acked E) h (Redis (RSet (session_key E (rs_token resp)) (itoa (u_id u)) sessionTTL)) xs)
       else rs_token resp = [] \<and> list_all no_set xs \<and>
        (rs_code resp = 401 \<longrightarrow> (\<exists>n. made_in (\<lambda>p c. a_int E p c = Inr n) h (Redis (RIncr (failure_key name))) xs))))) h"
    unfolding login_def name_def
    by (auto simp: wp_bindE wp_okE wp_if wp_ask wp_case_option Let_def auth_reply_def made_in_append no_set_def normalize_username_def
        split: option.splits sum.splits intro!: wp_login_allowed wp_record_failure wp_login_ok)
  from wp_run [OF assms(1) this] show ?thesis
    by (auto simp: made_append unthrottled_def dest: no_set_mem split: if_splits)
qed
section \<open>Witnesses\<close>

theorem password_roundtrip_witness:
  "\<exists>stored. result (hash_password env0 ''secret'') [] = Inr stored \<and> is_hashed stored \<and> password_matches env0 ''secret'' stored"
proof -
  let ?stored = "format_hash passwordIterations ''s'' (derive env0 ''secret'' ''s'' passwordIterations)"
  have "wp (hash_password env0 ''secret'') (\<lambda>r q. r = Inr ?stored) []" by (simp add: hash_password_def wp_simps env0_def)
  then have run: "run_state (hash_password env0 ''secret'') [] = (Inr ?stored, final (hash_password env0 ''secret'') [])"
    by (simp add: wp_def result_def final_def prod_eq_iff)
  have "length (pbkdf2 env0 q s n k) = k" for q s n k by (simp add: env0_def)
  from password_roundtrip [OF run this] run show ?thesis by (simp add: result_def)
qed

definition env_login :: env where
  "env_login = env0\<lparr>a_str := (\<lambda>h c. Inr (replicate 32 (CHR ''a''))),
     a_user := (\<lambda>h c. Inr (Some \<lparr>u_id = 3, u_name = ''bob'', u_password = ''secret'', u_nickname = ''b'', u_avatar = None, u_role = ''USER''\<rparr>))\<rparr>"

theorem session_roundtrip_witness:
  "\<exists>token. result (create_session env_login 3) [] = Inr token \<and> bearer_token (''Bearer '' @ token) = Inr token"
proof -
  have "wp (create_session env_login 3) (\<lambda>r q. \<exists>token. r = Inr token) []" by (simp add: create_session_def wp_simps env_login_def env0_def Let_def)
  then obtain token where run: "run_state (create_session env_login 3) [] = (Inr token, final (create_session env_login 3) [])"
    by (auto simp: wp_def result_def final_def prod_eq_iff)
  have "length b = 32" if "a_str env_login p (Os (ORandom 32)) = Inr b" for p b using that by (auto simp: env_login_def)
  from session_roundtrip [OF run this] run show ?thesis by (simp add: result_def in_bits_def)
qed

definition req_login :: auth_request where
  "req_login = \<lparr>ar_username = Some ''bob'', ar_password = Some ''secret'', ar_nickname = None, ar_invite = None\<rparr>"

lemma run_login: "wp (login env_login req_login) (\<lambda>r q. \<exists>resp. r = Inr resp \<and> rs_code resp = 200) []"
proof -
  have n: "normalize_username (Some ''bob'') = (''bob'', True)" "\<not> is_blank ''secret''" "\<not> is_hashed ''secret''"
    by (simp_all add: normalize_username_def username_re_def is_word_char_def str_eval is_hashed_def has_prefix_def)
  show ?thesis
    by (simp add: login_def req_login_def n login_attempt_allowed_def login_ok_def needs_rehash_def password_matches_def hash_password_def create_session_def
        wp_simps env_login_def env0_def deref0_def auth_reply_def Let_def)
qed

theorem login_spec_witness:
  "\<exists>resp q. run_state (login env_login req_login) [] = (Inr resp, q) \<and> rs_code resp = 200 \<and>
     made (acked env_login) [] (Redis (RSet (session_key env_login (rs_token resp)) ''3'' sessionTTL)) q"
proof -
  obtain r q where 1: "run_state (login env_login req_login) [] = (r, q)" by fastforce
  with wp_run [OF 1 run_login] obtain resp where run: "run_state (login env_login req_login) [] = (Inr resp, q)" and ok: "rs_code resp = 200" by auto
  from login_spec [OF run] ok obtain u p where "made (\<lambda>p c. a_user env_login p c = Inr (Some u)) [] (Media (DFindUserByName p)) q"
      "made (acked env_login) [] (Redis (RSet (session_key env_login (rs_token resp)) (itoa (u_id u)) sessionTTL)) q" by blast
  moreover have "itoa 3 = ''3''" by code_simp
  ultimately show ?thesis using run ok by (auto simp: made_def env_login_def)
qed

end
