(* ===== verification/Upload.thy ===== *)
theory Upload
  imports Media
begin

text \<open>
  Chunked uploads: internal/upload/chunk.go, resumable uploads merged under a lock and made idempotent by a completion
  marker.  A chunk's content is the answer to reading its object; the merged file's content is the concatenation the
  buffered writer received.
\<close>

section \<open>Keys and names (chunk.go)\<close>

definition MaxChunkBytes :: int where "MaxChunkBytes = 5 * 1024 * 1024"
definition MaxTotalChunks :: int where "MaxTotalChunks = 410"
definition upload_ttl :: int where "upload_ttl = hours 24"

definition upload_key :: "gostr \<Rightarrow> gostr" where "upload_key uid = ''upload:chunked:'' @ uid"
definition parts_key :: "gostr \<Rightarrow> gostr" where "parts_key uid = upload_key uid @ '':parts''"
definition upload_completed_key :: "gostr \<Rightarrow> gostr" where "upload_completed_key uid = upload_key uid @ '':completed''"

definition validate_upload_id :: "env \<Rightarrow> gostr \<Rightarrow> unit res" where
  "validate_upload_id E up = (if uuid_ok E up then Inr () else Inl (InvalidArgument ''invalid uploadId''))"

definition chunk_object_name :: "env \<Rightarrow> gostr \<Rightarrow> int \<Rightarrow> gostr res" where
  "chunk_object_name E up idx = (case validate_upload_id E up of
      Inl e \<Rightarrow> Inl e
    | Inr _ \<Rightarrow> Inr (''chunk-uploads/'' @ up @ ''/part-'' @ itoa idx))"

text \<open>A field of a Redis hash; Go's map lookup answers the empty string for a missing one.\<close>

definition hfield :: "(gostr \<times> gostr) list \<Rightarrow> gostr \<Rightarrow> gostr" where
  "hfield m k = (case map_of m k of None \<Rightarrow> [] | Some v \<Rightarrow> v)"

definition invalid_number :: "env \<Rightarrow> gostr \<Rightarrow> goerr" where
  "invalid_number E s = InvalidArgument (''invalid number '' @ quote E s)"

section \<open>Chunked upload (chunk.go)\<close>

definition require_upload :: "env \<Rightarrow> gostr \<Rightarrow> int \<Rightarrow> (gostr \<times> gostr) list opE" where
  "require_upload E up uid = (case validate_upload_id E up of
      Inl e \<Rightarrow> failE e
    | Inr _ \<Rightarrow> bindE (ask (a_hash E) (Redis (RHGetAll (upload_key up)))) (\<lambda>meta.
        if meta = [] then failE (InvalidArgument ''uploadId does not exist or has expired'')
        else if itoa uid \<noteq> hfield meta ''userId'' then failE (Forbidden m_upload_forbidden)
        else okE meta))"

definition initialize_upload :: "env \<Rightarrow> gostr \<Rightarrow> int \<Rightarrow> int \<Rightarrow> gostr opE" where
  "initialize_upload E filename tot uid = (case normalize_video_filename filename of
      Inl e \<Rightarrow> failE e
    | Inr name \<Rightarrow>
        if tot \<le> 0 \<or> tot > MaxTotalChunks
        then failE (InvalidArgument (''totalChunks must be between 1 and '' @ itoa MaxTotalChunks))
        else bnd (new_uuid E) (\<lambda>up.
          bindE (ask_err (a_err E) (Redis (RPipe
            [RHSet (upload_key up) [(''filename'', name), (''totalChunks'', itoa tot), (''userId'', itoa uid)],
             RExpire (upload_key up) upload_ttl]))) (\<lambda>_. okE up)))"

fun parse_members :: "env \<Rightarrow> gostr list \<Rightarrow> int list res" where
  "parse_members E [] = Inr []"
| "parse_members E (m # ms) = (case atoi m of
      None \<Rightarrow> Inl (invalid_number E m)
    | Some n \<Rightarrow> (case parse_members E ms of Inl e \<Rightarrow> Inl e | Inr ns \<Rightarrow> Inr (n # ns)))"

definition uploaded_chunks :: "env \<Rightarrow> gostr \<Rightarrow> int \<Rightarrow> int list opE" where
  "uploaded_chunks E up uid =
     bindE (require_upload E up uid) (\<lambda>_.
     bindE (ask (a_strs E) (Redis (RSMembers (parts_key up)))) (\<lambda>members.
     case parse_members E members of Inl e \<Rightarrow> failE e | Inr ns \<Rightarrow> okE (sort ns)))"

text \<open>UploadChunk of a multipart file with its size and path; a nil header is a size of 0.\<close>

definition upload_chunk :: "env \<Rightarrow> gostr \<Rightarrow> int \<Rightarrow> int \<Rightarrow> int \<Rightarrow> gostr \<Rightarrow> int \<Rightarrow> unit opE" where
  "upload_chunk E up idx tot sz path uid =
     (if sz = 0 then failE (InvalidArgument ''chunk is empty'')
      else if sz > MaxChunkBytes then failE (InvalidArgument ''chunk size cannot exceed 5MB'')
      else bindE (require_upload E up uid) (\<lambda>meta.
        case atoi (hfield meta ''totalChunks'') of
          None \<Rightarrow> failE (invalid_number E (hfield meta ''totalChunks''))
        | Some expected \<Rightarrow>
            if tot \<noteq> expected \<or> idx < 0 \<or> idx \<ge> expected then failE (InvalidArgument ''invalid chunk index or totalChunks'')
            else case chunk_object_name E up idx of
              Inl e \<Rightarrow> failE e
            | Inr name \<Rightarrow>
                bindE (ask_err (a_err E) (Os (OFile ''open'' path))) (\<lambda>_.
                bindE (upload_object E name sz) (\<lambda>_.
                ask_err (a_err E) (Redis (RPipe
                  [RSAdd (parts_key up) (itoa idx), RExpire (upload_key up) upload_ttl, RExpire (parts_key up) upload_ttl]))))))"

definition completed_upload :: "env \<Rightarrow> gostr \<Rightarrow> int \<Rightarrow> media_file option opE" where
  "completed_upload E up uid =
     bindE (ask (a_ostr E) (Redis (RGet (upload_completed_key up)))) (\<lambda>v.
     case v of
       None \<Rightarrow> okE None
     | Some s \<Rightarrow> (case parse_int 64 s of
         None \<Rightarrow> thenI (del_key E (upload_completed_key up)) (okE None)
       | Some mid \<Rightarrow> bindE (require_owned_media E mid uid) (\<lambda>m. okE (Some m))))"

text \<open>The loop of Complete over the chunks, from chunk \<open>i\<close> on; a failure closes the merged file.\<close>

fun merge_chunks :: "env \<Rightarrow> gostr \<Rightarrow> gostr \<Rightarrow> nat \<Rightarrow> nat \<Rightarrow> gostr \<Rightarrow> gostr opE" where
  "merge_chunks E up tmp i 0 acc = okE acc"
| "merge_chunks E up tmp i (Suc n) acc =
     (let halt = (\<lambda>e. thenI (ask_err (a_err E) (Os (OFile ''close'' tmp))) (failE e)) in
      case chunk_object_name E up (int i) of
        Inl e \<Rightarrow> halt e
      | Inr name \<Rightarrow> catchE (copy_object E name) halt (\<lambda>d. merge_chunks E up tmp (Suc i) n (acc @ d)))"

definition cleanup :: "env \<Rightarrow> gostr \<Rightarrow> int \<Rightarrow> unit op" where
  "cleanup E up tot =
     thenI (forI [0..<nat tot] (\<lambda>i. remove_object E (case chunk_object_name E up (int i) of Inl e \<Rightarrow> [] | Inr name \<Rightarrow> name)))
       (thenI (ask_err (a_err E) (Redis (RDel [upload_key up, parts_key up]))) (ret ()))"

text \<open>Complete once the temporary file exists.\<close>

definition merge_upload :: "env \<Rightarrow> gostr \<Rightarrow> int \<Rightarrow> gostr \<Rightarrow> int \<Rightarrow> gostr \<Rightarrow> media_file opE" where
  "merge_upload E up uid filename tot tmp =
     bindE (merge_chunks E up tmp 0 (nat tot) []) (\<lambda>content.
     catchE (ask_err (a_err E) (Os (OFile ''flush'' tmp)))
       (\<lambda>e. thenI (ask_err (a_err E) (Os (OFile ''close'' tmp))) (failE e)) (\<lambda>_.
     bindE (ask_err (a_err E) (Os (OFile ''close'' tmp))) (\<lambda>_.
     bindE (upload_local_file E tmp filename []) (\<lambda>url.
     bindE (save_uploaded_media E filename url uid (hex_encode (md5 E content))) (\<lambda>mf.
     bindE (ask_err (a_err E) (Redis (RSet (upload_completed_key up) (itoa (mf_id mf)) upload_ttl))) (\<lambda>_.
     thenI (cleanup E up tot) (okE mf)))))))"

text \<open>Complete under the merge lock.\<close>

definition complete_locked :: "env \<Rightarrow> gostr \<Rightarrow> int \<Rightarrow> media_file opE" where
  "complete_locked E up uid =
     bindE (completed_upload E up uid) (\<lambda>done.
     case done of
       Some m \<Rightarrow> okE m
     | None \<Rightarrow>
         bindE (require_upload E up uid) (\<lambda>meta.
         case atoi (hfield meta ''totalChunks'') of
           None \<Rightarrow> failE (invalid_number E (hfield meta ''totalChunks''))
         | Some tot \<Rightarrow>
             bindE (uploaded_chunks E up uid) (\<lambda>parts.
             if int (length parts) \<noteq> tot
             then failE (Business CodeConflict (m_chunks_missing1 @ itoa (int (length parts)) @ ''/'' @ itoa tot @ m_chunks_missing2))
             else bindE (ask (a_str E) (Os (OFile ''createTemp'' (''dovideo-merged-*'' @ file_suffix (hfield meta ''filename''))))) (\<lambda>tmp.
               bnd (merge_upload E up uid (hfield meta ''filename'') tot tmp) (\<lambda>r.
               thenI (ask_err (a_err E) (Os (OFile ''remove'' tmp))) (ret r))))))"

definition merge_lock_key :: "gostr \<Rightarrow> gostr" where
  "merge_lock_key up = ''lock:upload:merge:'' @ up"

definition complete_upload :: "env \<Rightarrow> gostr \<Rightarrow> int \<Rightarrow> media_file opE" where
  "complete_upload E up uid = (case validate_upload_id E up of
      Inl e \<Rightarrow> failE e
    | Inr _ \<Rightarrow> bindE (try_lock E default_locker (merge_lock_key up) 0) (\<lambda>lk.
        case lk of
          None \<Rightarrow> failE (Business CodeConflict m_merging)
        | Some l \<Rightarrow> bnd (complete_locked E up uid) (\<lambda>r. thenI (release_if_held E (Some l)) (ret r))))"

section \<open>Facts\<close>

lemma extends_upload [ext_intros]:
  "extends (require_upload E up uid)" "extends (cleanup E up tot)"
  unfolding require_upload_def cleanup_def by (intro ext_intros)+

lemma extends_merge_chunks [ext_intros]: "extends (merge_chunks E up tmp i n acc)"
  by (induction n arbitrary: i acc) (auto simp: Let_def intro!: ext_intros)

lemma extends_uploads [ext_intros]:
  "extends (uploaded_chunks E up uid)" "extends (completed_upload E up uid)" "extends (merge_upload E up uid filename tot tmp)"
  unfolding uploaded_chunks_def completed_upload_def merge_upload_def by (intro ext_intros)+

text \<open>A row that was inserted.\<close>

abbreviation inserted :: "env \<Rightarrow> hist \<Rightarrow> hist \<Rightarrow> bool" where
  "inserted E h q \<equiv> \<exists>m. made (\<lambda>p c. \<exists>n. a_int E p c = Inr n) h (Media (DInsertMedia m)) q"

definition no_insert :: "call \<Rightarrow> bool" where
  "no_insert c = (\<forall>m. c \<noteq> Media (DInsertMedia m))"

lemma no_insert_made [simp]: "list_all no_insert xs \<Longrightarrow> made_in P h (Media (DInsertMedia m)) xs \<longleftrightarrow> False"
  by (induction xs arbitrary: h) (auto simp: no_insert_def)

lemma no_insert_run [simp]: "list_all no_insert xs \<Longrightarrow> made P h (Media (DInsertMedia m)) (h @ xs) \<longleftrightarrow> False"
  by (simp add: made_append)

lemma no_insert_parts:
  "uses no_insert (try_lock E opts key w)" "uses no_insert (unlock E lk)" "uses no_insert (release_if_held E lk)"
proof -
  show "uses no_insert (try_lock E opts key w)" by (rule uses_mono [OF uses_try_lock]) (auto simp: lock_call_def no_insert_def)
  show "uses no_insert (release_if_held E lk)" by (rule uses_mono [OF uses_release_if_held]) (auto simp: release_call_def no_insert_def)
qed (unfold unlock_def, intro use_intros, simp add: no_insert_def)

text \<open>Merging: what was read for every chunk, and the calls that remove no object.\<close>

definition chunk_part :: "gostr \<Rightarrow> nat \<Rightarrow> gostr" where
  "chunk_part up i = ''chunk-uploads/'' @ up @ ''/part-'' @ itoa (int i)"

lemma chunk_name: "chunk_object_name E up (int i) = (if uuid_ok E up then Inr (chunk_part up i) else Inl (InvalidArgument ''invalid uploadId''))"
  by (simp add: chunk_object_name_def validate_upload_id_def chunk_part_def)

definition chunks_read :: "env \<Rightarrow> gostr \<Rightarrow> nat \<Rightarrow> gostr list \<Rightarrow> hist \<Rightarrow> hist \<Rightarrow> bool" where
  "chunks_read E up i cs h q \<longleftrightarrow> (\<forall>j < length cs. made (\<lambda>p c. a_str E p c = Inr (cs ! j)) h (Store (SGetObject (chunk_part up (i + j)))) q)"

definition no_remove :: "call \<Rightarrow> bool" where
  "no_remove c = (\<forall>n. c \<noteq> Store (SRemoveObject n))"

lemma no_remove_simps [simp]:
  "no_remove (Redis x)" "no_remove (Os y)" "no_remove (Media z)" "no_remove (Store (SGetObject n))" "no_remove (Store (SPutObject n k))"
  by (simp_all add: no_remove_def)

lemma no_remove_merge: "uses no_remove (merge_chunks E up tmp i n acc)"
  by (induction n arbitrary: i acc) (auto simp: Let_def copy_object_def intro!: use_intros)

lemma no_remove_parts:
  "uses no_remove (try_lock E opts key w)" "uses no_remove (completed_upload E up uid)" "uses no_remove (require_upload E up uid)"
  "uses no_remove (uploaded_chunks E up uid)" "uses no_remove (upload_local_file E tmp fn pre)"
proof -
  show "uses no_remove (try_lock E opts key w)" by (rule uses_mono [OF uses_try_lock]) (auto simp: lock_call_def)
qed (unfold completed_upload_def require_upload_def uploaded_chunks_def upload_local_file_def put_object_def require_owned_media_def del_key_def
      new_uuid_def Let_def, (intro use_intros; simp)+)

lemma chunks_read_later: "chunks_read E up i cs h q \<Longrightarrow> prefix q q' \<Longrightarrow> chunks_read E up i cs h q'"
  by (auto simp: chunks_read_def intro: made_later)

lemma wp_merge_chunks:
  "wp (merge_chunks E up tmp i n acc) (\<lambda>r q. \<forall>d. r = Inr d \<longrightarrow> (\<exists>cs. length cs = n \<and> d = acc @ concat cs \<and> chunks_read E up i cs h q)) h"
proof (induction n arbitrary: i acc h)
  case (Suc n)
  have step: "\<exists>cs. length cs = Suc n \<and> d = acc @ concat cs \<and> chunks_read E up i cs h q"
    if "a_str E h (Store (SGetObject (chunk_part up i))) = Inr b"
      and "\<exists>cs. length cs = n \<and> d = (acc @ b) @ concat cs \<and> chunks_read E up (Suc i) cs (h @ [Store (SGetObject (chunk_part up i))]) q"
      and "prefix (h @ [Store (SGetObject (chunk_part up i))]) q" for b d q
  proof -
    from that(2) obtain cs where cs: "length cs = n" "d = (acc @ b) @ concat cs"
      "chunks_read E up (Suc i) cs (h @ [Store (SGetObject (chunk_part up i))]) q" by blast
    have "chunks_read E up i (b # cs) h q"
      unfolding chunks_read_def
    proof (intro allI impI)
      fix j assume "j < length (b # cs)"
      then show "made (\<lambda>p c. a_str E p c = Inr ((b # cs) ! j)) h (Store (SGetObject (chunk_part up (i + j)))) q"
        using cs(3) that(1,3) by (cases j) (auto simp: chunks_read_def intro: made_earlier made_later [OF made_last])
    qed
    with cs show ?thesis by (intro exI [of _ "b # cs"]) simp
  qed
  show ?case
    by (auto simp: Let_def copy_object_def chunk_name wp_simps split: sum.splits option.splits
        intro!: step wp_mono [OF iffD2 [OF wp_conj, OF conjI [OF Suc.IH wp_extends [OF extends_merge_chunks]]]])
qed (simp add: wp_simps chunks_read_def)

lemma wp_save_uploaded:
  "wp (save_uploaded_media E fn url uid md) (\<lambda>r q. \<forall>m. r = Inr m \<longrightarrow> mf_user m = uid \<and> mf_hash m = Some md \<and> (\<exists>xs. q = h @ xs \<and> list_all no_remove xs)) h"
  by (auto simp: save_uploaded_media_def insert_media_def new_media_def remember_content_hash_def invalidate_user_list_def remove_uploaded_object_def
      wp_simps Let_def split: sum.splits option.splits intro!: wp_any)

text \<open>A merged upload: every chunk was read, in the order of the indexes, the row carries the digest of the whole, and
  the completion marker was acknowledged before any object was removed.\<close>

definition merged :: "env \<Rightarrow> gostr \<Rightarrow> int \<Rightarrow> int \<Rightarrow> media_file \<Rightarrow> hist \<Rightarrow> hist \<Rightarrow> bool" where
  "merged E up uid tot m h q \<longleftrightarrow> (\<exists>cs xs ys. length cs = nat tot \<and>
     q = h @ xs @ Redis (RSet (upload_completed_key up) (itoa (mf_id m)) upload_ttl) # ys \<and>
     acked E (h @ xs) (Redis (RSet (upload_completed_key up) (itoa (mf_id m)) upload_ttl)) \<and> list_all no_remove xs \<and>
     chunks_read E up 0 cs h (h @ xs) \<and> mf_user m = uid \<and> mf_hash m = Some (hex_encode (md5 E (concat cs))))"

lemma merged_earlier:
  assumes "merged E up uid tot m (h @ zs) q" and "list_all no_remove zs"
  shows "merged E up uid tot m h q"
proof -
  let ?mark = "Redis (RSet (upload_completed_key up) (itoa (mf_id m)) upload_ttl)"
  from assms(1) obtain cs xs ys where *: "length cs = nat tot" "q = h @ (zs @ xs) @ ?mark # ys" "acked E (h @ zs @ xs) ?mark" "list_all no_remove xs"
      "chunks_read E up 0 cs (h @ zs) (h @ zs @ xs)" "mf_user m = uid" "mf_hash m = Some (hex_encode (md5 E (concat cs)))"
    unfolding merged_def by auto
  have "chunks_read E up 0 cs h (h @ zs @ xs)" using *(5) by (auto simp: chunks_read_def intro: made_earlier)
  with * assms(2) show ?thesis unfolding merged_def by (intro exI [of _ cs] exI [of _ "zs @ xs"] exI [of _ ys]) simp
qed

lemma merged_later: "merged E up uid tot m h q \<Longrightarrow> merged E up uid tot m h (q @ zs)"
  unfolding merged_def
proof (elim exE conjE)
  fix cs xs ys
  assume "length cs = nat tot" "q = h @ xs @ Redis (RSet (upload_completed_key up) (itoa (mf_id m)) upload_ttl) # ys"
    "acked E (h @ xs) (Redis (RSet (upload_completed_key up) (itoa (mf_id m)) upload_ttl))" "list_all no_remove xs"
    "chunks_read E up 0 cs h (h @ xs)" "mf_user m = uid" "mf_hash m = Some (hex_encode (md5 E (concat cs)))"
  then show "\<exists>cs xs ys. length cs = nat tot \<and> q @ zs = h @ xs @ Redis (RSet (upload_completed_key up) (itoa (mf_id m)) upload_ttl) # ys \<and>
     acked E (h @ xs) (Redis (RSet (upload_completed_key up) (itoa (mf_id m)) upload_ttl)) \<and> list_all no_remove xs \<and>
     chunks_read E up 0 cs h (h @ xs) \<and> mf_user m = uid \<and> mf_hash m = Some (hex_encode (md5 E (concat cs)))"
    by (intro exI [of _ cs] exI [of _ xs] exI [of _ "ys @ zs"]) simp
qed

lemma wp_merge_upload: "wp (merge_upload E up uid fn tot tmp) (\<lambda>r q. \<forall>m. r = Inr m \<longrightarrow> merged E up uid tot m h q) h"
proof -
  have chunks: "wp (merge_chunks E up tmp 0 (nat tot) []) Q h"
    if "\<And>r xs. list_all no_remove xs \<Longrightarrow> (\<forall>d. r = Inr d \<longrightarrow> (\<exists>cs. length cs = nat tot \<and> d = concat cs \<and> chunks_read E up 0 cs h (h @ xs))) \<Longrightarrow> Q r (h @ xs)" for Q
    by (rule wp_uses_conj [OF no_remove_merge wp_merge_chunks]) (use that in simp)
  have loc: "wp (upload_local_file E tmp fn []) Q p" if "\<And>r xs. list_all no_remove xs \<Longrightarrow> Q r (p @ xs)" for Q p
    by (rule wp_usesI [OF no_remove_parts(5)]) (rule that)
  have save: "wp (save_uploaded_media E fn url uid md) Q p"
    if "\<And>e q. Q (Inl e) q" "\<And>m xs. list_all no_remove xs \<Longrightarrow> mf_user m = uid \<Longrightarrow> mf_hash m = Some md \<Longrightarrow> Q (Inr m) (p @ xs)" for Q p url md
    by (rule wp_mono [OF wp_save_uploaded]) (metis that sumE)
  have clean: "wp (cleanup E up tot) Q p" if "\<And>q. prefix p q \<Longrightarrow> Q () q" for Q p
    by (rule wp_quiet [OF extends_upload(2)]) (rule that)
  have fin: "merged E up (mf_user m) tot m h q" if "list_all no_remove (xs @ ys)" "chunks_read E up 0 cs h (h @ xs)" "length cs = nat tot"
      "acked E (h @ xs @ ys) (Redis (RSet (upload_completed_key up) (itoa (mf_id m)) upload_ttl))"
      "mf_hash m = Some (hex_encode (md5 E (concat cs)))"
      "prefix (h @ xs @ ys @ [Redis (RSet (upload_completed_key up) (itoa (mf_id m)) upload_ttl)]) q" for xs ys cs m q
  proof -
    from that(6) obtain zs where q: "q = h @ (xs @ ys) @ Redis (RSet (upload_completed_key up) (itoa (mf_id m)) upload_ttl) # zs" by (auto simp: prefix_def)
    have "chunks_read E up 0 cs h (h @ xs @ ys)" by (rule chunks_read_later [OF that(2)]) simp
    with that(1,3-5) q show ?thesis unfolding merged_def by (intro exI [of _ cs] exI [of _ "xs @ ys"] exI [of _ zs]) simp
  qed
  show ?thesis
    unfolding merge_upload_def
    by (auto simp: wp_simps split: sum.splits option.splits intro!: chunks loc save clean)
      (rule fin [of _ "_ # _ # _ @ _", simplified], simp_all)
qed

text \<open>The two ways Complete answers a row.\<close>

definition already_merged :: "env \<Rightarrow> gostr \<Rightarrow> int \<Rightarrow> media_file \<Rightarrow> hist \<Rightarrow> hist \<Rightarrow> bool" where
  "already_merged E up uid m h q \<longleftrightarrow> (\<exists>s mid. parse_int 64 s = Some mid \<and>
     made (\<lambda>p c. a_ostr E p c = Inr (Some s)) h (Redis (RGet (upload_completed_key up))) q \<and>
     made (\<lambda>p c. a_media E p c = Inr (Some m)) h (Media (DFindMedia mid)) q \<and> mf_user m = uid \<and> \<not> inserted E h q)"

definition newly_merged :: "env \<Rightarrow> gostr \<Rightarrow> int \<Rightarrow> media_file \<Rightarrow> hist \<Rightarrow> hist \<Rightarrow> bool" where
  "newly_merged E up uid m h q \<longleftrightarrow> (\<exists>meta members tot.
     made (\<lambda>p c. a_hash E p c = Inr meta) h (Redis (RHGetAll (upload_key up))) q \<and> hfield meta ''userId'' = itoa uid \<and>
     atoi (hfield meta ''totalChunks'') = Some tot \<and>
     made (\<lambda>p c. a_strs E p c = Inr members) h (Redis (RSMembers (parts_key up))) q \<and> int (length members) = tot \<and>
     merged E up uid tot m h q)"

lemma parse_members_length: "parse_members E ms = Inr ns \<Longrightarrow> length ns = length ms"
  by (induction ms arbitrary: ns) (auto split: option.splits sum.splits)

lemma wp_require_upload:
  assumes "\<And>e q. Q (Inl e) q"
    and "\<And>meta. a_hash E h (Redis (RHGetAll (upload_key up))) = Inr meta \<Longrightarrow> hfield meta ''userId'' = itoa uid \<Longrightarrow> Q (Inr meta) (h @ [Redis (RHGetAll (upload_key up))])"
  shows "wp (require_upload E up uid) Q h"
  using assms by (auto simp: require_upload_def wp_simps split: sum.splits)

lemma wp_uploaded_chunks:
  assumes "\<And>e q. Q (Inl e) q"
    and "\<And>members ns. length ns = length members \<Longrightarrow> a_strs E (h @ [Redis (RHGetAll (upload_key up))]) (Redis (RSMembers (parts_key up))) = Inr members \<Longrightarrow>
      Q (Inr ns) (h @ [Redis (RHGetAll (upload_key up)), Redis (RSMembers (parts_key up))])"
  shows "wp (uploaded_chunks E up uid) Q h"
  unfolding uploaded_chunks_def wp_bindE
  by (rule wp_require_upload) (use assms in \<open>auto simp: wp_simps parse_members_length split: sum.splits\<close>)

lemma wp_completed_upload:
  assumes "\<And>e q. Q (Inl e) q" and "\<And>xs. list_all no_remove xs \<Longrightarrow> Q (Inr None) (h @ xs)"
    and "\<And>m xs. already_merged E up uid m h (h @ xs) \<Longrightarrow> Q (Inr (Some m)) (h @ xs)"
  shows "wp (completed_upload E up uid) Q h"
  using assms unfolding completed_upload_def require_owned_media_def
  by (auto simp: wp_simps already_merged_def made_append split: sum.splits option.splits)

lemma wp_complete_locked:
  "wp (complete_locked E up uid) (\<lambda>r q. \<forall>m. r = Inr m \<longrightarrow> already_merged E up uid m h q \<or> newly_merged E up uid m h q) h"
proof -
  have merge: "wp (merge_upload E up uid fn tot tmp) (\<lambda>r q. wp (thenI (ask_err (a_err E) (Os (OFile ''remove'' tmp))) (ret r))
        (\<lambda>r q. \<forall>m. r = Inr m \<longrightarrow> already_merged E up uid m h q \<or> newly_merged E up uid m h q) q) (h @ xs)"
    if "list_all no_remove xs" "made_in (\<lambda>p c. a_hash E p c = Inr meta) h (Redis (RHGetAll (upload_key up))) xs" "hfield meta ''userId'' = itoa uid"
      "atoi (hfield meta ''totalChunks'') = Some tot" "made_in (\<lambda>p c. a_strs E p c = Inr members) h (Redis (RSMembers (parts_key up))) xs"
      "int (length members) = tot" for fn tmp xs meta members tot
  proof (rule wp_mono [OF iffD2 [OF wp_conj, OF conjI [OF wp_merge_upload wp_extends [OF extends_uploads(3)]]]], goal_cases)
    case (1 r q)
    have "newly_merged E up uid m h (q @ zs)" if "r = Inr m" for m zs
    proof -
      from 1 obtain ys where q: "q = h @ xs @ ys" by (auto simp: prefix_def)
      have "merged E up uid tot m h (q @ zs)" using 1 that \<open>list_all no_remove xs\<close> by (blast intro: merged_earlier merged_later)
      with \<open>hfield meta ''userId'' = itoa uid\<close> \<open>atoi _ = _\<close> \<open>int (length members) = tot\<close> show ?thesis
        unfolding newly_merged_def using \<open>made_in _ h (Redis (RHGetAll _)) xs\<close> \<open>made_in _ h (Redis (RSMembers _)) xs\<close> q
        by (intro exI [of _ meta] exI [of _ members] exI [of _ tot]) (simp add: made_append made_in_append)
    qed
    then show ?case by (auto simp: wp_simps split: option.splits)
  qed
  let ?meta = "Redis (RHGetAll (upload_key up))" and ?parts = "Redis (RSMembers (parts_key up))"
  have merge': "wp (merge_upload E up uid fn (int (length members)) tmp) (\<lambda>r q. wp (thenI (ask_err (a_err E) (Os (OFile ''remove'' tmp))) (ret r))
        (\<lambda>r q. \<forall>m. r = Inr m \<longrightarrow> already_merged E up uid m h q \<or> newly_merged E up uid m h q) q) (h @ ys @ [?meta, ?meta, ?parts, Os f])"
    if "list_all no_remove ys" "a_hash E (h @ ys) ?meta = Inr meta" "hfield meta ''userId'' = itoa uid"
      "atoi (hfield meta ''totalChunks'') = Some (int (length members))" "a_strs E (h @ ys @ [?meta, ?meta]) ?parts = Inr members" for fn tmp ys meta members f
    by (rule merge [of _ meta _ members]) (use that in \<open>simp_all add: made_in_append\<close>)
  show ?thesis
    unfolding complete_locked_def
    by (auto simp: wp_bindE wp_case_option wp_if wp_okE wp_failE wp_ask wp_bnd split: option.splits sum.splits
        intro!: wp_completed_upload wp_require_upload wp_uploaded_chunks merge')
qed

lemma merged_answer_later:
  assumes "already_merged E up uid m h q \<or> newly_merged E up uid m h q" and "list_all no_insert zs" and "prefix h q"
  shows "already_merged E up uid m h (q @ zs) \<or> newly_merged E up uid m h (q @ zs)"
proof -
  from assms(3) obtain ys where q: "q = h @ ys" by (auto simp: prefix_def)
  have "already_merged E up uid m h (q @ zs)" if "already_merged E up uid m h q"
  proof -
    from that have "\<not> inserted E h q" by (auto simp: already_merged_def)
    with q assms(2) have "\<not> inserted E h (q @ zs)" by (simp add: made_append made_in_append)
    with that show ?thesis unfolding already_merged_def by (blast intro: made_later prefixI)
  qed
  moreover have "newly_merged E up uid m h (q @ zs)" if "newly_merged E up uid m h q"
    using that unfolding newly_merged_def by (blast intro: made_later prefixI merged_later)
  ultimately show ?thesis using assms(1) by blast
qed

lemma extends_complete_locked: "extends (complete_locked E up uid)"
  unfolding complete_locked_def by (intro ext_intros)

lemma wp_complete_upload:
  "wp (complete_upload E up uid) (\<lambda>r q. \<forall>m. r = Inr m \<longrightarrow> (\<exists>t p.
     made (\<lambda>p c. a_bool E p c = Inr True) h (Redis (RSetNX (merge_lock_key up) t (lo_ttl default_locker))) p \<and>
     (already_merged E up uid m p q \<or> newly_merged E up uid m p q))) h" (is "wp _ ?Q h")
proof -
  have locked: "wp (bnd (complete_locked E up uid) (\<lambda>r. thenI (release_if_held E lk) (ret r)))
      (\<lambda>r q. \<forall>m. r = Inr m \<longrightarrow> already_merged E up uid m p q \<or> newly_merged E up uid m p q) p" for lk p
    unfolding wp_bnd wp_thenI wp_ret
    by (rule wp_mono [OF iffD2 [OF wp_conj, OF conjI [OF wp_complete_locked wp_extends [OF extends_complete_locked]]]], rule wp_usesI [OF no_insert_parts(3)])
      (intro allI impI merged_answer_later; blast)
  have lock: "wp (try_lock E default_locker key w) Q h"
    if "\<And>r q. (\<forall>lk. r = Inr (Some lk) \<longrightarrow> (\<exists>t. lk = new_lock key t \<and>
      made (\<lambda>p c. a_bool E p c = Inr True) h (Redis (RSetNX key t (lo_ttl default_locker))) q)) \<Longrightarrow> Q r q" for key w Q
    by (rule wp_mono [OF wp_try_lock]) (rule that)
  have some: "wp (bnd (complete_locked E up uid) (\<lambda>r. thenI (release_if_held E lk) (ret r))) ?Q p"
    if "made (\<lambda>p c. a_bool E p c = Inr True) h (Redis (RSetNX (merge_lock_key up) t (lo_ttl default_locker))) p" for lk p t
    by (rule wp_mono [OF locked]) (use that in blast)
  show ?thesis
    unfolding complete_upload_def wp_case_sum wp_bindE wp_failE
    by (auto simp: wp_case_option wp_failE split: sum.splits option.splits intro!: lock intro: some)
qed

section \<open>Properties\<close>

text \<open>(C30) Completing a chunked upload.  A row is answered only under the merge lock of the upload, and it is either the
  row an earlier completion recorded, read again and owned by the caller, with nothing inserted; or a new row of the
  caller whose content hash is the MD5 of all the chunks, as many as were announced and received, in the order of
  their indexes, and then the completion marker was stored before any object was removed.\<close>

theorem complete_upload_spec:
  assumes "run_state (complete_upload E up uid) h = (Inr m, h')"
  shows "\<exists>t p. made (\<lambda>p c. a_bool E p c = Inr True) h (Redis (RSetNX (merge_lock_key up) t (lo_ttl default_locker))) p \<and>
     (already_merged E up uid m p h' \<or> newly_merged E up uid m p h')"
  using wp_run [OF assms wp_complete_upload] by blast
section \<open>Witnesses\<close>

text \<open>An upload of one chunk by user 3; the completion marker cannot be stored the first time.\<close>

definition mark1 :: call where
  "mark1 = Redis (RSet (upload_completed_key ''u'') ''1'' upload_ttl)"

definition env_dup :: env where
  "env_dup = env0\<lparr>a_err := (\<lambda>h c. if c = mark1 \<and> mark1 \<notin> set h then Some Canceled else None),
     a_hash := (\<lambda>h c. Inr [(''filename'', ''a.mp4''), (''totalChunks'', ''1''), (''userId'', ''3'')]), a_strs := (\<lambda>h c. Inr [''0''])\<rparr>"

lemma dup_answers:
  "a_err env_dup h c = (if c = mark1 \<and> mark1 \<notin> set h then Some Canceled else None)"
  "a_hash env_dup h c = Inr [(''filename'', ''a.mp4''), (''totalChunks'', ''1''), (''userId'', ''3'')]" "a_strs env_dup h c = Inr [''0'']"
  "a_bool env_dup h c = Inr True" "a_int env_dup h c = Inr 1" "a_str env_dup h c = Inr ''s''" "a_ostr env_dup h c = Inr None"
  "a_text env_dup h c = ''u''" "uuid_ok env_dup x = True" "md5 env_dup x = x" "object_root env_dup = ''http://m/b/''" "a_num env_dup h c = slept h"
  by (simp_all add: env_dup_def env0_def object_root_def)

lemma dup_names:
  "normalize_video_filename ''a.mp4'' = Inr ''a.mp4''" "validate_object_name ''chunk-uploads/u/part-0'' = Inr ()"
  "validate_object_name ''u.mp4'' = Inr ()" "object_suffix ''a.mp4'' = ''.mp4''"
  by (simp_all add: normalize_video_filename_def str_eval replace_backslash_def after_last_def file_suffix_def from_last_def video_suffixes_def
      utf16_len_def rune_units_def Let_def validate_object_name_def has_prefix_def object_suffix_def suffix_re_def is_suffix_char_def)

lemma dup_numbers: "itoa 3 = ''3''" "itoa 1 = ''1''" "itoa 0 = ''0''" "atoi ''1'' = Some 1" "atoi ''0'' = Some 0" "trim_slashes [] = []"
  by code_simp+

lemma dup_lock: "wp (try_lock env_dup default_locker key 0) Q h =
    Q (Inr (Some (new_lock key (hex_encode ''s'')))) (h @ [Os (ORandom 16), Os ONow, Redis (RSetNX key (hex_encode ''s'') (lo_ttl default_locker))])"
  by (simp add: try_lock_def wp_simps poll_bound_def numeral_2_eq_2 acquire_def dup_answers Let_def)

lemma dup_chunks: "wp (merge_chunks env_dup ''u'' tmp 0 (Suc 0) []) Q h = Q (Inr ''s'') (h @ [Store (SGetObject ''chunk-uploads/u/part-0'')])"
  by (simp add: Let_def wp_simps copy_object_def chunk_object_name_def validate_upload_id_def dup_answers dup_names dup_numbers)

lemma dup_local: "wp (upload_local_file env_dup tmp ''a.mp4'' []) Q h =
    Q (Inr ''http://m/b/u.mp4'') (h @ [Os (OFile ''stat'' tmp), Os ONewUUID, Os (OFile ''open'' tmp), Store (SPutObject ''u.mp4'' 1)])"
  by (simp add: upload_local_file_def put_object_def object_url_def wp_simps dup_answers dup_names dup_numbers mark1_def Let_def)

lemma dup_save: "wp (save_uploaded_media env_dup ''a.mp4'' url 3 md) (\<lambda>r q. \<exists>m. r = Inr m \<and> mf_id m = 1 \<and> inserted env_dup h q \<and> (mark1 \<in> set q \<longleftrightarrow> mark1 \<in> set h) \<and> prefix h q) h"
  by (auto simp: save_uploaded_media_def insert_media_def new_media_def remember_content_hash_def invalidate_user_list_def wp_simps Let_def made_append
      dup_answers dup_names mark1_def md5_key_def upload_completed_key_def upload_key_def split: option.splits)

lemma mark1_eq: "Redis (RSet (upload_completed_key ''u'') ''1'' upload_ttl) = mark1" "Os x \<noteq> mark1" "Store y \<noteq> mark1" "Media z \<noteq> mark1"
  "Redis (RGet k) \<noteq> mark1" "Redis (RHGetAll k) \<noteq> mark1" "Redis (RSMembers k) \<noteq> mark1" "Redis (RSetNX k v t) \<noteq> mark1"
  by (simp_all add: mark1_def)

lemma dup_merge:
  "wp (merge_upload env_dup ''u'' 3 ''a.mp4'' 1 tmp) (\<lambda>r q. (if mark1 \<in> set h then \<exists>m. r = Inr m else r = Inl Canceled) \<and> inserted env_dup h q \<and> mark1 \<in> set q) h"
proof -
  have save: "wp (save_uploaded_media env_dup ''a.mp4'' url 3 md) Q p"
    if "\<And>m q. mf_id m = 1 \<Longrightarrow> inserted env_dup h q \<Longrightarrow> (mark1 \<in> set q \<longleftrightarrow> mark1 \<in> set p) \<Longrightarrow> Q (Inr m) q" and "prefix h p" for Q p url md
    by (rule wp_mono [OF dup_save]) (use that in \<open>blast intro: made_earlier\<close>)
  have clean: "wp (cleanup env_dup ''u'' 1) Q p" if "\<And>q. prefix p q \<Longrightarrow> Q () q" for Q p
    by (rule wp_quiet [OF extends_upload(2)]) (rule that)
  show ?thesis
    unfolding merge_upload_def
    by (auto simp: wp_simps dup_chunks dup_local dup_answers dup_numbers mark1_eq mark1_eq(2-) [symmetric]
        simp del: merge_chunks.simps intro!: save clean)
      (blast intro: made_later append_prefixD prefixI | force simp: prefix_def)+
qed

text \<open>Two completions of the same upload.\<close>

lemma dup_locked:
  "wp (complete_locked env_dup ''u'' 3) (\<lambda>r q. (if mark1 \<in> set h then \<exists>m. r = Inr m else r = Inl Canceled) \<and> inserted env_dup h q \<and> mark1 \<in> set q) h"
proof -
  have merge: "wp (merge_upload env_dup ''u'' 3 ''a.mp4'' 1 tmp) Q p"
    if "prefix h p" "mark1 \<in> set p \<longleftrightarrow> mark1 \<in> set h"
      "\<And>r q. if mark1 \<in> set h then \<exists>m. r = Inr m else r = Inl Canceled \<Longrightarrow> inserted env_dup h q \<Longrightarrow> mark1 \<in> set q \<Longrightarrow> Q r q" for tmp Q p
    by (rule wp_mono [OF dup_merge]) (use that in \<open>auto simp del: dup_answers intro: made_earlier\<close>)
  show ?thesis
    unfolding complete_locked_def completed_upload_def require_upload_def uploaded_chunks_def
    by (auto simp: wp_simps validate_upload_id_def dup_answers(2-) dup_numbers hfield_def mark1_eq mark1_eq(2-) [symmetric] intro!: merge split: option.splits)
      (blast intro: made_later prefixI)+
qed

lemma dup_run:
  "wp (complete_upload env_dup ''u'' 3) (\<lambda>r q. (if mark1 \<in> set h then \<exists>m. r = Inr m else r = Inl Canceled) \<and> inserted env_dup h q \<and> mark1 \<in> set q) h"
proof -
  have locked: "wp (complete_locked env_dup ''u'' 3) Q p"
    if "prefix h p" "mark1 \<in> set p \<longleftrightarrow> mark1 \<in> set h"
      "\<And>r q. if mark1 \<in> set h then \<exists>m. r = Inr m else r = Inl Canceled \<Longrightarrow> inserted env_dup h q \<Longrightarrow> mark1 \<in> set q \<Longrightarrow> Q r q" for Q p
    by (rule wp_mono [OF dup_locked]) (use that in \<open>auto simp del: dup_answers intro: made_earlier\<close>)
  show ?thesis
    unfolding complete_upload_def release_if_held_def held_now_def unlock_def
    by (auto simp: wp_simps validate_upload_id_def dup_answers dup_lock mark1_eq mark1_eq(2-) [symmetric] intro!: locked split: option.splits)
      (blast intro: made_later prefixI)+
qed

text \<open>Retrying a completion can insert a second row: when the completion marker cannot be stored, Complete fails after
  inserting the row, and the next attempt, finding no marker and all chunks still there, inserts another one.\<close>

theorem complete_retry_duplicates:
  "\<exists>h1 m h2. run_state (complete_upload env_dup ''u'' 3) [] = (Inl Canceled, h1) \<and>
     run_state (complete_upload env_dup ''u'' 3) h1 = (Inr m, h2) \<and> inserted env_dup [] h1 \<and> inserted env_dup h1 h2"
proof -
  obtain r1 h1 where 1: "run_state (complete_upload env_dup ''u'' 3) [] = (r1, h1)" by fastforce
  obtain r2 h2 where 2: "run_state (complete_upload env_dup ''u'' 3) h1 = (r2, h2)" by fastforce
  from wp_run [OF 1 dup_run] wp_run [OF 2 dup_run] 1 2 show ?thesis by (auto simp del: dup_answers)
qed

theorem complete_upload_spec_witness:
  "\<exists>m q t p. run_state (complete_upload env_dup ''u'' 3) [mark1] = (Inr m, q) \<and>
     made (\<lambda>p c. a_bool env_dup p c = Inr True) [mark1] (Redis (RSetNX (merge_lock_key ''u'') t (lo_ttl default_locker))) p \<and> mf_user m = 3"
proof -
  obtain r q where 1: "run_state (complete_upload env_dup ''u'' 3) [mark1] = (r, q)" by fastforce
  with wp_run [OF 1 dup_run] obtain m where "run_state (complete_upload env_dup ''u'' 3) [mark1] = (Inr m, q)" by auto
  with complete_upload_spec [OF this] show ?thesis by (auto simp: already_merged_def newly_merged_def merged_def)
qed

end
