(* ===== verification/Instant.thy ===== *)
theory Instant
  imports Upload
begin

text \<open>
  Instant upload: internal/upload/instant.go.  A client that knows the MD5 and the size of a stored file is
  challenged to hash a random range of it; the row is created only for the right answer.
\<close>

section \<open>Instant upload (instant.go)\<close>

definition max_challenge_bytes :: int where "max_challenge_bytes = 2 ^ 20"
definition challenge_ttl :: int where "challenge_ttl = minutes 2"
definition object_lock_wait :: int where "object_lock_wait = seconds 5"

definition challenge_key :: "gostr \<Rightarrow> gostr" where "challenge_key cid = ''upload:challenge:'' @ cid"

record challenge =
  ch_id :: gostr
  ch_offset :: int
  ch_length :: int

record challenge_request =
  cr_md5 :: gostr
  cr_size :: int
  cr_filename :: gostr

record proof_request =
  pr_challenge :: gostr
  pr_range_md5 :: gostr

definition validate_challenge_request :: "challenge_request \<Rightarrow> challenge_request res" where
  "validate_challenge_request req =
     (if \<not> md5_pattern (cr_md5 req) then Inl (InvalidArgument m_md5_bad)
      else if cr_size req \<le> 0 then Inl (InvalidArgument m_size_bad)
      else case normalize_video_filename (cr_filename req) of
        Inl e \<Rightarrow> Inl e
      | Inr name \<Rightarrow> Inr \<lparr>cr_md5 = to_lower (cr_md5 req), cr_size = cr_size req, cr_filename = name\<rparr>)"

text \<open>The random source answers \<open>ORandInt n\<close>, crypto/rand's uniform value below \<open>n\<close>.\<close>

definition challenge_range :: "env \<Rightarrow> int \<Rightarrow> (int \<times> int) opE" where
  "challenge_range E sz =
     (let len = min sz max_challenge_bytes; span = sz - len + 1 in
      if span \<le> 1 then okE (0, len)
      else bindE (ask (a_int E) (Os (ORandInt span))) (\<lambda>off. okE (off, len)))"

text \<open>encoding/hex.DecodeString.\<close>

definition hex_val :: "char \<Rightarrow> nat" where
  "hex_val c = (if is_digit c then byte c - 48 else if 97 \<le> byte c then byte c - 87 else byte c - 55)"

fun hex_decode :: "gostr \<Rightarrow> gostr option" where
  "hex_decode [] = Some []"
| "hex_decode [c] = None"
| "hex_decode (c # d # s) =
     (if is_hex c \<and> is_hex d then map_option ((#) (char_of (16 * hex_val c + hex_val d))) (hex_decode s) else None)"

definition verify_range :: "env \<Rightarrow> gostr \<Rightarrow> gostr \<Rightarrow> bool" where
  "verify_range E bytes claimed = (case hex_decode (to_lower claimed) of
      None \<Rightarrow> False
    | Some dg \<Rightarrow> length dg = 16 \<and> md5 E bytes = dg)"

text \<open>The loop of Challenge over the stored copies: the first one in the store that has the size.\<close>

fun find_source :: "env \<Rightarrow> int \<Rightarrow> media_file list \<Rightarrow> gostr op" where
  "find_source E sz [] = ret []"
| "find_source E sz (c # cs) =
     (if \<not> is_managed_file E (mf_path c) then find_source E sz cs
      else catchE (object_size E (mf_path c)) (\<lambda>e. find_source E sz cs)
             (\<lambda>n. if n = sz then ret (mf_path c) else find_source E sz cs))"

definition challenge_fields :: "int \<Rightarrow> challenge_request \<Rightarrow> gostr \<Rightarrow> int \<Rightarrow> int \<Rightarrow> (gostr \<times> gostr) list" where
  "challenge_fields uid req source off len =
     [(''userId'', itoa uid), (''md5'', cr_md5 req), (''filename'', cr_filename req), (''filePath'', source),
      (''offset'', itoa off), (''length'', itoa len)]"

definition instant_challenge :: "env \<Rightarrow> int \<Rightarrow> challenge_request \<Rightarrow> challenge option opE" where
  "instant_challenge E uid raw = (case validate_challenge_request raw of
      Inl e \<Rightarrow> failE e
    | Inr req \<Rightarrow>
        bindE (ask (a_medias E) (Media (DFindByHash (cr_md5 req)))) (\<lambda>copies.
        bnd (find_source E (cr_size req) copies) (\<lambda>source.
        if source = [] then okE None
        else bindE (challenge_range E (cr_size req)) (\<lambda>(off, len).
          bnd (new_uuid E) (\<lambda>cid.
          bindE (ask_err (a_err E) (Redis (RPipe [RHSet (challenge_key cid) (challenge_fields uid req source off len),
                                                   RExpire (challenge_key cid) challenge_ttl]))) (\<lambda>_.
          okE (Some \<lparr>ch_id = cid, ch_offset = off, ch_length = len\<rparr>)))))))"

definition take_challenge :: "env \<Rightarrow> gostr \<Rightarrow> (gostr \<times> gostr) list opE" where
  "take_challenge E cid =
     (if \<not> uuid_ok E cid then failE (InvalidArgument m_challenge_bad)
      else bindE (ask (a_hash E) (Redis (RPipe [RHGetAll (challenge_key cid), RDel [challenge_key cid]]))) (\<lambda>ch.
        if ch = [] then failE (InvalidArgument m_challenge_expired) else okE ch))"

text \<open>Prove once the challenge is taken and the object lock held.\<close>

definition prove_locked :: "env \<Rightarrow> int \<Rightarrow> (gostr \<times> gostr) list \<Rightarrow> int \<Rightarrow> int \<Rightarrow> gostr \<Rightarrow> media_file opE" where
  "prove_locked E uid ch off len claimed =
     bindE (read_range E (hfield ch ''filePath'') off len) (\<lambda>bytes.
     if int (length bytes) \<noteq> len \<or> \<not> verify_range E bytes claimed then failE (InvalidArgument m_proof_failed)
     else save_reference E (hfield ch ''filename'') (hfield ch ''filePath'') uid (hfield ch ''md5''))"

definition instant_prove :: "env \<Rightarrow> int \<Rightarrow> proof_request \<Rightarrow> media_file opE" where
  "instant_prove E uid req =
     (if \<not> md5_pattern (pr_range_md5 req) then failE (InvalidArgument m_range_md5_bad)
      else bindE (take_challenge E (pr_challenge req)) (\<lambda>ch.
        if hfield ch ''userId'' \<noteq> itoa uid then failE (Forbidden m_challenge_foreign)
        else case (parse_int 64 (hfield ch ''offset''), parse_int 64 (hfield ch ''length'')) of
          (Some off, Some len) \<Rightarrow>
            if len \<le> 0 then failE (Internal m_challenge_corrupt None)
            else bindE (try_lock E default_locker (object_lock_key (hfield ch ''md5'')) object_lock_wait) (\<lambda>lk.
              case lk of
                None \<Rightarrow> failE (Business CodeConflict m_file_busy)
              | Some l \<Rightarrow> bnd (prove_locked E uid ch off len (pr_range_md5 req)) (\<lambda>r.
                  thenI (unlock E (Some l)) (ret r)))
        | _ \<Rightarrow> failE (Internal m_challenge_corrupt None)))"
section \<open>Facts\<close>

lemma extends_instant [ext_intros]:
  "extends (take_challenge E cid)" "extends (prove_locked E uid ch off len claimed)" "extends (challenge_range E sz)"
  unfolding take_challenge_def prove_locked_def challenge_range_def Let_def by (intro ext_intros)+

lemma extends_find_source [ext_intros]: "extends (find_source E sz cs)"
  by (induction cs) (auto intro!: ext_intros)

lemma no_insert_proof: "uses no_insert (read_range E url off len)" "uses no_insert (take_challenge E cid)"
  unfolding read_range_def take_challenge_def by (intro use_intros; simp add: no_insert_def)+

text \<open>Recording a reference: the row it answers, and nothing inserted when it fails.\<close>

lemma wp_save_reference:
  "wp (save_reference E fn url uid md) (\<lambda>r q. (\<forall>m. r = Inr m \<longrightarrow>
       inserted E h q \<and> mf_path m = url \<and> mf_user m = uid \<and> mf_hash m = Some md) \<and> (\<forall>e. r = Inl e \<longrightarrow> \<not> inserted E h q)) h"
  by (auto simp: save_reference_def insert_media_def new_media_def remember_content_hash_def invalidate_user_list_def wp_simps Let_def made_append
      split: sum.splits option.splits)

text \<open>The proof of possession: the bytes read from the stored object hash to the claim, then the row is inserted.\<close>

definition range_proved :: "env \<Rightarrow> gostr \<Rightarrow> int \<Rightarrow> int \<Rightarrow> gostr \<Rightarrow> hist \<Rightarrow> hist \<Rightarrow> bool" where
  "range_proved E url off len claimed h q \<longleftrightarrow> (\<exists>name b. object_name E url = Inr name \<and>
     made (\<lambda>p c. a_str E p c = Inr b) h (Store (SGetRange name off (off + len - 1))) q \<and>
     int (length (take (nat len) b)) = len \<and> hex_decode (to_lower claimed) = Some (md5 E (take (nat len) b)))"

lemma wp_read_range:
  "wp (read_range E url off len) (\<lambda>r q. \<forall>bytes. r = Inr bytes \<longrightarrow> int (length bytes) = len \<and> verify_range E bytes claimed \<longrightarrow>
      range_proved E url off len claimed h q) h"
  by (auto simp: read_range_def wp_simps range_proved_def verify_range_def made_append split: sum.splits option.splits)

definition reference_of :: "(gostr \<times> gostr) list \<Rightarrow> int \<Rightarrow> media_file \<Rightarrow> bool" where
  "reference_of ch uid m \<longleftrightarrow> mf_user m = uid \<and> mf_path m = hfield ch ''filePath'' \<and> mf_hash m = Some (hfield ch ''md5'')"

lemma wp_prove_locked:
  "wp (prove_locked E uid ch off len claimed) (\<lambda>r q.
      (\<forall>m. r = Inr m \<longrightarrow> reference_of ch uid m \<and> (\<exists>p. range_proved E (hfield ch ''filePath'') off len claimed h p \<and> inserted E p q)) \<and>
      (\<forall>e. r = Inl e \<longrightarrow> \<not> inserted E h q)) h"
proof -
  let ?url = "hfield ch ''filePath''"
  have skip: "\<not> inserted E h (h @ xs @ ys)" if "list_all no_insert xs" "\<not> inserted E (h @ xs) (h @ xs @ ys)" for xs ys
    using that made_append [of _ "h @ xs" _ ys] by (auto simp: made_append made_in_append)
  show ?thesis
    unfolding prove_locked_def wp_bindE
  proof (rule wp_uses_conj [OF no_insert_proof(1) wp_read_range [where claimed = claimed]], goal_cases)
    case (1 r xs)
    show ?case
    proof (cases "\<exists>bytes. r = Inr bytes \<and> int (length bytes) = len \<and> verify_range E bytes claimed")
      case True
      with 1 have "range_proved E ?url off len claimed h (h @ xs)" by blast
      then show ?thesis
        using True 1(1)
        by (auto simp: reference_of_def)
          (rule wp_mono [OF iffD2 [OF wp_conj, OF conjI [OF wp_save_reference wp_extends [OF extends_save(2)]]]],
           auto simp: prefix_def dest: skip)
    next
      case False
      with 1(1) show ?thesis by (auto simp: wp_simps made_append split: sum.splits)
    qed
  qed
qed
lemma wp_take_challenge:
  "wp (take_challenge E cid) (\<lambda>r q. \<forall>ch. r = Inr ch \<longrightarrow>
     made (\<lambda>p c. a_hash E p c = Inr ch) h (Redis (RPipe [RHGetAll (challenge_key cid), RDel [challenge_key cid]])) q) h"
  by (auto simp: take_challenge_def wp_simps made_append split: sum.splits)

text \<open>What a granted proof went through, in this order: the challenge was taken (and deleted), the object lock was
  granted, the range was read and matched, the row was inserted.\<close>

definition proof_accepted :: "env \<Rightarrow> int \<Rightarrow> proof_request \<Rightarrow> media_file \<Rightarrow> hist \<Rightarrow> hist \<Rightarrow> bool" where
  "proof_accepted E uid req m h q \<longleftrightarrow> (\<exists>ch off len t p1 p2 p3.
     made (\<lambda>p c. a_hash E p c = Inr ch) h
       (Redis (RPipe [RHGetAll (challenge_key (pr_challenge req)), RDel [challenge_key (pr_challenge req)]])) p1 \<and>
     hfield ch ''userId'' = itoa uid \<and> parse_int 64 (hfield ch ''offset'') = Some off \<and> parse_int 64 (hfield ch ''length'') = Some len \<and> 0 < len \<and>
     made (\<lambda>p c. a_bool E p c = Inr True) p1 (Redis (RSetNX (object_lock_key (hfield ch ''md5'')) t (lo_ttl default_locker))) p2 \<and>
     range_proved E (hfield ch ''filePath'') off len (pr_range_md5 req) p2 p3 \<and> inserted E p3 q \<and> reference_of ch uid m)"

lemma inserted_skip: "list_all no_insert xs \<Longrightarrow> inserted E h (h @ xs @ ys) \<longleftrightarrow> inserted E (h @ xs) (h @ xs @ ys)"
  using made_append [of _ "h @ xs" _ ys] by (auto simp: made_append made_in_append)

lemma wp_prove_release:
  assumes "list_all no_insert xs" and "p = h @ xs"
    and acc: "\<And>m p3 q. reference_of ch uid m \<Longrightarrow> range_proved E (hfield ch ''filePath'') off len claimed p p3 \<Longrightarrow> inserted E p3 q \<Longrightarrow> Q (Inr m) q"
    and rej: "\<And>e q. \<not> inserted E h q \<Longrightarrow> Q (Inl e) q"
  shows "wp (bnd (prove_locked E uid ch off len claimed) (\<lambda>r. thenI (unlock E lk) (ret r))) Q p"
  unfolding wp_bnd wp_thenI wp_ret
proof (rule wp_mono [OF iffD2 [OF wp_conj, OF conjI [OF wp_prove_locked wp_extends [OF extends_instant(2)]]]], goal_cases)
  case (1 r q)
  then obtain ws where q: "q = h @ xs @ ws" using assms(2) by (auto simp: prefix_def)
  show ?case
  proof (rule wp_usesI [OF no_insert_parts(2)])
    fix u :: "goerr + unit" and zs
    assume zs: "list_all no_insert zs"
    show "Q r (q @ zs)"
    proof (cases r)
      case (Inl e)
      with 1 q assms have "\<not> inserted E h q" using inserted_skip [of xs E h ws] by auto
      with zs q have "\<not> inserted E h (q @ zs)" by (simp add: made_append made_in_append)
      with Inl show ?thesis by (auto intro: rej)
    next
      case (Inr m)
      with 1 obtain p3 where "reference_of ch uid m" "range_proved E (hfield ch ''filePath'') off len claimed p p3" "inserted E p3 q" by blast
      moreover from this have "inserted E p3 (q @ zs)" by (blast intro: made_later prefixI)
      ultimately show ?thesis unfolding Inr by (blast intro: acc)
    qed
  qed
qed

definition prove_post :: "env \<Rightarrow> int \<Rightarrow> proof_request \<Rightarrow> hist \<Rightarrow> media_file res \<Rightarrow> hist \<Rightarrow> bool" where
  "prove_post E uid req h r q = (case r of Inr m \<Rightarrow> proof_accepted E uid req m h q | Inl e \<Rightarrow> \<not> inserted E h q)"

lemma wp_instant_prove: "wp (instant_prove E uid req) (prove_post E uid req h) h"
  (is "wp _ ?Q h")
proof -
  have fail: "?Q (Inl e) h" "list_all no_insert xs \<Longrightarrow> ?Q (Inl e) (h @ xs)"
    "list_all no_insert xs \<Longrightarrow> list_all no_insert ys \<Longrightarrow> ?Q (Inl e) (h @ xs @ ys)" for e xs ys
    by (simp_all add: prove_post_def)
  have locked: "wp (bnd (prove_locked E uid ch off len (pr_range_md5 req)) (\<lambda>r. thenI (unlock E lk) (ret r))) ?Q (h @ xs @ ys)"
    if ok: "hfield ch ''userId'' = itoa uid" "parse_int 64 (hfield ch ''offset'') = Some off" "parse_int 64 (hfield ch ''length'') = Some len" "\<not> len \<le> 0"
      and taken: "made (\<lambda>p c. a_hash E p c = Inr ch) h (Redis (RPipe [RHGetAll (challenge_key (pr_challenge req)), RDel [challenge_key (pr_challenge req)]])) (h @ xs)"
      and ni: "list_all no_insert xs" "list_all no_insert ys"
      and lk: "made (\<lambda>p c. a_bool E p c = Inr True) (h @ xs) (Redis (RSetNX (object_lock_key (hfield ch ''md5'')) t (lo_ttl default_locker))) (h @ xs @ ys)"
    for ch off len lk xs ys t
  proof (rule wp_prove_release)
    fix m p3 q
    assume "reference_of ch uid m" "range_proved E (hfield ch ''filePath'') off len (pr_range_md5 req) (h @ xs @ ys) p3" "inserted E p3 q"
    with ok taken lk have "proof_accepted E uid req m h q" unfolding proof_accepted_def not_le by fast
    then show "?Q (Inr m) q" by (simp add: prove_post_def)
  qed (use ni in \<open>simp_all add: prove_post_def\<close>)
  have take: "wp (take_challenge E (pr_challenge req)) Q h"
    if "\<And>r xs. list_all no_insert xs \<Longrightarrow> (\<forall>ch. r = Inr ch \<longrightarrow> made (\<lambda>p c. a_hash E p c = Inr ch) h
        (Redis (RPipe [RHGetAll (challenge_key (pr_challenge req)), RDel [challenge_key (pr_challenge req)]])) (h @ xs)) \<Longrightarrow> Q r (h @ xs)" for Q
    by (rule wp_uses_conj [OF no_insert_proof(2) wp_take_challenge]) (rule that)
  have lock: "wp (try_lock E default_locker key w) Q (h @ xs)"
    if "\<And>r ys. list_all no_insert ys \<Longrightarrow> (\<forall>lk. r = Inr (Some lk) \<longrightarrow> (\<exists>t. lk = new_lock key t \<and>
      made (\<lambda>p c. a_bool E p c = Inr True) (h @ xs) (Redis (RSetNX key t (lo_ttl default_locker))) (h @ xs @ ys))) \<Longrightarrow> Q r (h @ xs @ ys)" for key w Q xs
    by (rule wp_uses_conj [OF no_insert_parts(1) wp_try_lock]) (use that in simp)
  show ?thesis
    unfolding instant_prove_def
    by (auto intro!: take lock simp: wp_if wp_bindE wp_failE wp_case_option wp_case_prod locked fail split: sum.splits option.splits)
qed

text \<open>Hexadecimal digests.\<close>

definition lower_hex :: "char \<Rightarrow> bool" where
  "lower_hex c = (is_digit c \<or> (97 \<le> byte c \<and> byte c \<le> 102))"

lemma hex_digit_val: "d < 16 \<Longrightarrow> hex_val (hex_digit d) = d \<and> lower_hex (hex_digit d) \<and> is_hex (hex_digit d)"
  by (auto simp: hex_val_def hex_digit_def lower_hex_def is_hex_def is_digit_def)

lemma hex_val_digit: "lower_hex c \<Longrightarrow> hex_val c < 16 \<and> hex_digit (hex_val c) = c \<and> is_hex c"
  by (auto simp: hex_val_def hex_digit_def lower_hex_def is_hex_def is_digit_def)

lemma hex_decode_encode: "hex_decode (hex_encode d) = Some d"
proof (induction d)
  case (Cons c d)
  have "byte c div 16 < 16" "byte c mod 16 < 16" using byte_lt [of c] by auto
  with Cons show ?case by (simp add: hex_encode_def hex_digit_val)
qed (simp add: hex_encode_def)

interpretation hex: codec "\<lambda>s. True" hex_encode hex_decode
  by unfold_locales (rule hex_decode_encode)

lemma hex_encode_decode: "hex_decode s = Some d \<Longrightarrow> list_all lower_hex s \<Longrightarrow> hex_encode d = s"
  by (induction s arbitrary: d rule: hex_decode.induct)
    (auto simp: hex_encode_def hex_val_digit split: if_splits dest!: hex_val_digit)

lemma hex_decode_iff: "list_all lower_hex s \<Longrightarrow> hex_decode s = Some d \<longleftrightarrow> s = hex_encode d"
  by (auto simp: hex_decode_encode dest: hex_encode_decode)

lemma to_lower_hex: "list_all is_hex s \<Longrightarrow> list_all lower_hex (to_lower s)"
  unfolding to_lower_def
  by (subst runes_ascii) (auto simp: list_all_iff is_hex_ascii lower_rune_def is_hex_def lower_hex_def is_digit_def)

text \<open>The range of a challenge lies in the file.\<close>

lemma wp_challenge_range:
  assumes "0 < sz" and "\<And>p n k. a_int E p (Os (ORandInt n)) = Inr k \<Longrightarrow> 0 \<le> k \<and> k < n"
  shows "wp (challenge_range E sz) (\<lambda>r q. \<forall>off len. r = Inr (off, len) \<longrightarrow>
     0 \<le> off \<and> 0 < len \<and> len \<le> max_challenge_bytes \<and> off + len \<le> sz) h"
  using assms by (auto simp: challenge_range_def Let_def wp_simps max_challenge_bytes_def split: sum.splits dest: assms(2))

lemma wp_find_source:
  "wp (find_source E sz cs) (\<lambda>source q. source \<noteq> [] \<longrightarrow> (\<exists>name. object_name E source = Inr name \<and> is_managed_file E source \<and>
     made (\<lambda>p c. a_int E p c = Inr sz) h (Store (SStatObject name)) q)) h"
proof (induction cs arbitrary: h)
  case (Cons c cs)
  show ?case
    by (auto simp: wp_simps object_size_def made_append split: sum.splits intro!: wp_mono [OF Cons.IH] elim!: made_earlier)
qed (simp add: wp_simps)

definition challenge_stored :: "env \<Rightarrow> int \<Rightarrow> challenge_request \<Rightarrow> challenge \<Rightarrow> hist \<Rightarrow> hist \<Rightarrow> bool" where
  "challenge_stored E uid req ch h q \<longleftrightarrow> (\<exists>source name. object_name E source = Inr name \<and> is_managed_file E source \<and>
     made (\<lambda>p c. a_int E p c = Inr (cr_size req)) h (Store (SStatObject name)) q \<and>
     made (acked E) h (Redis (RPipe [RHSet (challenge_key (ch_id ch)) (challenge_fields uid req source (ch_offset ch) (ch_length ch)),
       RExpire (challenge_key (ch_id ch)) challenge_ttl])) q)"

lemma challenge_storedI:
  assumes "object_name E source = Inr name" and "is_managed_file E source"
    and "made (\<lambda>p c. a_int E p c = Inr (cr_size req)) h (Store (SStatObject name)) p" and "prefix p q"
    and "acked E q (Redis (RPipe [RHSet (challenge_key (ch_id ch)) (challenge_fields uid req source (ch_offset ch) (ch_length ch)),
       RExpire (challenge_key (ch_id ch)) challenge_ttl]))"
  shows "challenge_stored E uid req ch h (q @ [Redis (RPipe [RHSet (challenge_key (ch_id ch)) (challenge_fields uid req source (ch_offset ch) (ch_length ch)),
       RExpire (challenge_key (ch_id ch)) challenge_ttl])])"
proof -
  have "prefix h q" using made_def [of _ h _ p] assms(3,4) by (auto dest: append_prefixD intro: prefix_order.trans)
  then show ?thesis
    unfolding challenge_stored_def using assms by (blast intro: made_later [OF assms(3)] made_last prefix_order.trans prefixI)
qed

lemma wp_instant_challenge:
  assumes rand: "\<And>p n k. a_int E p (Os (ORandInt n)) = Inr k \<Longrightarrow> 0 \<le> k \<and> k < n"
  shows "wp (instant_challenge E uid raw) (\<lambda>r q. \<forall>ch. r = Inr (Some ch) \<longrightarrow> (\<exists>req. validate_challenge_request raw = Inr req \<and>
     0 \<le> ch_offset ch \<and> 0 < ch_length ch \<and> ch_length ch \<le> max_challenge_bytes \<and> ch_offset ch + ch_length ch \<le> cr_size req \<and>
     challenge_stored E uid req ch h q)) h"
proof -
  have size: "0 < cr_size req" if "validate_challenge_request raw = Inr req" for req
    using that by (auto simp: validate_challenge_request_def split: if_splits sum.splits)
  have find: "wp (find_source E sz cs) Q p"
    if "prefix h p" "\<And>source q. prefix p q \<Longrightarrow> (source \<noteq> [] \<longrightarrow> (\<exists>name. object_name E source = Inr name \<and> is_managed_file E source \<and>
       made (\<lambda>p c. a_int E p c = Inr sz) h (Store (SStatObject name)) q)) \<Longrightarrow> Q source q" for sz cs Q p
    by (rule wp_mono [OF iffD2 [OF wp_conj, OF conjI [OF wp_find_source wp_extends [OF extends_find_source]]]])
      (use that in \<open>blast intro: made_earlier\<close>)
  have range: "wp (challenge_range E sz) Q p" if "0 < sz" "\<And>r q. prefix p q \<Longrightarrow> (\<forall>off len. r = Inr (off, len) \<longrightarrow>
     0 \<le> off \<and> 0 < len \<and> len \<le> max_challenge_bytes \<and> off + len \<le> sz) \<Longrightarrow> Q r q" for sz Q p
    by (rule wp_mono [OF iffD2 [OF wp_conj, OF conjI [OF wp_challenge_range wp_extends [OF extends_instant(3)]]]]) (use that rand in blast)+
  have tail: "wp (bnd (new_uuid E) (\<lambda>cid. bindE (ask_err (a_err E) (Redis (RPipe [RHSet (challenge_key cid) (challenge_fields uid req source off len),
        RExpire (challenge_key cid) challenge_ttl]))) (\<lambda>_. okE (Some \<lparr>ch_id = cid, ch_offset = off, ch_length = len\<rparr>))))
      (\<lambda>r q. \<forall>ch. r = Inr (Some ch) \<longrightarrow> 0 \<le> ch_offset ch \<and> 0 < ch_length ch \<and> ch_length ch \<le> max_challenge_bytes \<and>
         ch_offset ch + ch_length ch \<le> cr_size req \<and> challenge_stored E uid req ch h q) p"
    if "object_name E source = Inr name" "is_managed_file E source"
      "made (\<lambda>p c. a_int E p c = Inr (cr_size req)) h (Store (SStatObject name)) p0" "prefix p0 p"
      "0 \<le> off" "0 < len" "len \<le> max_challenge_bytes" "off + len \<le> cr_size req" for req source name off len p0 p
    using that challenge_storedI [OF that(1-3), of "p @ [Os ONewUUID]" "\<lparr>ch_id = a_text E p (Os ONewUUID), ch_offset = off, ch_length = len\<rparr>" uid]
    by (auto simp: wp_simps split: option.splits)
  show ?thesis
    unfolding instant_challenge_def
    by (auto simp: wp_bindE wp_bnd [of "find_source _ _ _"] wp_ask wp_okE wp_failE wp_case_sum wp_if wp_case_prod size split: sum.splits intro!: find range tail)
qed

section \<open>Properties\<close>

text \<open>(C31) Instant upload.  A proof that is accepted took its challenge (reading and deleting it at once), which was
  issued to the same user, was granted the object lock, read the challenged range of the stored object and found
  that its MD5 is the claimed one, and only then inserted a row of that user for that object; a proof that is
  refused inserts nothing.\<close>

theorem instant_prove_sound:
  assumes "run_state (instant_prove E uid req) h = (r, h')"
  shows "case r of Inr m \<Rightarrow> proof_accepted E uid req m h h' | Inl e \<Rightarrow> \<not> inserted E h h'"
  using wp_run [OF assms wp_instant_prove] by (simp add: prove_post_def)
text \<open>(C32) The challenge a client gets names a non-empty range of at most one MiB that lies inside the file, was stored for
  that user together with the object it is about, an object of the store of exactly the announced size, and the
  range read back from the stored fields is the one the client was told.\<close>

theorem challenge_within_file:
  assumes "run_state (instant_challenge E uid raw) h = (Inr (Some ch), h')"
    and rand: "\<And>p n k. a_int E p (Os (ORandInt n)) = Inr k \<Longrightarrow> 0 \<le> k \<and> k < n"
    and width: "in_bits 64 (cr_size raw)"
  shows "\<exists>req source name. validate_challenge_request raw = Inr req \<and>
     0 \<le> ch_offset ch \<and> 0 < ch_length ch \<and> ch_length ch \<le> 1024 * 1024 \<and> ch_offset ch + ch_length ch \<le> cr_size raw \<and>
     object_name E source = Inr name \<and> is_managed_file E source \<and>
     made (\<lambda>p c. a_int E p c = Inr (cr_size raw)) h (Store (SStatObject name)) h' \<and>
     (\<exists>fields. made (acked E) h (Redis (RPipe [RHSet (challenge_key (ch_id ch)) fields, RExpire (challenge_key (ch_id ch)) (minutes 2)])) h' \<and>
        hfield fields ''userId'' = itoa uid \<and> hfield fields ''filePath'' = source \<and> hfield fields ''md5'' = to_lower (cr_md5 raw) \<and>
        parse_int 64 (hfield fields ''offset'') = Some (ch_offset ch) \<and> parse_int 64 (hfield fields ''length'') = Some (ch_length ch))"
proof -
  have w: "wp (instant_challenge E uid raw) (\<lambda>r q. \<forall>ch. r = Inr (Some ch) \<longrightarrow> (\<exists>req. validate_challenge_request raw = Inr req \<and>
     0 \<le> ch_offset ch \<and> 0 < ch_length ch \<and> ch_length ch \<le> max_challenge_bytes \<and> ch_offset ch + ch_length ch \<le> cr_size req \<and>
     challenge_stored E uid req ch h q)) h"
    by (rule wp_instant_challenge) (rule rand)
  from wp_run [OF assms(1) w] obtain req source name where
      v: "validate_challenge_request raw = Inr req" and r: "0 \<le> ch_offset ch" "0 < ch_length ch" "ch_length ch \<le> max_challenge_bytes"
        "ch_offset ch + ch_length ch \<le> cr_size req"
      and st: "object_name E source = Inr name" "is_managed_file E source" "made (\<lambda>p c. a_int E p c = Inr (cr_size req)) h (Store (SStatObject name)) h'"
        "made (acked E) h (Redis (RPipe [RHSet (challenge_key (ch_id ch)) (challenge_fields uid req source (ch_offset ch) (ch_length ch)),
           RExpire (challenge_key (ch_id ch)) challenge_ttl])) h'"
    unfolding challenge_stored_def by blast
  from v have req: "cr_size req = cr_size raw" "cr_md5 req = to_lower (cr_md5 raw)"
    by (auto simp: validate_challenge_request_def split: if_splits sum.splits)
  have bits: "in_bits 64 (ch_offset ch)" "in_bits 64 (ch_length ch)" using width r req by (auto simp: in_bits_def)
  show ?thesis
    by (rule exI [of _ req], rule exI [of _ source], rule exI [of _ name],
        intro conjI exI [of _ "challenge_fields uid req source (ch_offset ch) (ch_length ch)"])
      (use v r st req bits in \<open>simp_all add: max_challenge_bytes_def challenge_ttl_def challenge_fields_def hfield_def parse_int_itoa\<close>)
qed

text \<open>Comparing digests.  For a claim the request validation accepts, the byte comparison of the decoded claim with
  the MD5 of the range is the comparison of the lower-case claim with the hexadecimal digest.\<close>

theorem verify_range_spec:
  assumes "md5_pattern claimed" and "length (md5 E bytes) = 16"
  shows "verify_range E bytes claimed \<longleftrightarrow> to_lower claimed = hex_encode (md5 E bytes)"
proof -
  have "list_all lower_hex (to_lower claimed)" using assms(1) to_lower_hex by (auto simp: md5_pattern_def)
  note hex_decode_iff [OF this]
  moreover have "verify_range E bytes claimed \<longleftrightarrow> hex_decode (to_lower claimed) = Some (md5 E bytes)"
    using assms(2) by (auto simp: verify_range_def split: option.splits)
  ultimately show ?thesis by simp
qed
section \<open>Witnesses\<close>

definition env_proof :: env where
  "env_proof = env0\<lparr>a_hash := (\<lambda>h c. Inr [(''userId'', ''3''), (''md5'', ''d''), (''filename'', ''a.mp4''), (''filePath'', ''http://m/b/x.mp4''),
     (''offset'', ''0''), (''length'', ''1'')]), md5 := (\<lambda>s. replicate 16 (char_of (0 :: nat)))\<rparr>"

definition req_proof :: proof_request where
  "req_proof = \<lparr>pr_challenge = ''u'', pr_range_md5 = replicate 32 (CHR ''0'')\<rparr>"

lemma proof_claim: "md5_pattern (replicate 32 (CHR ''0''))" "verify_range env_proof bytes (replicate 32 (CHR ''0''))"
proof -
  show "md5_pattern (replicate 32 (CHR ''0''))" by (simp add: md5_pattern_def list_all_iff is_hex_def is_digit_def byte_def)
  have "hex_decode (to_lower (replicate 32 (CHR ''0''))) = Some (replicate 16 (char_of (0::nat)))" by code_simp
  then show "verify_range env_proof bytes (replicate 32 (CHR ''0''))" by (simp add: verify_range_def env_proof_def)
qed

lemma proof_answers:
  "a_err env_proof h c = None" "a_bool env_proof h c = Inr True" "a_str env_proof h c = Inr ''s''" "a_int env_proof h c = Inr 1" "uuid_ok env_proof x"
  "a_hash env_proof h c = Inr [(''userId'', ''3''), (''md5'', ''d''), (''filename'', ''a.mp4''), (''filePath'', ''http://m/b/x.mp4''), (''offset'', ''0''), (''length'', ''1'')]"
  by (simp_all add: env_proof_def env0_def)

lemma proof_object: "object_name env_proof ''http://m/b/x.mp4'' = Inr ''x.mp4''"
  by (simp add: object_name_def env_proof_def env0_def has_prefix_def validate_object_name_def str_eval)

lemma run_proof: "wp (instant_prove env_proof 3 req_proof) (\<lambda>r q. \<exists>m. r = Inr m) []"
proof -
  have lock: "wp (try_lock env_proof opts key w) Q h" if "\<And>l q. Q (Inr (Some l)) q" for opts key w Q h
    by (simp add: try_lock_def wp_simps poll_bound_def acquire_def proof_answers that)
  show ?thesis
    by (auto simp: instant_prove_def take_challenge_def prove_locked_def read_range_def save_reference_def insert_media_def remember_content_hash_def
        invalidate_user_list_def unlock_def req_proof_def range_ok_def proof_claim proof_answers proof_object dup_numbers dup_names hfield_def wp_simps Let_def
        intro!: lock split: option.splits)
qed

theorem instant_prove_sound_witness:
  "\<exists>m q. run_state (instant_prove env_proof 3 req_proof) [] = (Inr m, q) \<and> proof_accepted env_proof 3 req_proof m [] q"
proof -
  obtain r q where 1: "run_state (instant_prove env_proof 3 req_proof) [] = (r, q)" by fastforce
  with wp_run [OF 1 run_proof] obtain m where "run_state (instant_prove env_proof 3 req_proof) [] = (Inr m, q)" by auto
  with instant_prove_sound [OF this] show ?thesis by auto
qed

theorem verify_range_spec_witness:
  "verify_range env_proof ''x'' (replicate 32 (CHR ''0'')) \<longleftrightarrow> to_lower (replicate 32 (CHR ''0'')) = hex_encode (md5 env_proof ''x'')"
  by (rule verify_range_spec) (simp_all add: proof_claim env_proof_def)
definition env_chal :: env where
  "env_chal = env0\<lparr>a_medias := (\<lambda>h c. Inr [media1]),
     a_int := (\<lambda>h c. case c of Os (ORandInt n) \<Rightarrow> if 0 < n then Inr 0 else Inl Canceled | _ \<Rightarrow> Inr 2097152)\<rparr>"

definition req_chal :: challenge_request where
  "req_chal = \<lparr>cr_md5 = replicate 32 (CHR ''0''), cr_size = 2097152, cr_filename = ''a.mp4''\<rparr>"

lemma run_challenge: "wp (instant_challenge env_chal 3 req_chal) (\<lambda>r q. \<exists>ch. r = Inr (Some ch)) []"
proof -
  have "object_name env_chal ''http://m/b/x.mp4'' = Inr ''x.mp4''" "is_managed_file env_chal ''http://m/b/x.mp4''"
    by (simp_all add: object_name_def env_chal_def env0_def has_prefix_def validate_object_name_def str_eval is_managed_file_def object_root_def)
  moreover have "a_medias env_chal h c = Inr [media1]" "a_int env_chal h (Store x) = Inr 2097152" "a_int env_chal h (Os (ORandInt 1048577)) = Inr 0"
      "a_err env_chal h c = None" for h c x
    by (simp_all add: env_chal_def env0_def)
  ultimately show ?thesis
    by (simp add: instant_challenge_def validate_challenge_request_def req_chal_def proof_claim dup_names wp_simps media1_def object_size_def
        challenge_range_def max_challenge_bytes_def Let_def)
qed

theorem challenge_within_file_witness:
  "\<exists>ch q. run_state (instant_challenge env_chal 3 req_chal) [] = (Inr (Some ch), q) \<and> 0 \<le> ch_offset ch \<and> ch_offset ch + ch_length ch \<le> 2097152"
proof -
  obtain r q where 1: "run_state (instant_challenge env_chal 3 req_chal) [] = (r, q)" by fastforce
  with wp_run [OF 1 run_challenge] obtain ch where ch: "run_state (instant_challenge env_chal 3 req_chal) [] = (Inr (Some ch), q)" by auto
  have "0 \<le> k \<and> k < n" if "a_int env_chal p (Os (ORandInt n)) = Inr k" for p n k
    using that by (auto simp: env_chal_def split: if_splits)
  from challenge_within_file [OF ch this] show ?thesis using ch by (auto simp: req_chal_def in_bits_def)
qed

end
