(* ===== verification/Transcription.thy ===== *)
theory Transcription
  imports Media TaskEvents
begin

text \<open>
  Standalone transcriptions: internal/analysis/transcription.go, and the request of
  internal/httpapi/handlers_media.go that starts one.  The AI pool answers \<open>OSubmit\<close>: an error is a full
  pool; the accepted task later runs \<open>transcription_run\<close>.
\<close>

section \<open>Operations\<close>

definition transcription_active_ttl :: int where "transcription_active_ttl = hours 2"

definition tr_active_key :: "int \<Rightarrow> gostr" where
  "tr_active_key mid = ''transcription:active:'' @ itoa mid"

definition tr_state_key :: "int \<Rightarrow> gostr" where
  "tr_state_key mid = ''transcription:state:'' @ itoa mid"

definition tr_set_state :: "env \<Rightarrow> int \<Rightarrow> task_state \<Rightarrow> int \<Rightarrow> unit op" where
  "tr_set_state E mid st ttl = thenI (ask_err (a_err E) (Redis (RSet (tr_state_key mid) st ttl))) (ret ())"

definition clear_active :: "env \<Rightarrow> int \<Rightarrow> unit op" where
  "clear_active E mid = del_key E (tr_active_key mid)"

definition queue_transcription :: "env \<Rightarrow> int \<Rightarrow> bool opE" where
  "queue_transcription E mid =
     bindE (ask (a_bool E) (Redis (RSetNX (tr_active_key mid) ''1'' transcription_active_ttl))) (\<lambda>ok.
     if \<not> ok then okE False
     else thenI (tr_set_state E mid StateQueued transcription_active_ttl)
         (thenI (publish_transcription E mid (status_of StateQueued m_tr_queued) StageQueued)
           (okE True)))"

text \<open>The function fail of run.\<close>

definition transcription_fail :: "env \<Rightarrow> int \<Rightarrow> unit op" where
  "transcription_fail E mid =
     thenI (tr_set_state E mid StateFailed (hours 1))
       (publish_transcription E mid (status_of StateFailed m_tr_failed) StageFailed)"

text \<open>The body of run between the lookup and the deferred clearActive.\<close>

definition transcription_body :: "env \<Rightarrow> int \<Rightarrow> media_file \<Rightarrow> unit op" where
  "transcription_body E mid mf =
     thenI (tr_set_state E mid StateProcessing transcription_active_ttl)
     (thenI (publish_transcription E mid (status_of StateProcessing m_tr_running) StageASR)
     (catchE (bindE (readable_source E (mf_path mf)) (transcribe_video E))
       (\<lambda>e. transcription_fail E mid)
       (\<lambda>text. catchE (ask_err (a_err E) (Media (DUpdateTranscript mid text)))
         (\<lambda>e. transcription_fail E mid)
         (\<lambda>_. thenI (invalidate_user_list E (mf_user mf))
           (thenI (tr_set_state E mid StateCompleted (hours 168))
             (publish_transcription E mid (status_completed text) StageCompleted))))))"

definition transcription_run :: "env \<Rightarrow> int \<Rightarrow> unit op" where
  "transcription_run E mid =
     bnd (ask (a_media E) (Media (DFindMedia mid))) (\<lambda>r.
     case r of
       Inr (Some mf) \<Rightarrow> thenI (transcription_body E mid mf) (clear_active E mid)
     | _ \<Rightarrow> clear_active E mid)"

definition reject_queued :: "env \<Rightarrow> int \<Rightarrow> unit op" where
  "reject_queued E mid =
     thenI (clear_active E mid)
     (thenI (tr_set_state E mid StateFailed (minutes 10))
       (publish_transcription E mid (status_of StateFailed m_tr_full) StageDispatchFailed))"

definition submit_transcription :: "env \<Rightarrow> int \<Rightarrow> unit opE" where
  "submit_transcription E mid = ask_err (a_err E) (Os (OSubmit (''transcription:'' @ itoa mid)))"

text \<open>What Status answers for a state found in Redis, and when no transcript is stored.\<close>

definition runtime_status :: "media_file \<Rightarrow> gostr \<Rightarrow> task_status" where
  "runtime_status mf v =
     (if \<not> valid_state v then status_of StateNotStarted m_tr_unknown
      else if v = StateCompleted then status_completed_nullable (mf_transcript mf)
      else if v = StateFailed then status_of StateFailed m_tr_failed
      else if v = StateQueued then status_of StateQueued m_tr_queued
      else if v = StateProcessing then status_of StateProcessing m_tr_extracting
      else status_of StateNotStarted m_tr_none)"

definition stored_status :: "env \<Rightarrow> media_file \<Rightarrow> task_status opE" where
  "stored_status E mf =
     bindE (ask (a_ostr E) (Redis (RGet (tr_state_key (mf_id mf))))) (\<lambda>v.
     case v of
       Some s \<Rightarrow> okE (runtime_status mf s)
     | None \<Rightarrow> bindE (ask (a_int E) (Redis (RExists [tr_active_key (mf_id mf)]))) (\<lambda>n.
         okE (if 0 < n then status_of StateProcessing m_tr_extracting else status_of StateNotStarted m_tr_none)))"

definition transcription_status :: "env \<Rightarrow> media_file \<Rightarrow> task_status opE" where
  "transcription_status E mf =
     (case mf_transcript mf of
        Some t \<Rightarrow> if \<not> is_blank t then okE (status_completed t) else stored_status E mf
      | None \<Rightarrow> stored_status E mf)"
text \<open>The request that starts a transcription, after its parameter is read.\<close>

definition transcribe_request :: "env \<Rightarrow> int \<Rightarrow> int \<Rightarrow> unit opE" where
  "transcribe_request E mid uid =
     bindE (require_owned_media E mid uid) (\<lambda>_.
     bindE (queue_transcription E mid) (\<lambda>queued.
     if \<not> queued then failE (Business CodeConflict m_tr_busy)
     else catchE (submit_transcription E mid)
            (\<lambda>e. thenI (reject_queued E mid) (failE (Business CodeServiceUnavailable m_tr_full)))
            (\<lambda>_. okE ())))"
section \<open>Facts\<close>

text \<open>The values written under the state key of a media, in order, and the calls that touch neither that key, the
  active key nor the transcript.\<close>

definition states_written :: "int \<Rightarrow> call list \<Rightarrow> gostr list" where
  "states_written mid xs = concat (map (\<lambda>c. case c of Redis (RSet k v t) \<Rightarrow> if k = tr_state_key mid then [v] else [] | _ \<Rightarrow> []) xs)"

definition tr_quiet :: "int \<Rightarrow> call \<Rightarrow> bool" where
  "tr_quiet mid c = (case c of
      Redis (RSet k v t) \<Rightarrow> False
    | Redis (RDel ks) \<Rightarrow> ks \<noteq> [tr_active_key mid]
    | Media m \<Rightarrow> False
    | _ \<Rightarrow> True)"

lemma states_written_simps [simp]:
  "states_written mid [] = []"
  "states_written mid (xs @ ys) = states_written mid xs @ states_written mid ys"
  "states_written mid (Redis (RSet (tr_state_key mid) v t) # xs) = v # states_written mid xs"
  "states_written mid (Media m # xs) = states_written mid xs"
  "states_written mid (Redis (RSetNX k v t) # xs) = states_written mid xs"
  "states_written mid (Redis (RDel ks) # xs) = states_written mid xs"
  "states_written mid (Os x # xs) = states_written mid xs"
  by (simp_all add: states_written_def)

lemma tr_quiet_states [simp]: "list_all (tr_quiet mid) xs \<Longrightarrow> states_written mid xs = []"
  by (induction xs) (auto simp: states_written_def tr_quiet_def split: call.splits redis_call.splits)

lemma tr_quiet_made [simp]:
  "list_all (tr_quiet mid) xs \<Longrightarrow> made_in P h (Media m) xs \<longleftrightarrow> False"
  "list_all (tr_quiet mid) xs \<Longrightarrow> Redis (RDel [tr_active_key mid]) \<in> set xs \<longleftrightarrow> False"
  by (induction xs arbitrary: h) (auto simp: tr_quiet_def)

lemma tr_quiet_local: "uses local_call m \<Longrightarrow> uses (tr_quiet mid) m"
  by (erule uses_mono) (auto simp: local_call_def tr_quiet_def split: call.splits)

text \<open>Publishing an event is one of these.\<close>

definition tr_event :: "call \<Rightarrow> bool" where
  "tr_event c = (case c of Redis (RPublish ch key ev) \<Rightarrow> True | Os (OPublishLocal key ev) \<Rightarrow> True | _ \<Rightarrow> False)"

lemma tr_event_quiet [simp]: "list_all tr_event xs \<Longrightarrow> list_all (tr_quiet mid) xs"
  by (erule list.pred_mono_strong) (auto simp: tr_event_def tr_quiet_def split: call.splits redis_call.splits)

lemma tr_event_submit [simp]: "list_all tr_event xs \<Longrightarrow> made_in P h (Os (OSubmit s)) xs \<longleftrightarrow> False"
    "list_all tr_event xs \<Longrightarrow> made_in P h (Redis (RSetNX k v t)) xs \<longleftrightarrow> False"
  by (induction xs arbitrary: h) (auto simp: tr_event_def)

lemma tr_event_publish: "uses tr_event (publish_transcription E mid st stage)"
  unfolding publish_transcription_def publish_event_def by (intro use_intros; simp add: tr_event_def)

lemma tr_quiet_parts:
  "uses (tr_quiet mid) (invalidate_user_list E uid)"
  "uses (tr_quiet mid) (bindE (readable_source E path) (transcribe_video E))"
  unfolding invalidate_user_list_def del_key_def
  by (intro use_intros tr_quiet_local; simp add: tr_quiet_def user_list_key_def tr_active_key_def)+

lemma wp_tr_set_state [wp_simps]:
  "wp (tr_set_state E mid st ttl) Q h = Q () (h @ [Redis (RSet (tr_state_key mid) st ttl)])"
  by (simp add: tr_set_state_def wp_simps split: option.splits)

lemma wp_clear_active [wp_simps]: "wp (clear_active E mid) Q h = Q () (h @ [Redis (RDel [tr_active_key mid])])"
  by (simp add: clear_active_def wp_simps)

lemma wp_publish_transcription:
  "(\<And>ys. list_all tr_event ys \<Longrightarrow> Q () (h @ ys)) \<Longrightarrow> wp (publish_transcription E mid st stage) Q h"
  by (rule wp_usesI [OF tr_event_publish]) simp

text \<open>The two ways a transcription of an existing media ends.\<close>

inductive transcribed :: "env \<Rightarrow> int \<Rightarrow> hist \<Rightarrow> call list \<Rightarrow> bool" for E mid h where
  tr_completed: "states_written mid xs = [StateProcessing] \<Longrightarrow> states_written mid ys = [StateCompleted] \<Longrightarrow>
     acked E (h @ xs) (Media (DUpdateTranscript mid text)) \<Longrightarrow>
     transcribed E mid h (xs @ Media (DUpdateTranscript mid text) # ys)"
| tr_failed: "states_written mid xs = [StateProcessing, StateFailed] \<Longrightarrow>
     (\<forall>text. \<not> made_in (acked E) h (Media (DUpdateTranscript mid text)) xs) \<Longrightarrow> transcribed E mid h xs"

lemma wp_transcription_fail:
  "(\<And>ys. states_written mid ys = [StateFailed] \<Longrightarrow> (\<forall>P h m. \<not> made_in P h (Media m) ys) \<Longrightarrow>
      Redis (RDel [tr_active_key mid]) \<notin> set ys \<Longrightarrow> Q () (p @ ys)) \<Longrightarrow> wp (transcription_fail E mid) Q p"
  unfolding transcription_fail_def wp_simps
  by (rule wp_publish_transcription) (simp add: append_eq_append_conv2)

lemma wp_transcription_body:
  "wp (transcription_body E mid mf) (\<lambda>_ q. \<exists>xs. q = h @ xs \<and> transcribed E mid h xs \<and> Redis (RDel [tr_active_key mid]) \<notin> set xs) h"
proof -
  let ?clear = "Redis (RDel [tr_active_key mid])"
  let ?Q = "\<lambda>(_::unit) q. \<exists>xs. q = h @ xs \<and> transcribed E mid h xs \<and> ?clear \<notin> set xs"
  let ?set = "Redis (RSet (tr_state_key mid) StateProcessing transcription_active_ttl)"
  have fail: "wp (transcription_fail E mid) ?Q (h @ xs)"
    if "states_written mid xs = [StateProcessing]" "\<forall>tx. \<not> made_in (acked E) h (Media (DUpdateTranscript mid tx)) xs" "?clear \<notin> set xs" for xs
    by (rule wp_transcription_fail) (use that in \<open>auto simp: made_in_append intro!: exI [of _ "xs @ _"] tr_failed\<close>)
  have complete: "wp (thenI (invalidate_user_list E (mf_user mf)) (thenI (tr_set_state E mid StateCompleted (hours 168))
      (publish_transcription E mid (status_completed tx) StageCompleted))) ?Q (h @ xs @ [Media (DUpdateTranscript mid tx)])"
    if "states_written mid xs = [StateProcessing]" "acked E (h @ xs) (Media (DUpdateTranscript mid tx))" "?clear \<notin> set xs" for xs tx
    unfolding wp_thenI
    by (rule wp_usesI [OF tr_quiet_parts(1) [where mid = mid]], unfold wp_simps, rule wp_publish_transcription)
      (use that in \<open>auto intro!: tr_completed\<close>)
  have run: "wp (bindE (readable_source E (mf_path mf)) (transcribe_video E)) Q (h @ xs)"
    if "\<And>r ys. list_all (tr_quiet mid) ys \<Longrightarrow> Q r (h @ xs @ ys)" for Q xs
    by (rule wp_usesI [OF tr_quiet_parts(2)]) (use that in simp)
  have early: "wp (transcription_fail E mid) ?Q (h @ ?set # ys @ zs)"
    if "list_all (tr_quiet mid) ys" "list_all (tr_quiet mid) zs" for ys zs
    using fail [of "?set # ys @ zs"] that by (auto simp: made_in_append)
  have late: "wp (transcription_fail E mid) ?Q (h @ ?set # ys @ zs @ [Media (DUpdateTranscript mid tx)])"
    if "list_all (tr_quiet mid) ys" "list_all (tr_quiet mid) zs" "a_err E (h @ ?set # ys @ zs) (Media (DUpdateTranscript mid tx)) \<noteq> None" for ys zs tx
    using fail [of "?set # ys @ zs @ [Media (DUpdateTranscript mid tx)]"] that by (auto simp: made_in_append)
  have fin: "wp (thenI (invalidate_user_list E (mf_user mf)) (thenI (tr_set_state E mid StateCompleted (hours 168))
      (publish_transcription E mid (status_completed tx) StageCompleted))) ?Q (h @ ?set # ys @ zs @ [Media (DUpdateTranscript mid tx)])"
    if "list_all (tr_quiet mid) ys" "list_all (tr_quiet mid) zs" "acked E (h @ ?set # ys @ zs) (Media (DUpdateTranscript mid tx))" for ys zs tx
    using complete [of "?set # ys @ zs" tx] that by simp
  show ?thesis
    unfolding transcription_body_def wp_thenI wp_tr_set_state
    by (rule wp_publish_transcription, unfold wp_catchE append_assoc, rule run)
      (simp add: wp_ask_err early late fin [simplified] split: sum.splits option.splits)
qed

lemma wp_queue_transcription:
  fixes mid :: int
  defines "reserve \<equiv> Redis (RSetNX (tr_active_key mid) ''1'' transcription_active_ttl)"
  assumes "\<And>e. a_bool E h reserve = Inl e \<Longrightarrow> Q (Inl e) (h @ [reserve])" and "a_bool E h reserve = Inr False \<Longrightarrow> Q (Inr False) (h @ [reserve])"
    and "\<And>ys. a_bool E h reserve = Inr True \<Longrightarrow> list_all tr_event ys \<Longrightarrow>
      Q (Inr True) (h @ reserve # Redis (RSet (tr_state_key mid) StateQueued transcription_active_ttl) # ys)"
  shows "wp (queue_transcription E mid) Q h"
  using assms unfolding queue_transcription_def
  by (auto simp: wp_simps split: sum.splits intro!: wp_publish_transcription)

lemma wp_reject_queued:
  "(\<And>ys. list_all tr_event ys \<Longrightarrow> Q () (h @ Redis (RDel [tr_active_key mid]) # Redis (RSet (tr_state_key mid) StateFailed (minutes 10)) # ys)) \<Longrightarrow>
   wp (reject_queued E mid) Q h"
  unfolding reject_queued_def wp_simps by (rule wp_publish_transcription) simp

section \<open>Properties\<close>

text \<open>(C28) A transcription task.  Its last call, and only that one, gives the media's active key back, so the media can
  be transcribed again.  For a media that exists the state goes from processing to completed, written only after the
  transcript was stored, or from processing to failed, and then no transcript was stored; for a media that is gone or
  cannot be read nothing else happens.\<close>

theorem transcription_run_spec:
  assumes "run_state (transcription_run E mid) h = ((), h')"
  shows "\<exists>xs. h' = h @ xs @ [Redis (RDel [tr_active_key mid])] \<and> Redis (RDel [tr_active_key mid]) \<notin> set xs \<and>
    (case a_media E h (Media (DFindMedia mid)) of
       Inr (Some mf) \<Rightarrow> \<exists>ys. xs = Media (DFindMedia mid) # ys \<and>
         ((\<exists>as t bs. ys = as @ Media (DUpdateTranscript mid t) # bs \<and> acked E (h @ Media (DFindMedia mid) # as) (Media (DUpdateTranscript mid t)) \<and>
            states_written mid as = [StateProcessing] \<and> states_written mid bs = [StateCompleted]) \<or>
          (states_written mid ys = [StateProcessing, StateFailed] \<and>
            (\<forall>t. \<not> made (acked E) h (Media (DUpdateTranscript mid t)) h')))
     | _ \<Rightarrow> xs = [Media (DFindMedia mid)])"
proof -
  have "wp (transcription_run E mid) (\<lambda>_ q. \<exists>xs. q = h @ Media (DFindMedia mid) # xs @ [Redis (RDel [tr_active_key mid])] \<and>
      Redis (RDel [tr_active_key mid]) \<notin> set xs \<and>
      (case a_media E h (Media (DFindMedia mid)) of
         Inr (Some mf) \<Rightarrow> transcribed E mid (h @ [Media (DFindMedia mid)]) xs | _ \<Rightarrow> xs = [])) h"
    by (auto simp: transcription_run_def wp_simps split: sum.splits option.splits
        intro!: wp_mono [OF wp_transcription_body])
  from wp_run [OF assms this] obtain xs where xs: "h' = h @ Media (DFindMedia mid) # xs @ [Redis (RDel [tr_active_key mid])]"
      "Redis (RDel [tr_active_key mid]) \<notin> set xs"
      "case a_media E h (Media (DFindMedia mid)) of
         Inr (Some mf) \<Rightarrow> transcribed E mid (h @ [Media (DFindMedia mid)]) xs | _ \<Rightarrow> xs = []"
    by blast
  from xs(1) have m: "made (acked E) h (Media (DUpdateTranscript mid t)) h' \<longleftrightarrow>
      made_in (acked E) (h @ [Media (DFindMedia mid)]) (Media (DUpdateTranscript mid t)) xs" for t
    by (simp add: made_append made_in_append)
  show ?thesis
  proof (cases "\<exists>mf. a_media E h (Media (DFindMedia mid)) = Inr (Some mf)")
    case True
    with xs(3) have "transcribed E mid (h @ [Media (DFindMedia mid)]) xs" by auto
    then have "(\<exists>as t bs. xs = as @ Media (DUpdateTranscript mid t) # bs \<and> acked E (h @ Media (DFindMedia mid) # as) (Media (DUpdateTranscript mid t)) \<and>
            states_written mid as = [StateProcessing] \<and> states_written mid bs = [StateCompleted]) \<or>
          (states_written mid xs = [StateProcessing, StateFailed] \<and> (\<forall>t. \<not> made (acked E) h (Media (DUpdateTranscript mid t)) h'))"
      unfolding m by cases force+
    moreover obtain mf where "a_media E h (Media (DFindMedia mid)) = Inr (Some mf)" using True by blast
    ultimately show ?thesis using xs by (intro exI [of _ "Media (DFindMedia mid) # xs"]) simp
  next
    case False
    with xs show ?thesis by (auto split: sum.splits option.splits)
  qed
qed

text \<open>(C29) Starting a transcription.  The request is accepted only with the media's active key newly reserved and the
  task taken by the pool, and it keeps the key; a request that is refused leaves no task behind, and the key it
  reserved, if any, is given back and the state says failed.\<close>

theorem transcribe_request_spec:
  assumes "run_state (transcribe_request E mid uid) h = (r, h')"
  defines "reserve \<equiv> Redis (RSetNX (tr_active_key mid) ''1'' transcription_active_ttl)"
    and "pool \<equiv> Os (OSubmit (''transcription:'' @ itoa mid))"
    and "clear \<equiv> Redis (RDel [tr_active_key mid])"
  shows "\<exists>xs. h' = h @ xs \<and>
    (case r of
       Inr _ \<Rightarrow> made (\<lambda>p c. a_bool E p c = Inr True) h reserve h' \<and> made (acked E) h pool h' \<and> clear \<notin> set xs
     | Inl e \<Rightarrow> \<not> made (acked E) h pool h' \<and>
         (made (\<lambda>p c. a_bool E p c = Inr True) h reserve h' \<longrightarrow>
            clear \<in> set xs \<and> (\<exists>as. states_written mid xs = as @ [StateFailed])))"
proof -
  let ?P = "\<lambda>p c. a_bool E p c = Inr True"
  have "wp (transcribe_request E mid uid) (\<lambda>r q. \<exists>xs. q = h @ xs \<and>
    (case r of
       Inr _ \<Rightarrow> made_in ?P h reserve xs \<and> made_in (acked E) h pool xs \<and> clear \<notin> set xs
     | Inl e \<Rightarrow> \<not> made_in (acked E) h pool xs \<and>
         (made_in ?P h reserve xs \<longrightarrow> clear \<in> set xs \<and> (\<exists>as. states_written mid xs = as @ [StateFailed])))) h"
    unfolding transcribe_request_def require_owned_media_def submit_transcription_def
    by (auto simp: wp_simps reserve_def pool_def clear_def made_in_append intro!: wp_queue_transcription wp_reject_queued split: option.splits sum.splits)
  from wp_run [OF assms(1) this] show ?thesis by (auto simp: made_append split: sum.splits)
qed
section \<open>Witnesses\<close>

definition env_tr :: env where
  "env_tr = env0\<lparr>a_media := (\<lambda>h c. Inr (Some media1))\<rparr>"

theorem transcription_run_spec_witness:
  "\<exists>ys. final (transcription_run env_tr 1) [] = Media (DFindMedia 1) # ys @ [Redis (RDel [tr_active_key 1])] \<and>
     (states_written 1 ys = [StateProcessing, StateCompleted] \<or> states_written 1 ys = [StateProcessing, StateFailed])"
proof -
  have "run_state (transcription_run env_tr 1) [] = ((), final (transcription_run env_tr 1) [])" by (simp add: final_def prod_eq_iff)
  from transcription_run_spec [OF this] show ?thesis by (force simp: env_tr_def)
qed

lemma run_request: "wp (transcribe_request env_tr (mf_id media1) (mf_user media1)) (\<lambda>r q. r = Inr ()) []"
  by (auto simp: transcribe_request_def require_owned_media_def submit_transcription_def wp_simps env_tr_def env0_def intro!: wp_queue_transcription)

theorem transcribe_request_spec_witness:
  "made (acked env_tr) [] (Os (OSubmit (''transcription:'' @ itoa (mf_id media1)))) (final (transcribe_request env_tr (mf_id media1) (mf_user media1)) [])"
proof -
  have "run_state (transcribe_request env_tr (mf_id media1) (mf_user media1)) [] = (Inr (), final (transcribe_request env_tr (mf_id media1) (mf_user media1)) [])"
    using run_request by (simp add: wp_def result_def final_def prod_eq_iff)
  from transcribe_request_spec [OF this] show ?thesis by auto
qed

end
