(* ===== verification/RateLimit.thy ===== *)
theory RateLimit
  imports Effects
begin

text \<open>
  The token bucket: internal/ratelimit/limiter.go.  The Lua script computes with doubles and stores
  the token count as text; \<open>fl\<close> is the rounding of one arithmetic operation and \<open>ser\<close> what storing and
  reading back does to a number.  Times and capacities are integers far below \<open>2^53\<close>, on which both
  are exact.
\<close>

record bucket =
  bk_capacity :: int
  bk_refill :: int
  bk_period :: int

definition per_minute :: "int \<Rightarrow> bucket" where
  "per_minute n = \<lparr>bk_capacity = n, bk_refill = n, bk_period = minutes 1\<rparr>"

definition AnalysisUser :: bucket where "AnalysisUser = per_minute 5"
definition AnalysisGlobal :: bucket where "AnalysisGlobal = per_minute 30"
definition RouteUser :: bucket where "RouteUser = per_minute 10"
definition RouteGlobal :: bucket where "RouteGlobal = per_minute 60"

definition user_key :: "gostr \<Rightarrow> int \<Rightarrow> gostr" where
  "user_key scope uid = ''ratelimit:'' @ scope @ '':user:'' @ itoa uid"

definition global_key :: "gostr \<Rightarrow> gostr" where
  "global_key scope = ''ratelimit:'' @ scope @ '':global''"

type_synonym bucket_state = "(rat \<times> int) option"

text \<open>The script: the answer (1 = allowed), the state written by HSET and the PEXPIRE argument.\<close>

definition take_script :: "(rat \<Rightarrow> rat) \<Rightarrow> (rat \<Rightarrow> rat) \<Rightarrow> bucket \<Rightarrow> int \<Rightarrow> bucket_state \<Rightarrow> int \<times> (rat \<times> int) \<times> int" where
  "take_script fl ser b now st =
     (let capacity = of_int (bk_capacity b);
          rate = fl (of_int (bk_refill b) / of_int (bk_period b));
          (tokens, ts) = (case st of None \<Rightarrow> (capacity, now) | Some p \<Rightarrow> p);
          (tokens, ts) = (if now > ts then (min capacity (fl (tokens + fl (of_int (now - ts) * rate))), now)
                          else (tokens, ts));
          (tokens, allowed) = (if tokens \<ge> 1 then (fl (tokens - 1), 1) else (tokens, 0));
          ttl = \<lceil>fl (fl (capacity - tokens) / rate)\<rceil>
      in (allowed, (ser tokens, ts), if ttl < 1 then 1 else ttl))"

text \<open>A sequence of decisions on one bucket, with the request times.\<close>

fun take_run :: "(rat \<Rightarrow> rat) \<Rightarrow> (rat \<Rightarrow> rat) \<Rightarrow> bucket \<Rightarrow> (rat \<times> int) \<Rightarrow> int list \<Rightarrow> int \<times> (rat \<times> int)" where
  "take_run fl ser b st [] = (0, st)"
| "take_run fl ser b st (now # ts) =
     (case take_script fl ser b now (Some st) of
        (a, st', ttl) \<Rightarrow> case take_run fl ser b st' ts of (n, st'') \<Rightarrow> (a + n, st''))"

definition take_token :: "env \<Rightarrow> gostr \<Rightarrow> bucket \<Rightarrow> bool opE" where
  "take_token E key b =
     bnd (now_ms E) (\<lambda>now.
     bindE (ask (a_int E) (Redis (REval TakeScript key
        [itoa (bk_capacity b), itoa (bk_refill b), itoa (bk_period b), itoa now]))) (\<lambda>r.
     okE (r = 1)))"

definition take_user_then_global :: "env \<Rightarrow> gostr \<Rightarrow> int \<Rightarrow> bucket \<Rightarrow> bucket \<Rightarrow> bool opE" where
  "take_user_then_global E scope uid user global =
     bindE (take_token E (user_key scope uid) user) (\<lambda>ok.
     if \<not> ok then okE False else take_token E (global_key scope) global)"

section \<open>Facts\<close>

definition wf_bucket :: "bucket \<Rightarrow> bool" where
  "wf_bucket b = (1 \<le> bk_capacity b \<and> 0 < bk_refill b \<and> 0 < bk_period b)"

definition tokens_ok :: "bucket \<Rightarrow> rat \<Rightarrow> bool" where
  "tokens_ok b t = (0 \<le> t \<and> t \<le> of_int (bk_capacity b))"

text \<open>A rounding: monotone, and exact on the integers up to the capacity.\<close>

definition rounding :: "bucket \<Rightarrow> (rat \<Rightarrow> rat) \<Rightarrow> bool" where
  "rounding b f = (mono f \<and> (\<forall>n. 0 \<le> n \<and> n \<le> bk_capacity b \<longrightarrow> f (of_int n) = of_int n))"

lemma rounding_zero: "wf_bucket b \<Longrightarrow> rounding b f \<Longrightarrow> f 0 = 0"
  unfolding rounding_def wf_bucket_def by (metis int_one_le_iff_zero_less of_int_0 order.refl order.strict_implies_order)

lemma rounding_nonneg: "wf_bucket b \<Longrightarrow> rounding b f \<Longrightarrow> 0 \<le> x \<Longrightarrow> 0 \<le> f x"
  using rounding_zero unfolding rounding_def by (metis monoD)

lemma rounding_le_cap:
  "wf_bucket b \<Longrightarrow> rounding b f \<Longrightarrow> x \<le> of_int (bk_capacity b) \<Longrightarrow> f x \<le> of_int (bk_capacity b)"
  unfolding rounding_def wf_bucket_def
  by (metis dual_order.trans monoD order.refl zero_less_one_class.zero_le_one)

lemma rounding_keeps: "wf_bucket b \<Longrightarrow> rounding b f \<Longrightarrow> tokens_ok b x \<Longrightarrow> tokens_ok b (f x)"
  by (simp add: tokens_ok_def rounding_nonneg rounding_le_cap)

lemma refill_ok:
  assumes "wf_bucket b" "rounding b fl" "tokens_ok b t" "0 < d"
  shows "tokens_ok b (min (of_int (bk_capacity b)) (fl (t + fl (of_int d * fl (of_int (bk_refill b) / of_int (bk_period b))))))"
proof -
  have "0 \<le> fl (of_int (bk_refill b) / of_int (bk_period b))"
    using assms(1) by (intro rounding_nonneg [OF assms(1,2)]) (simp add: wf_bucket_def)
  then have "0 \<le> fl (of_int d * fl (of_int (bk_refill b) / of_int (bk_period b)))"
    using assms(4) by (intro rounding_nonneg [OF assms(1,2)]) simp
  then have "0 \<le> fl (t + fl (of_int d * fl (of_int (bk_refill b) / of_int (bk_period b))))"
    using assms(3) by (intro rounding_nonneg [OF assms(1,2)]) (simp add: tokens_ok_def)
  with assms(1) show ?thesis by (auto simp: tokens_ok_def wf_bucket_def min_def)
qed

text \<open>One decision consumes at most what the bucket held plus the refill, up to rounding.\<close>

lemma take_script_conserves:
  assumes f: "\<forall>x. fl x \<le> x + \<epsilon>" "\<forall>x. ser x \<le> x + \<epsilon>" and e: "0 \<le> \<epsilon>"
    and r: "take_script fl ser b now (Some (t, s)) = (a, (t', s'), ttl)"
    and "0 \<le> fl (of_int (bk_refill b) / of_int (bk_period b))"
  shows "of_int a + t' \<le> t + of_int (s' - s) * fl (of_int (bk_refill b) / of_int (bk_period b)) + 4 * \<epsilon> \<and> s \<le> s'"
proof -
  let ?rate = "fl (of_int (bk_refill b) / of_int (bk_period b))"
  define t1 where "t1 = (if now > s then min (of_int (bk_capacity b)) (fl (t + fl (of_int (now - s) * ?rate))) else t)"
  define s1 where "s1 = (if now > s then now else s)"
  have s': "s' = s1" and ta: "t' = ser (if t1 \<ge> 1 then fl (t1 - 1) else t1)" "a = (if t1 \<ge> 1 then 1 else 0)"
    using r by (auto simp: take_script_def Let_def t1_def s1_def split: if_splits)
  have "fl (t + fl (of_int (now - s) * ?rate)) \<le> t + of_int (now - s) * ?rate + 2 * \<epsilon>"
    using f(1)[rule_format, of "t + fl (of_int (now - s) * ?rate)"] f(1)[rule_format, of "of_int (now - s) * ?rate"] by simp
  then have t1: "t1 \<le> t + of_int (s1 - s) * ?rate + 2 * \<epsilon>"
    using e by (auto simp: t1_def s1_def min_def)
  have "of_int a + t' \<le> t1 + 2 * \<epsilon>"
    using ta e f(1)[rule_format, of "t1 - 1"] f(2)[rule_format, of "fl (t1 - 1)"] f(2)[rule_format, of t1]
    by (auto split: if_splits)
  with t1 s' show ?thesis by (auto simp: s1_def)
qed

lemma extends_take [ext_intros]: "extends (take_token E key b)"
  unfolding take_token_def by (intro ext_intros)

lemma extends_take_user_then_global [ext_intros]: "extends (take_user_then_global E scope uid u g)"
  unfolding take_user_then_global_def by (intro ext_intros)

section \<open>Properties\<close>







text \<open>The user's bucket protects the shared one: a request is admitted exactly when the script
  answered 1 for the user's bucket and then for the global one; when the user's bucket refuses, or
  cannot be read, the global bucket is not touched.\<close>

theorem take_user_then_global_spec:
  assumes "run_state (take_user_then_global E scope uid u g) h = (r, h')"
  defines "cu \<equiv> Redis (REval TakeScript (user_key scope uid) [itoa (bk_capacity u), itoa (bk_refill u), itoa (bk_period u),
      itoa (a_num E h (Os ONow))])"
  defines "h1 \<equiv> h @ [Os ONow]"
  defines "h2 \<equiv> h1 @ [cu]"
  defines "cg \<equiv> Redis (REval TakeScript (global_key scope) [itoa (bk_capacity g), itoa (bk_refill g), itoa (bk_period g),
      itoa (a_num E h2 (Os ONow))])"
  shows "(r = Inr True \<longleftrightarrow> a_int E h1 cu = Inr 1 \<and> a_int E (h2 @ [Os ONow]) cg = Inr 1) \<and>
         (a_int E h1 cu \<noteq> Inr 1 \<longrightarrow> h' = h2)"
  using assms(1) unfolding cu_def h1_def h2_def cg_def
  by (auto simp: take_user_then_global_def take_token_def now_ms_def bindE_def okE_def split: sum.splits if_splits)

theorem take_user_then_global_spec_witness:
  "\<exists>h'. run_state (take_user_then_global env0 ''analysis'' 7 AnalysisUser AnalysisGlobal) [] = (Inr True, h')"
proof -
  obtain r h' where r: "run_state (take_user_then_global env0 ''analysis'' 7 AnalysisUser AnalysisGlobal) [] = (r, h')"
    by fastforce
  from take_user_then_global_spec [OF r] have "r = Inr True" by (simp add: env0_def)
  with r show ?thesis by blast
qed

end
