(* ===== verification/Billing.thy ===== *)
theory Billing
  imports Effects
begin

text \<open>
  The daily spend cap: internal/billing/billing.go.  Amounts are rationals (the Go code compares
  float64 values it does not compute with); the text of a date is the parameter \<open>day_text\<close>, the
  standard library's formatting of a day of the fixed UTC+8 zone.
\<close>

record ledger =
  lg_limit :: rat
  lg_unlimited :: "int list"

definition billing_day :: "int \<Rightarrow> int" where
  "billing_day now = (now + hours 8) div hours 24"

definition spend_key :: "(int \<Rightarrow> gostr) \<Rightarrow> int \<Rightarrow> int \<Rightarrow> gostr" where
  "spend_key day_text uid now = ''billing:spend:'' @ itoa uid @ '':'' @ day_text (billing_day now)"

text \<open>A nil ledger is \<open>None\<close>.\<close>

definition limited :: "ledger option \<Rightarrow> int \<Rightarrow> bool" where
  "limited l uid = (case l of None \<Rightarrow> False | Some lg \<Rightarrow> 0 < lg_limit lg \<and> uid \<notin> set (lg_unlimited lg))"

definition spent :: "env \<Rightarrow> (int \<Rightarrow> gostr) \<Rightarrow> int \<Rightarrow> rat opE" where
  "spent E day_text uid =
     bnd (now_ms E) (\<lambda>now.
     bindE (ask (a_rat E) (Redis (RGet (spend_key day_text uid now)))) (\<lambda>v.
     okE (case v of None \<Rightarrow> 0 | Some x \<Rightarrow> x)))"

definition billing_check :: "env \<Rightarrow> (int \<Rightarrow> gostr) \<Rightarrow> ledger option \<Rightarrow> int \<Rightarrow> unit opE" where
  "billing_check E day_text l uid =
     (if \<not> limited l uid then okE ()
      else catchE (spent E day_text uid)
        (\<lambda>e. okE ())
        (\<lambda>v. if (case l of None \<Rightarrow> False | Some lg \<Rightarrow> lg_limit lg \<le> v)
             then failE (Business CodeQuotaExhausted m_quota_exhausted) else okE ()))"

section \<open>Facts\<close>

lemma extends_billing_check [ext_intros]: "extends (billing_check E day_text l uid)"
  unfolding billing_check_def spent_def by (intro ext_intros)

lemma wp_billing_check [wp_simps]:
  "wp (billing_check E day_text l uid) Q h =
    (if \<not> limited l uid then Q (Inr ()) h
     else let c = Redis (RGet (spend_key day_text uid (a_num E h (Os ONow)))); h1 = h @ [Os ONow] in
       case a_rat E h1 c of Inl e \<Rightarrow> Q (Inr ()) (h1 @ [c])
       | Inr v \<Rightarrow> if (case l of None \<Rightarrow> False | Some lg \<Rightarrow> lg_limit lg \<le> (case v of None \<Rightarrow> 0 | Some x \<Rightarrow> x))
          then Q (Inl (Business CodeQuotaExhausted m_quota_exhausted)) (h1 @ [c]) else Q (Inr ()) (h1 @ [c]))"
  by (auto simp: billing_check_def spent_def wp_simps Let_def split: sum.splits)

section \<open>Properties\<close>

text \<open>The daily cap rejects exactly the requests of a limited user whose readable counter for the
  current UTC+8 day has reached the limit: an unlimited user (or a disabled ledger) is let through
  without asking Redis, a missing counter counts as 0, and an unreadable ledger lets the request
  pass.\<close>

theorem billing_check_spec:
  assumes "run_state (billing_check E day_text l uid) h = (r, h')"
  shows "(r \<noteq> Inr () \<longleftrightarrow> (\<exists>lg v. l = Some lg \<and> 0 < lg_limit lg \<and> uid \<notin> set (lg_unlimited lg) \<and>
      a_rat E (h @ [Os ONow]) (Redis (RGet (spend_key day_text uid (a_num E h (Os ONow))))) = Inr v \<and>
      lg_limit lg \<le> (case v of None \<Rightarrow> 0 | Some x \<Rightarrow> x))) \<and>
    (\<not> limited l uid \<longrightarrow> h' = h) \<and>
    (r = Inr () \<or> r = Inl (Business CodeQuotaExhausted m_quota_exhausted))"
proof -
  have "wp (billing_check E day_text l uid) (\<lambda>r h'. (r \<noteq> Inr () \<longleftrightarrow> (\<exists>lg v. l = Some lg \<and> 0 < lg_limit lg \<and>
      uid \<notin> set (lg_unlimited lg) \<and>
      a_rat E (h @ [Os ONow]) (Redis (RGet (spend_key day_text uid (a_num E h (Os ONow))))) = Inr v \<and>
      lg_limit lg \<le> (case v of None \<Rightarrow> 0 | Some x \<Rightarrow> x))) \<and>
    (\<not> limited l uid \<longrightarrow> h' = h) \<and>
    (r = Inr () \<or> r = Inl (Business CodeQuotaExhausted m_quota_exhausted))) h"
    by (auto simp: wp_simps Let_def limited_def split: sum.splits option.splits if_splits)
  from wp_run [OF assms this] show ?thesis .
qed

theorem billing_check_spec_witness:
  "\<exists>h'. run_state (billing_check env0 (\<lambda>d. itoa d) (Some \<lparr>lg_limit = 2, lg_unlimited = []\<rparr>) 7) [] = (Inr (), h')"
proof -
  obtain r h' where r: "run_state (billing_check env0 (\<lambda>d. itoa d) (Some \<lparr>lg_limit = 2, lg_unlimited = []\<rparr>) 7) [] = (r, h')"
    by fastforce
  from billing_check_spec [OF r] have "r = Inr ()" by (auto simp: env0_def)
  with r show ?thesis by blast
qed

end
