(* ===== verification/Dispatch.thy ===== *)
theory Dispatch
  imports Consumer RateLimit Billing
begin

text \<open>
  Submitting and watching analyses: internal/analysis/dispatch.go (idempotency, quota, enqueueing) and
  status.go (the user-facing state).  The spend cap's ledger and the formatting of its day are the
  dispatcher's configuration; the time stamp of a normalised feedback is the answer to \<open>ONow\<close> as text.
\<close>

section \<open>Submission\<close>

datatype submission_result = Accepted | RateLimited | Duplicate | Failed

record dispatcher =
  ds_day :: "int \<Rightarrow> gostr"
  ds_billing :: "ledger option"

definition dispatch_hash :: "env \<Rightarrow> int \<Rightarrow> gostr opE" where
  "dispatch_hash E mid = bindE (content_hash E mid) (\<lambda>h. okE (normalize_content_hash mid h))"

definition try_acquire_quota :: "env \<Rightarrow> int \<Rightarrow> bool opE" where
  "try_acquire_quota E uid = take_user_then_global E ''analysis'' uid AnalysisUser AnalysisGlobal"

definition submit_hash :: "env \<Rightarrow> int \<Rightarrow> agent_feedback option \<Rightarrow> gostr opE" where
  "submit_hash E mid revision = (case revision of
      Some f \<Rightarrow> okE (''media-'' @ itoa mid)
    | None \<Rightarrow> dispatch_hash E mid)"

definition submit_action :: "agent_feedback option \<Rightarrow> gostr" where
  "submit_action revision = (case revision of Some f \<Rightarrow> ActionRevise | None \<Rightarrow> ActionStart)"

text \<open>The function fail of Submit: give the key back, cancel the staged revision.\<close>

definition submit_fail :: "env \<Rightarrow> int \<Rightarrow> gostr \<Rightarrow> analysis_mode \<Rightarrow> agent_feedback option \<Rightarrow> gostr \<Rightarrow> (submission_result \<times> goerr option) op" where
  "submit_fail E mid goal mode revision key =
     thenI (del_key E key)
     (thenI (case revision of None \<Rightarrow> okE () | Some f \<Rightarrow> ask_err (a_err E) (Agent (ACancelRevision mid goal mode)))
       (ret (Failed, None)))"

definition stage_revision :: "env \<Rightarrow> agent_feedback option \<Rightarrow> analysis_mode \<Rightarrow> unit opE" where
  "stage_revision E revision mode = (case revision of
      None \<Rightarrow> okE ()
    | Some f \<Rightarrow> bnd (ask (a_text E) (Os ONow)) (\<lambda>now. ask_err (a_err E) (Agent (AStageRevision (normalized now f mode) mode))))"

text \<open>Submit from the reserved key on.\<close>

definition submit_reserved :: "env \<Rightarrow> media_file \<Rightarrow> gostr \<Rightarrow> agent_feedback option \<Rightarrow> analysis_mode \<Rightarrow> gostr \<Rightarrow> gostr \<Rightarrow>
    (submission_result \<times> goerr option) op" where
  "submit_reserved E mf goal revision mode hash key =
     (let mid = mf_id mf; fail = submit_fail E mid goal mode revision key in
      catchE (try_acquire_quota E (mf_user mf)) (\<lambda>e. fail) (\<lambda>ok.
      if \<not> ok then thenI (del_key E key) (ret (RateLimited, None))
      else catchE (stage_revision E revision mode) (\<lambda>e. fail) (\<lambda>_.
      catchE (publish_task E (new_task_msg mid (submit_action revision) hash goal mode)) (\<lambda>e. fail) (\<lambda>_.
      thenI (publish_analysis E mid goal mode (status_of StateQueued m_queued_async) StageQueued)
        (ret (Accepted, None))))))"

definition submit_analysis :: "env \<Rightarrow> dispatcher \<Rightarrow> media_file \<Rightarrow> gostr \<Rightarrow> agent_feedback option \<Rightarrow> analysis_mode \<Rightarrow>
    (submission_result \<times> goerr option) op" where
  "submit_analysis E D mf goal revision mode0 =
     (let mode = resolve_mode mode0; mid = mf_id mf; early = (\<lambda>e. ret (Failed, Some e)) in
      catchE (billing_check E (ds_day D) (ds_billing D) (mf_user mf)) early (\<lambda>_.
      catchE (submit_hash E mid revision) early (\<lambda>hash.
      case goal_digest E goal mode of
        Inl e \<Rightarrow> early e
      | Inr digest \<Rightarrow>
          (let key = active_key hash digest in
           catchE (ask (a_bool E) (Redis (RSetNX key (itoa mid) active_ttl))) early (\<lambda>ok.
           if \<not> ok then ret (Duplicate, None) else submit_reserved E mf goal revision mode hash key)))))"

definition submit_label :: "submission_result \<Rightarrow> goerr option \<Rightarrow> gostr" where
  "submit_label res err =
     (if err \<noteq> None \<or> res = Failed then ''error''
      else if res = Duplicate then ''duplicate'' else if res = RateLimited then ''rate_limited'' else ''accepted'')"

definition is_active :: "env \<Rightarrow> int \<Rightarrow> gostr \<Rightarrow> analysis_mode \<Rightarrow> bool opE" where
  "is_active E mid goal mode = (case goal_digest E goal mode of
      Inl e \<Rightarrow> failE e
    | Inr digest \<Rightarrow> bindE (dispatch_hash E mid) (\<lambda>hash.
        bindE (ask (a_int E) (Redis (RExists [active_key hash digest, active_key (''media-'' @ itoa mid) digest]))) (\<lambda>n.
        okE (n > 0))))"

definition require_ai_quota :: "env \<Rightarrow> dispatcher \<Rightarrow> int \<Rightarrow> unit opE" where
  "require_ai_quota E D uid =
     bindE (billing_check E (ds_day D) (ds_billing D) uid) (\<lambda>_.
     catchE (try_acquire_quota E uid)
       (\<lambda>e. failE (Business CodeServiceUnavailable m_limiter_down))
       (\<lambda>ok. if ok then okE () else failE (Business CodeRateLimited m_too_frequent)))"

section \<open>Status\<close>

definition load_result :: "env \<Rightarrow> int \<Rightarrow> gostr \<Rightarrow> analysis_mode \<Rightarrow> result_response option opE" where
  "load_result E mid goal mode =
     bindE (has_result E mid goal mode) (\<lambda>has.
     if \<not> has then okE None
     else bindE (ask (a_result E) (Agent (AResult mid goal mode))) (\<lambda>res.
       if rr_found res then okE (Some res) else okE None))"

definition status_message :: "task_stage \<Rightarrow> gostr" where
  "status_message stage =
     (if stage = [] \<or> stage = StageQueued then m_st_queued
      else if stage = StageVideoContext \<or> stage = StageContextCompleted then m_st_context
      else if stage = StageChunksCompleted then m_st_retrieval
      else if stage = StagePlanCompleted then m_st_planned
      else if stage = StageExecutorStarted \<or> stage = StageExecutorCompleted then m_st_executor
      else if stage = StageCriticStarted then m_st_critic
      else if stage = StageCriticRetryRequired \<or> stage = StageEvidenceRefreshed then m_st_refresh
      else if stage = StageRetrying then m_st_retrying
      else m_st_analysing)"

text \<open>Current after the result and the stage are known.\<close>

definition status_from :: "task_stage \<Rightarrow> bool \<Rightarrow> task_status" where
  "status_from stage active =
     (if active then status_of (if stage = [] then StateQueued else StateProcessing) (status_message stage)
      else if stage = StageBudgetExhausted then status_of StateFailed m_budget_retry
      else if stage = StageFailed \<or> stage = StageDeadLettered then status_of StateFailed m_analysis_failed
      else status_of StateNotStarted m_not_submitted)"

definition current_status :: "env \<Rightarrow> int \<Rightarrow> gostr \<Rightarrow> analysis_mode \<Rightarrow> task_status opE" where
  "current_status E mid goal mode =
     bindE (load_result E mid goal mode) (\<lambda>res.
     case Option.bind res rr_status of
       Some st \<Rightarrow> okE st
     | None \<Rightarrow>
         bindE (load_stage E mid goal mode) (\<lambda>stage.
         bindE (is_active E mid goal mode) (\<lambda>active.
         okE (status_from stage active))))"

section \<open>Facts\<close>

lemma extends_dispatch [ext_intros]:
  "extends (dispatch_hash E mid)" "extends (try_acquire_quota E uid)" "extends (stage_revision E revision mode)"
  "extends (submit_fail E mid goal mode revision key)"
  unfolding dispatch_hash_def try_acquire_quota_def stage_revision_def submit_fail_def by (intro ext_intros)+

text \<open>The calls around the reservation: none of them produces, reserves or releases.\<close>

definition side_call :: "call \<Rightarrow> bool" where
  "side_call c = (case c of Kafka k \<Rightarrow> False | Redis (RSetNX k v t) \<Rightarrow> False | Redis (RDel ks) \<Rightarrow> False | _ \<Rightarrow> True)"

abbreviation sides :: "call list \<Rightarrow> bool" where
  "sides \<equiv> list_all side_call"

lemma side_call_simps [simp]:
  "\<not> side_call (Kafka k)" "\<not> side_call (Redis (RSetNX key v t))" "\<not> side_call (Redis (RDel ks))"
  by (simp_all add: side_call_def)

lemma sides_mem [simp]: "sides xs \<Longrightarrow> \<not> side_call c \<Longrightarrow> c \<notin> set xs"
  by (auto simp: list_all_iff)

lemma sides_made [simp]: "sides xs \<Longrightarrow> \<not> side_call c \<Longrightarrow> \<not> made_in P h c xs"
  by (meson made_in_mem sides_mem)

lemma side_submit [use_intros]:
  "uses side_call (billing_check E day l uid)" "uses side_call (submit_hash E mid revision)" "uses side_call (try_acquire_quota E uid)"
  "uses side_call (stage_revision E revision mode)" "uses side_call (publish_analysis E mid goal mode st sg)"
  unfolding billing_check_def spent_def submit_hash_def dispatch_hash_def content_hash_def remember_content_hash_def try_acquire_quota_def
    take_user_then_global_def take_token_def stage_revision_def publish_analysis_def publish_event_def now_ms_def Let_def
  by (intro use_intros; simp add: side_call_def)+

text \<open>What Submit does once the key is reserved.\<close>

definition reserved_post :: "env \<Rightarrow> gostr \<Rightarrow> kafka_record \<Rightarrow> hist \<Rightarrow> submission_result \<Rightarrow> call list \<Rightarrow> bool" where
  "reserved_post E key rec p res xs = (case res of
      Accepted \<Rightarrow> \<exists>ys zs. xs = ys @ Kafka (KProduce rec) # zs \<and> sides ys \<and> sides zs \<and> acked E (p @ ys) (Kafka (KProduce rec))
    | RateLimited \<Rightarrow> \<exists>ys. xs = ys @ [Redis (RDel [key])] \<and> sides ys
    | Failed \<Rightarrow> \<exists>ys rs zs. xs = ys @ rs @ Redis (RDel [key]) # zs \<and> sides ys \<and> sides zs \<and>
        (rs = [] \<or> (rs = [Kafka (KProduce rec)] \<and> \<not> acked E (p @ ys) (Kafka (KProduce rec))))
    | Duplicate \<Rightarrow> False)"

lemma wp_submit_reserved:
  assumes "rec = task_record E (new_task_msg (mf_id mf) (submit_action revision) hash goal mode)"
  shows "wp (submit_reserved E mf goal revision mode hash key) (\<lambda>(res, err) q. \<exists>xs. q = p @ xs \<and> reserved_post E key rec p res xs) p"
proof -
  let ?Q = "\<lambda>(res, err) q. \<exists>xs. q = p @ xs \<and> reserved_post E key rec p res xs"
  have fail: "wp (submit_fail E (mf_id mf) goal mode revision key) ?Q (p @ ys @ rs)"
    if "sides ys" "rs = [] \<or> (rs = [Kafka (KProduce rec)] \<and> \<not> acked E (p @ ys) (Kafka (KProduce rec)))" for ys rs
  proof -
    have "wp (thenI (case revision of None \<Rightarrow> okE () | Some f \<Rightarrow> ask_err (a_err E) (Agent (ACancelRevision (mf_id mf) goal mode)))
        (ret (Failed, None))) (\<lambda>r q. \<exists>zs. q = (p @ ys @ rs @ [Redis (RDel [key])]) @ zs \<and> sides zs \<and> r = (Failed, None)) (p @ ys @ rs @ [Redis (RDel [key])])"
      by (auto simp: wp_simps side_call_def split: option.splits)
    then show ?thesis
      unfolding submit_fail_def wp_thenI [of "del_key E key"] wp_del_key append_assoc
    proof (rule wp_mono, elim exE conjE)
      fix r q zs
      assume "q = p @ ys @ rs @ [Redis (RDel [key])] @ zs" "sides zs" "r = (Failed, None :: goerr option)"
      moreover from this that have "reserved_post E key rec p Failed (ys @ rs @ Redis (RDel [key]) # zs)"
        by (auto simp: reserved_post_def)
      ultimately show "?Q r q" by simp
    qed
  qed
  have publish: "wp (catchE (publish_task E (new_task_msg (mf_id mf) (submit_action revision) hash goal mode)) (\<lambda>e. submit_fail E (mf_id mf) goal mode revision key)
      (\<lambda>_. thenI (publish_analysis E (mf_id mf) goal mode st sg) (ret (Accepted, None)))) ?Q (p @ ys)" if "sides ys" for ys st sg
  proof -
    have "wp (thenI (publish_analysis E (mf_id mf) goal mode st sg) (ret (Accepted, None :: goerr option))) ?Q (p @ ys @ [Kafka (KProduce rec)])"
      if "acked E (p @ ys) (Kafka (KProduce rec))"
      unfolding wp_thenI wp_ret
      by (rule wp_usesI [OF side_submit(5)]) (use that \<open>sides ys\<close> in \<open>auto simp: reserved_post_def\<close>)
    then show ?thesis
      using fail [OF that, of "[Kafka (KProduce rec)]"]
      by (auto simp: wp_catchE wp_publish_task wp_produce assms split: option.splits)
  qed
  have stage: "wp (catchE (stage_revision E revision mode) (\<lambda>e. submit_fail E (mf_id mf) goal mode revision key)
      (\<lambda>_. catchE (publish_task E (new_task_msg (mf_id mf) (submit_action revision) hash goal mode)) (\<lambda>e. submit_fail E (mf_id mf) goal mode revision key)
        (\<lambda>_. thenI (publish_analysis E (mf_id mf) goal mode st sg) (ret (Accepted, None))))) ?Q (p @ ys)" if "sides ys" for ys st sg
    unfolding wp_catchE [of "stage_revision E revision mode"]
    by (rule wp_usesI [OF side_submit(4)]) (use that fail [of _ "[]"] publish in \<open>auto split: sum.splits\<close>)
  show ?thesis
    unfolding submit_reserved_def Let_def wp_catchE [of "try_acquire_quota E (mf_user mf)"]
    by (rule wp_usesI [OF side_submit(3)])
       (use fail [of _ "[]"] stage in \<open>auto simp: wp_if wp_thenI [of "del_key E key"] wp_del_key wp_ret reserved_post_def [of _ _ _ _ RateLimited] split: sum.splits\<close>)
qed

lemma submit_hash_fixed:
  "wp (submit_hash E mid revision) (\<lambda>r q. \<forall>hash. r = Inr hash \<longrightarrow> normalize_content_hash mid hash = hash) h"
proof (cases revision)
  case None
  then show ?thesis
    unfolding submit_hash_def dispatch_hash_def by (auto simp: wp_bindE wp_okE normalize_idem split: sum.splits intro!: wp_any)
next
  case (Some f)
  then show ?thesis using normalize_media by (simp add: submit_hash_def wp_okE)
qed

text \<open>The whole of Submit: what was done before the reservation, the reservation, what followed it.\<close>

definition submit_post :: "env \<Rightarrow> media_file \<Rightarrow> gostr \<Rightarrow> agent_feedback option \<Rightarrow> analysis_mode \<Rightarrow> hist \<Rightarrow> submission_result \<Rightarrow> call list \<Rightarrow> bool" where
  "submit_post E mf goal revision mode h res xs \<longleftrightarrow>
     (res = Failed \<and> sides xs) \<or>
     (\<exists>ys hash digest zs. let key = active_key hash digest; reserve = Redis (RSetNX key (itoa (mf_id mf)) active_ttl) in
        xs = ys @ reserve # zs \<and> sides ys \<and> goal_digest E goal mode = Inr digest \<and> normalize_content_hash (mf_id mf) hash = hash \<and>
        (case a_bool E (h @ ys) reserve of
           Inl e \<Rightarrow> res = Failed \<and> zs = []
         | Inr ok \<Rightarrow> if ok then reserved_post E key (task_record E (new_task_msg (mf_id mf) (submit_action revision) hash goal mode)) (h @ ys @ [reserve]) res zs
                     else res = Duplicate \<and> zs = []))"

lemma wp_submit:
  "wp (submit_analysis E D mf goal revision mode) (\<lambda>(res, err) q. \<exists>xs. q = h @ xs \<and> submit_post E mf goal revision (resolve_mode mode) h res xs) h"
proof -
  let ?mode = "resolve_mode mode" and ?Q = "\<lambda>(res, err) q. \<exists>xs. q = h @ xs \<and> submit_post E mf goal revision (resolve_mode mode) h res xs"
  have early: "?Q (Failed, Some e) (h @ ys)" if "sides ys" for e :: goerr and ys
    using that by (simp add: submit_post_def)
  have reserve: "wp (catchE (ask (a_bool E) (Redis (RSetNX (active_key hash digest) (itoa (mf_id mf)) active_ttl))) (\<lambda>e. ret (Failed, Some e))
      (\<lambda>ok. if \<not> ok then ret (Duplicate, None) else submit_reserved E mf goal revision ?mode hash (active_key hash digest))) ?Q (h @ ys)"
    if "sides ys" "goal_digest E goal ?mode = Inr digest" "normalize_content_hash (mf_id mf) hash = hash" for hash digest ys
  proof -
    let ?c = "Redis (RSetNX (active_key hash digest) (itoa (mf_id mf)) active_ttl)"
    have post: "submit_post E mf goal revision ?mode h res (ys @ ?c # zs)"
      if "case a_bool E (h @ ys) ?c of Inl e \<Rightarrow> res = Failed \<and> zs = []
         | Inr ok \<Rightarrow> if ok then reserved_post E (active_key hash digest) (task_record E (new_task_msg (mf_id mf) (submit_action revision) hash goal ?mode)) (h @ ys @ [?c]) res zs
                     else res = Duplicate \<and> zs = []" for res zs
      unfolding submit_post_def Let_def using that \<open>sides ys\<close> \<open>goal_digest E goal ?mode = Inr digest\<close> \<open>normalize_content_hash (mf_id mf) hash = hash\<close>
      by blast
    have "wp (submit_reserved E mf goal revision ?mode hash (active_key hash digest)) ?Q ((h @ ys) @ [?c])" if "a_bool E (h @ ys) ?c = Inr True"
      by (rule wp_mono [OF wp_submit_reserved [OF refl]]) (use that post in auto)
    then show ?thesis
      using post [of Failed "[]"] post [of Duplicate "[]"] by (cases "a_bool E (h @ ys) ?c") (auto simp: wp_simps)
  qed
  have hash: "wp (catchE (submit_hash E (mf_id mf) revision) (\<lambda>e. ret (Failed, Some e)) (\<lambda>hash. case goal_digest E goal ?mode of
        Inl e \<Rightarrow> ret (Failed, Some e)
      | Inr digest \<Rightarrow> catchE (ask (a_bool E) (Redis (RSetNX (active_key hash digest) (itoa (mf_id mf)) active_ttl))) (\<lambda>e. ret (Failed, Some e))
          (\<lambda>ok. if \<not> ok then ret (Duplicate, None) else submit_reserved E mf goal revision ?mode hash (active_key hash digest)))) ?Q (h @ ys)"
    if "sides ys" for ys
    unfolding wp_catchE [of "submit_hash E (mf_id mf) revision"]
    by (rule wp_uses_conj [OF side_submit(2) submit_hash_fixed])
       (use that early reserve in \<open>auto simp: wp_ret split: sum.splits\<close>)
  show ?thesis
    unfolding submit_analysis_def Let_def wp_catchE [of "billing_check E (ds_day D) (ds_billing D) (mf_user mf)"]
    by (rule wp_usesI [OF side_submit(1)]) (use early hash in \<open>auto simp: wp_ret split: sum.splits\<close>)
qed

section \<open>Properties\<close>

text \<open>(C11) Submitting a task.  It is reported accepted only after its idempotency key was reserved and the broker
  acknowledged its record, and the key the worker will release when it handles that record is the reserved one; a
  duplicate reserves and enqueues nothing; a submission that failed or was rate limited has no acknowledged record
  and gave back every key it reserved.\<close>

theorem submit_outcome:
  assumes "run_state (submit_analysis E D mf goal revision mode) h = ((res, err), h')"
    and "resolve_mode mode \<in> set all_modes"
  shows "case res of
      Accepted \<Rightarrow> \<exists>msg key. task_key E msg key \<and> tm_media msg = Some (mf_id mf) \<and> tm_goal msg = Some goal \<and>
        made (\<lambda>p c. a_bool E p c = Inr True) h (Redis (RSetNX key (itoa (mf_id mf)) (hours 6))) h' \<and>
        made (acked E) h (Kafka (KProduce (task_record E msg))) h' \<and> Redis (RDel [key]) \<notin> set (drop (length h) h')
    | Duplicate \<Rightarrow> \<forall>k. Kafka k \<notin> set (drop (length h) h')
    | _ \<Rightarrow> (\<forall>rec. \<not> made (acked E) h (Kafka (KProduce rec)) h') \<and>
        (\<forall>key v t. made (\<lambda>p c. a_bool E p c = Inr True) h (Redis (RSetNX key v t)) h' \<longrightarrow> Redis (RDel [key]) \<in> set (drop (length h) h'))"
proof -
  let ?mode = "resolve_mode mode"
  obtain xs where h': "h' = h @ xs" and post: "submit_post E mf goal revision ?mode h res xs"
    using wp_run [OF assms(1) wp_submit] by auto
  consider "res = Failed" "sides xs" | (asked) ys hash digest zs where
    "xs = ys @ Redis (RSetNX (active_key hash digest) (itoa (mf_id mf)) (hours 6)) # zs" "sides ys"
    "goal_digest E goal ?mode = Inr digest" "normalize_content_hash (mf_id mf) hash = hash"
    "case a_bool E (h @ ys) (Redis (RSetNX (active_key hash digest) (itoa (mf_id mf)) (hours 6))) of Inl e \<Rightarrow> res = Failed \<and> zs = []
         | Inr ok \<Rightarrow> if ok then reserved_post E (active_key hash digest) (task_record E (new_task_msg (mf_id mf) (submit_action revision) hash goal ?mode))
              (h @ ys @ [Redis (RSetNX (active_key hash digest) (itoa (mf_id mf)) (hours 6))]) res zs else res = Duplicate \<and> zs = []"
    using post unfolding submit_post_def Let_def by blast
  then show ?thesis
  proof cases
    case asked
    let ?key = "active_key hash digest" and ?msg = "new_task_msg (mf_id mf) (submit_action revision) hash goal ?mode"
    have "task_key E ?msg ?key" using asked(3,4) assms(2)
      by (simp add: task_key_def new_task_msg_def deref0_def mode_from_nullable_fixed)
    moreover have "tm_media ?msg = Some (mf_id mf)" "tm_goal ?msg = Some goal" by (simp_all add: new_task_msg_def)
    ultimately have acc: "P ?msg ?key \<Longrightarrow> \<exists>msg key. task_key E msg key \<and> tm_media msg = Some (mf_id mf) \<and> tm_goal msg = Some goal \<and> P msg key" for P
      by blast
    show ?thesis
      using asked
      by (auto simp: h' reserved_post_def made_append made_in_append split: submission_result.splits sum.splits if_splits intro!: acc)
  qed (simp add: h' made_append)
qed

definition dispatcher0 :: dispatcher where
  "dispatcher0 = \<lparr>ds_day = (\<lambda>d. []), ds_billing = None\<rparr>"

lemma run_submit: "wp (submit_analysis env0 dispatcher0 mf7 ''g'' None []) (\<lambda>r q. r = (Accepted, None)) []"
proof -
  have g: "goal_digest env0 ''g'' ModeGeneral = Inr (sha256_hex env0 (trim_control ''g''))" by (simp add: goal_digest_def text_an)
  have a: "a_bool env0 h c = Inr True" "a_int env0 h c = Inr 1" "a_media env0 h c = Inr None" "a_ostr env0 h c = Inr None" "a_err env0 h c = None" for h c
    by (simp_all add: env0_def)
  show ?thesis
    by (auto simp: submit_analysis_def dispatcher0_def resolve_mode_def Let_def wp_simps limited_def submit_hash_def dispatch_hash_def content_hash_def
        a g submit_reserved_def try_acquire_quota_def take_user_then_global_def take_token_def stage_revision_def intro!: wp_any)
qed

theorem submit_outcome_witness:
  "\<exists>msg. made (acked env0) [] (Kafka (KProduce (task_record env0 msg))) (final (submit_analysis env0 dispatcher0 mf7 ''g'' None []) [])"
proof -
  have "run_state (submit_analysis env0 dispatcher0 mf7 ''g'' None []) [] = ((Accepted, None), final (submit_analysis env0 dispatcher0 mf7 ''g'' None []) [])"
    using run_submit by (simp add: wp_def result_def final_def prod_eq_iff)
  from submit_outcome [OF this] show ?thesis by (auto simp: resolve_mode_def all_modes_def)
qed

end
