(* ===== verification/AgentClient.thy ===== *)
theory AgentClient
  imports Dispatch
begin

text \<open>
  The client of the agent service: internal/agentclient/client.go and convert.go.  The generated stub
  (gen/agent/v1) sends one message and returns one message or an error; it is the record \<open>stub\<close>, a
  parameter, with one field per remote procedure, applied to what the interceptor attached to the
  call.  Of the gRPC library the client uses \<open>from_error\<close> (status.FromError, \<open>None\<close> where it reports
  that the error carries no status) and \<open>code_name\<close> (the text of a code).  \<open>wired\<close> puts the client under the
  rest of the server: the answers to its agent calls become those of the client over the stub.
\<close>

section \<open>Codes, modes and messages of the contract\<close>

type_synonym grpc_code = nat

abbreviation (input) "GrpcUnknown \<equiv> (2::nat)"
abbreviation (input) "GrpcInvalidArgument \<equiv> (3::nat)"
abbreviation (input) "GrpcResourceExhausted \<equiv> (8::nat)"
abbreviation (input) "GrpcFailedPrecondition \<equiv> (9::nat)"
abbreviation (input) "GrpcUnavailable \<equiv> (14::nat)"
abbreviation (input) "GrpcUnauthenticated \<equiv> (16::nat)"

record grpc_lib =
  from_error :: "goerr \<Rightarrow> (grpc_code \<times> gostr) option"
  code_name :: "grpc_code \<Rightarrow> gostr"

text \<open>What the invoker of a call returns besides a message: the error and the values under the trailer
  x-agent-error.\<close>

record wire_error =
  we_err :: goerr
  we_trailer :: "gostr list"

text \<open>The enumeration AnalysisMode of the contract; a proto3 enumeration is open.\<close>

type_synonym proto_mode = int

abbreviation (input) "PbUnspecified \<equiv> (0::int)"
abbreviation (input) "PbGeneral \<equiv> (1::int)"
abbreviation (input) "PbLearning \<equiv> (2::int)"
abbreviation (input) "PbReview \<equiv> (3::int)"
abbreviation (input) "PbCreation \<equiv> (4::int)"

record goal_ref =
  gr_media :: int
  gr_goal :: gostr
  gr_mode :: proto_mode

record pb_status =
  ps_state :: gostr
  ps_result :: gostr
  ps_message :: gostr

record pb_plan =
  pp_goal :: gostr
  pp_tasks :: "gostr list"

record pb_hit =
  ph_start :: int
  ph_end :: int
  ph_source :: gostr
  ph_snippet :: gostr
  ph_transcript :: gostr
  ph_ocr :: "gostr list"

record pb_feedback =
  pf_media :: int
  pf_goal :: gostr
  pf_mode :: proto_mode
  pf_rating :: "int option"
  pf_error_type :: "gostr option"
  pf_comment :: "gostr option"
  pf_corrected_goal :: "gostr option"
  pf_corrected_tasks :: "gostr list"
  pf_evidence_ts :: "int option"
  pf_evidence_ok :: "bool option"
  pf_created :: gostr

record pb_seed =
  pe_trace :: gostr
  pe_stages :: "(gostr \<times> stage_seed) list"
  pe_counters :: "(gostr \<times> int) list"

record pb_run_request =
  pq_media :: int
  pq_goal :: gostr
  pq_mode :: proto_mode
  pq_seed :: "pb_seed option"

text \<open>A field that is itself a message is a pointer; the getters read a nil message as its zero value.\<close>

record pb_run_response =
  pr_round :: "int option"
  pr_markdown :: gostr
  pr_status :: "pb_status option"

record pb_result_response =
  po_found :: bool
  po_markdown :: gostr
  po_status :: "pb_status option"

record pb_reuse_request =
  pu_media :: int
  pu_source :: int
  pu_goal :: gostr
  pu_mode :: proto_mode
  pu_target :: gostr

record pb_reuse_response =
  pv_reused :: bool
  pv_markdown :: gostr
  pv_status :: "pb_status option"

record pb_follow_up =
  pw_media :: int
  pw_goal :: "gostr option"
  pw_question :: gostr
  pw_mode :: proto_mode

section \<open>Errors (convert.go)\<close>

text \<open>An error as it leaves the interceptor: \<open>Some reason\<close> is the wrapper agentError.\<close>

record agent_error =
  ae_err :: goerr
  ae_reason :: "gostr option"

text \<open>The wrapper embeds the error, so it has its text, and unwraps to it.\<close>

definition as_goerr :: "agent_error \<Rightarrow> goerr" where
  "as_goerr a = (case ae_reason a of None \<Rightarrow> ae_err a | Some r \<Rightarrow> Plain (error_text (ae_err a)) (Some (ae_err a)))"

text \<open>status.FromError of that error: the wrapper's GRPCStatus always answers, with the code Unknown and
  the text of the error when there is no status inside.\<close>

definition grpc_status :: "grpc_lib \<Rightarrow> agent_error \<Rightarrow> (grpc_code \<times> gostr) option" where
  "grpc_status L a = (case from_error L (ae_err a) of
      Some s \<Rightarrow> Some s
    | None \<Rightarrow> (case ae_reason a of None \<Rightarrow> None | Some r \<Rightarrow> Some (GrpcUnknown, error_text (ae_err a))))"

definition map_error :: "grpc_lib \<Rightarrow> agent_error \<Rightarrow> goerr" where
  "map_error L a = (let cause = Some (as_goerr a) in
     case grpc_status L a of
       None \<Rightarrow> Transient ''agent call failed'' cause
     | Some (code, msg) \<Rightarrow>
         if code = GrpcInvalidArgument then TErr KindInvalidArgument no_code msg cause
         else if code = GrpcFailedPrecondition then TErr KindNotReady no_code m_not_ready cause
         else if code = GrpcResourceExhausted then
           (if ae_reason a = Some ''BUDGET_EXHAUSTED'' then BudgetExhausted msg cause
            else Transient (''agent overloaded: '' @ msg) cause)
         else if code = GrpcUnauthenticated then Transient ''agent rejected the internal token'' cause
         else Transient (if is_blank msg then ''agent service '' @ code_name L code else msg) cause)"

section \<open>Conversions (convert.go)\<close>

definition mode_to_proto :: "analysis_mode \<Rightarrow> proto_mode" where
  "mode_to_proto m = (let r = resolve_mode m in
     if r = ModeLearning then PbLearning
     else if r = ModeReview then PbReview
     else if r = ModeCreation then PbCreation
     else PbGeneral)"

definition mode_from_proto :: "proto_mode \<Rightarrow> analysis_mode" where
  "mode_from_proto m =
     (if m = PbLearning then ModeLearning
      else if m = PbReview then ModeReview
      else if m = PbCreation then ModeCreation
      else ModeGeneral)"

definition non_empty :: "gostr \<Rightarrow> gostr option" where
  "non_empty s = (if s = [] then None else Some s)"

definition pb_status0 :: pb_status where
  "pb_status0 = \<lparr>ps_state = [], ps_result = [], ps_message = []\<rparr>"

definition task_status_from_proto :: "pb_status option \<Rightarrow> task_status" where
  "task_status_from_proto s = (let p = (case s of None \<Rightarrow> pb_status0 | Some p \<Rightarrow> p) in
     \<lparr>ts_state = (if ps_state p = [] then StateCompleted else ps_state p),
      ts_result = non_empty (ps_result p), ts_message = non_empty (ps_message p)\<rparr>)"

definition hits_from_proto :: "pb_hit list \<Rightarrow> evidence_hit list" where
  "hits_from_proto hs = map (\<lambda>h. \<lparr>eh_start = ph_start h, eh_end = ph_end h, eh_source = ph_source h,
     eh_snippet = ph_snippet h, eh_transcript = ph_transcript h, eh_ocr = ph_ocr h\<rparr>) hs"

definition plan_from_proto :: "pb_plan \<Rightarrow> plan" where
  "plan_from_proto p = \<lparr>pn_goal = pp_goal p, pn_tasks = pp_tasks p\<rparr>"

text \<open>A nil message and a message without fields are both \<open>[]\<close>.\<close>

definition struct_to_json :: "json_doc \<Rightarrow> json_doc option" where
  "struct_to_json s = (if s = [] then None else Some s)"

definition feedback_from_proto :: "pb_feedback \<Rightarrow> agent_feedback" where
  "feedback_from_proto f =
     \<lparr>fb_media = Some (pf_media f), fb_goal = Some (pf_goal f), fb_mode = Some (mode_from_proto (pf_mode f)),
      fb_rating = pf_rating f, fb_error_type = pf_error_type f, fb_comment = pf_comment f,
      fb_corrected_goal = pf_corrected_goal f, fb_corrected_tasks = pf_corrected_tasks f,
      fb_evidence_ts = pf_evidence_ts f, fb_evidence_ok = pf_evidence_ok f, fb_created = non_empty (pf_created f)\<rparr>"

text \<open>The conversion int32(x) of a Go int keeps the low 32 bits.\<close>

definition to_int32 :: "int \<Rightarrow> int" where
  "to_int32 n = signed_take_bit 31 n"

definition feedback_to_proto :: "agent_feedback \<Rightarrow> pb_feedback" where
  "feedback_to_proto f =
     \<lparr>pf_media = (case fb_media f of None \<Rightarrow> 0 | Some i \<Rightarrow> i), pf_goal = deref0 (fb_goal f),
      pf_mode = (case fb_mode f of None \<Rightarrow> PbUnspecified | Some m \<Rightarrow> mode_to_proto (mode_from_nullable m)),
      pf_rating = map_option to_int32 (fb_rating f), pf_error_type = fb_error_type f, pf_comment = fb_comment f,
      pf_corrected_goal = fb_corrected_goal f, pf_corrected_tasks = fb_corrected_tasks f,
      pf_evidence_ts = fb_evidence_ts f, pf_evidence_ok = fb_evidence_ok f, pf_created = deref0 (fb_created f)\<rparr>"

definition seed_to_proto :: "telemetry_seed option \<Rightarrow> pb_seed option" where
  "seed_to_proto s = (case s of None \<Rightarrow> None | Some t \<Rightarrow>
     Some \<lparr>pe_trace = tl_trace t,
       pe_stages = map (\<lambda>(k, v). (k, \<lparr>sd_duration = sd_duration v, sd_success = sd_success v\<rparr>)) (tl_stages t),
       pe_counters = map (\<lambda>(k, v). (k, v)) (tl_counters t)\<rparr>)"

section \<open>The interceptor (client.go)\<close>

abbreviation "TokenHeader \<equiv> ''x-internal-token''"
abbreviation "BillingHeader \<equiv> ''x-billing-user''"

definition full_method :: "gostr \<Rightarrow> gostr" where
  "full_method m = ''/dovideo.agent.v1.AgentService/'' @ m"

record timeouts =
  to_run :: int
  to_interactive :: int

definition default_timeout :: int where "default_timeout = seconds 10"

definition timeout_for :: "timeouts \<Rightarrow> gostr \<Rightarrow> int" where
  "timeout_for t m =
     (if m = full_method ''Run'' then to_run t
      else if m \<in> {full_method ''FollowUp'', full_method ''ClassifyMode'', full_method ''SearchEvidence''} then to_interactive t
      else default_timeout)"

text \<open>The loop of shortMethod, from the last byte down; \<open>i\<close> bytes are left to look at.\<close>

fun short_loop :: "gostr \<Rightarrow> nat \<Rightarrow> gostr" where
  "short_loop full 0 = full"
| "short_loop full (Suc i) = (if full ! i = CHR ''/'' then drop (Suc i) full else short_loop full i)"

definition short_method :: "gostr \<Rightarrow> gostr" where
  "short_method full = short_loop full (length full)"

text \<open>What the interceptor adds to a call: the method, its time budget and the outgoing metadata.  The user
  is the one billing.WithUser put into the context.\<close>

record rpc_ctx =
  cx_method :: gostr
  cx_timeout :: int
  cx_metadata :: "(gostr \<times> gostr) list"

definition interceptor :: "gostr \<Rightarrow> timeouts \<Rightarrow> int option \<Rightarrow> gostr \<Rightarrow> rpc_ctx" where
  "interceptor token t user m =
     \<lparr>cx_method = m, cx_timeout = timeout_for t m,
      cx_metadata = (TokenHeader, token) # (case user of None \<Rightarrow> [] | Some uid \<Rightarrow> [(BillingHeader, itoa uid)])\<rparr>"

definition intercept_error :: "wire_error \<Rightarrow> agent_error" where
  "intercept_error w = \<lparr>ae_err = we_err w, ae_reason = (case we_trailer w of [] \<Rightarrow> None | v # vs \<Rightarrow> Some v)\<rparr>"

section \<open>The client (client.go)\<close>

type_synonym ('q, 'a) rpc = "hist \<Rightarrow> rpc_ctx \<Rightarrow> 'q \<Rightarrow> wire_error + 'a"

record stub =
  rpc_run :: "(pb_run_request, pb_run_response) rpc"
  rpc_result :: "(goal_ref, pb_result_response) rpc"
  rpc_reuse :: "(pb_reuse_request, pb_reuse_response) rpc"
  rpc_follow_up :: "(pb_follow_up, gostr) rpc"
  rpc_search :: "(int \<times> gostr, pb_hit list) rpc"
  rpc_classify :: "(gostr, proto_mode \<times> gostr) rpc"
  rpc_stage_revision :: "(pb_feedback \<times> proto_mode, gostr) rpc"
  rpc_begin_revision :: "(goal_ref, bool) rpc"
  rpc_complete_revision :: "(goal_ref, unit) rpc"
  rpc_cancel_revision :: "(goal_ref, unit) rpc"
  rpc_save_feedback :: "(pb_feedback, unit) rpc"
  rpc_list_feedback :: "(int, pb_feedback list) rpc"
  rpc_plan :: "(goal_ref, bool \<times> pb_plan option) rpc"
  rpc_trace :: "(goal_ref, json_doc) rpc"
  rpc_evaluation :: "(goal_ref, json_doc) rpc"
  rpc_purge :: "(int, unit) rpc"

record agent_conn =
  cn_lib :: grpc_lib
  cn_token :: gostr
  cn_timeouts :: timeouts
  cn_stub :: stub

record run_result =
  rn_markdown :: gostr
  rn_round :: int
  rn_status :: task_status

definition goal_ref_of :: "int \<Rightarrow> gostr \<Rightarrow> analysis_mode \<Rightarrow> goal_ref" where
  "goal_ref_of mid goal mode = \<lparr>gr_media = mid, gr_goal = goal, gr_mode = mode_to_proto mode\<rparr>"

text \<open>One call: the interceptor, the stub, and MapError on the way back.\<close>

definition call_agent :: "agent_conn \<Rightarrow> int option \<Rightarrow> (stub \<Rightarrow> ('q, 'a) rpc) \<Rightarrow> gostr \<Rightarrow> hist \<Rightarrow> 'q \<Rightarrow> ('a \<Rightarrow> 'b) \<Rightarrow> 'b res" where
  "call_agent K u f m h req conv =
     (case f (cn_stub K) h (interceptor (cn_token K) (cn_timeouts K) u (full_method m)) req of
        Inl w \<Rightarrow> Inl (map_error (cn_lib K) (intercept_error w))
      | Inr x \<Rightarrow> Inr (conv x))"

definition client_run :: "agent_conn \<Rightarrow> int option \<Rightarrow> hist \<Rightarrow> int \<Rightarrow> gostr \<Rightarrow> analysis_mode \<Rightarrow> telemetry_seed option \<Rightarrow> run_result res" where
  "client_run K u h mid goal mode seed =
     call_agent K u rpc_run ''Run'' h
       \<lparr>pq_media = mid, pq_goal = goal, pq_mode = mode_to_proto mode, pq_seed = seed_to_proto seed\<rparr>
       (\<lambda>res. \<lparr>rn_markdown = pr_markdown res, rn_round = (case pr_round res of None \<Rightarrow> 0 | Some r \<Rightarrow> r),
               rn_status = task_status_from_proto (pr_status res)\<rparr>)"

definition client_result :: "agent_conn \<Rightarrow> int option \<Rightarrow> hist \<Rightarrow> int \<Rightarrow> gostr \<Rightarrow> analysis_mode \<Rightarrow> result_response res" where
  "client_result K u h mid goal mode =
     call_agent K u rpc_result ''GetResult'' h (goal_ref_of mid goal mode)
       (\<lambda>res. if po_found res
              then \<lparr>rr_found = True, rr_status = map_option (\<lambda>s. task_status_from_proto (Some s)) (po_status res),
                    rr_markdown = Some (po_markdown res)\<rparr>
              else \<lparr>rr_found = False, rr_status = None, rr_markdown = None\<rparr>)"

definition client_reuse :: "agent_conn \<Rightarrow> int option \<Rightarrow> hist \<Rightarrow> int \<Rightarrow> int \<Rightarrow> gostr \<Rightarrow> analysis_mode \<Rightarrow> gostr \<Rightarrow> reuse_response res" where
  "client_reuse K u h mid src goal mode target =
     call_agent K u rpc_reuse ''ReuseResult'' h
       \<lparr>pu_media = mid, pu_source = src, pu_goal = goal, pu_mode = mode_to_proto mode, pu_target = target\<rparr>
       (\<lambda>res. if pv_reused res
              then \<lparr>ru_reused = True, ru_status = map_option (\<lambda>s. task_status_from_proto (Some s)) (pv_status res),
                    ru_markdown = Some (pv_markdown res)\<rparr>
              else \<lparr>ru_reused = False, ru_status = None, ru_markdown = None\<rparr>)"

definition client_purge :: "agent_conn \<Rightarrow> int option \<Rightarrow> hist \<Rightarrow> int \<Rightarrow> unit res" where
  "client_purge K u h mid = call_agent K u rpc_purge ''Purge'' h mid (\<lambda>x. x)"

definition client_follow_up :: "agent_conn \<Rightarrow> int option \<Rightarrow> hist \<Rightarrow> int \<Rightarrow> gostr option \<Rightarrow> gostr \<Rightarrow> analysis_mode \<Rightarrow> gostr res" where
  "client_follow_up K u h mid goal question mode =
     call_agent K u rpc_follow_up ''FollowUp'' h
       \<lparr>pw_media = mid, pw_goal = goal, pw_question = question, pw_mode = mode_to_proto mode\<rparr> (\<lambda>answer. answer)"

definition client_search :: "agent_conn \<Rightarrow> int option \<Rightarrow> hist \<Rightarrow> int \<Rightarrow> gostr \<Rightarrow> evidence_hit list res" where
  "client_search K u h mid query = call_agent K u rpc_search ''SearchEvidence'' h (mid, query) hits_from_proto"

definition client_classify :: "agent_conn \<Rightarrow> int option \<Rightarrow> hist \<Rightarrow> gostr \<Rightarrow> route_decision res" where
  "client_classify K u h goal =
     call_agent K u rpc_classify ''ClassifyMode'' h goal (\<lambda>(m, reason). new_route_decision (mode_from_proto m) reason)"

definition client_stage_revision :: "agent_conn \<Rightarrow> int option \<Rightarrow> hist \<Rightarrow> agent_feedback \<Rightarrow> analysis_mode \<Rightarrow> gostr res" where
  "client_stage_revision K u h fb mode =
     call_agent K u rpc_stage_revision ''StageRevision'' h (feedback_to_proto fb, mode_to_proto mode) (\<lambda>goal. goal)"

definition client_begin_revision :: "agent_conn \<Rightarrow> int option \<Rightarrow> hist \<Rightarrow> int \<Rightarrow> gostr \<Rightarrow> analysis_mode \<Rightarrow> bool res" where
  "client_begin_revision K u h mid goal mode =
     call_agent K u rpc_begin_revision ''BeginRevision'' h (goal_ref_of mid goal mode) (\<lambda>begun. begun)"

definition client_complete_revision :: "agent_conn \<Rightarrow> int option \<Rightarrow> hist \<Rightarrow> int \<Rightarrow> gostr \<Rightarrow> analysis_mode \<Rightarrow> unit res" where
  "client_complete_revision K u h mid goal mode =
     call_agent K u rpc_complete_revision ''CompleteRevision'' h (goal_ref_of mid goal mode) (\<lambda>x. x)"

definition client_cancel_revision :: "agent_conn \<Rightarrow> int option \<Rightarrow> hist \<Rightarrow> int \<Rightarrow> gostr \<Rightarrow> analysis_mode \<Rightarrow> unit res" where
  "client_cancel_revision K u h mid goal mode =
     call_agent K u rpc_cancel_revision ''CancelRevision'' h (goal_ref_of mid goal mode) (\<lambda>x. x)"

definition client_save_feedback :: "agent_conn \<Rightarrow> int option \<Rightarrow> hist \<Rightarrow> agent_feedback \<Rightarrow> unit res" where
  "client_save_feedback K u h fb = call_agent K u rpc_save_feedback ''SaveFeedback'' h (feedback_to_proto fb) (\<lambda>x. x)"

definition client_load_feedback :: "agent_conn \<Rightarrow> int option \<Rightarrow> hist \<Rightarrow> int \<Rightarrow> agent_feedback list res" where
  "client_load_feedback K u h mid = call_agent K u rpc_list_feedback ''ListFeedback'' h mid (map feedback_from_proto)"

definition client_plan :: "agent_conn \<Rightarrow> int option \<Rightarrow> hist \<Rightarrow> int \<Rightarrow> gostr \<Rightarrow> analysis_mode \<Rightarrow> plan option res" where
  "client_plan K u h mid goal mode =
     call_agent K u rpc_plan ''GetPlan'' h (goal_ref_of mid goal mode)
       (\<lambda>(found, p). if \<not> found then None else map_option plan_from_proto p)"

definition client_trace :: "agent_conn \<Rightarrow> int option \<Rightarrow> hist \<Rightarrow> int \<Rightarrow> gostr \<Rightarrow> analysis_mode \<Rightarrow> json_doc option res" where
  "client_trace K u h mid goal mode = call_agent K u rpc_trace ''GetTrace'' h (goal_ref_of mid goal mode) struct_to_json"

definition client_evaluation :: "agent_conn \<Rightarrow> int option \<Rightarrow> hist \<Rightarrow> int \<Rightarrow> gostr \<Rightarrow> analysis_mode \<Rightarrow> json_doc option res" where
  "client_evaluation K u h mid goal mode =
     call_agent K u rpc_evaluation ''GetEvaluation'' h (goal_ref_of mid goal mode) struct_to_json"

section \<open>The server over the client\<close>

text \<open>The answers of an environment whose agent is reached through the client.  A run is charged to the owner
  of the media, every other call to the user \<open>u\<close> of the request.\<close>

definition err_of :: "'a res \<Rightarrow> goerr option" where
  "err_of r = (case r of Inl e \<Rightarrow> Some e | Inr x \<Rightarrow> None)"

definition wired_err :: "agent_conn \<Rightarrow> int option \<Rightarrow> env \<Rightarrow> hist \<Rightarrow> call \<Rightarrow> goerr option" where
  "wired_err K u E h c = (case c of
      Agent (APurge mid) \<Rightarrow> err_of (client_purge K u h mid)
    | Agent (AStageRevision fb mode) \<Rightarrow> err_of (client_stage_revision K u h fb mode)
    | Agent (ACompleteRevision mid goal mode) \<Rightarrow> err_of (client_complete_revision K u h mid goal mode)
    | Agent (ACancelRevision mid goal mode) \<Rightarrow> err_of (client_cancel_revision K u h mid goal mode)
    | Agent (ASaveFeedback fb) \<Rightarrow> err_of (client_save_feedback K u h fb)
    | _ \<Rightarrow> a_err E h c)"

definition wired_str :: "agent_conn \<Rightarrow> int option \<Rightarrow> env \<Rightarrow> hist \<Rightarrow> call \<Rightarrow> gostr res" where
  "wired_str K u E h c = (case c of
      Agent (ARun owner mid goal mode seed) \<Rightarrow>
        (case client_run K owner h mid goal mode (Some seed) of Inl e \<Rightarrow> Inl e | Inr r \<Rightarrow> Inr (rn_markdown r))
    | Agent (AFollowUp mid goal question mode) \<Rightarrow> client_follow_up K u h mid goal question mode
    | _ \<Rightarrow> a_str E h c)"

definition wired :: "agent_conn \<Rightarrow> int option \<Rightarrow> env \<Rightarrow> env" where
  "wired K u E = E\<lparr>
     a_err := wired_err K u E,
     a_str := wired_str K u E,
     a_bool := (\<lambda>h c. case c of Agent (ABeginRevision mid goal mode) \<Rightarrow> client_begin_revision K u h mid goal mode | _ \<Rightarrow> a_bool E h c),
     a_result := (\<lambda>h c. case c of Agent (AResult mid goal mode) \<Rightarrow> client_result K u h mid goal mode | _ \<Rightarrow> a_result E h c),
     a_reuse := (\<lambda>h c. case c of Agent (AReuse mid src goal mode target) \<Rightarrow> client_reuse K u h mid src goal mode target
                       | _ \<Rightarrow> a_reuse E h c),
     a_hits := (\<lambda>h c. case c of Agent (ASearch mid query) \<Rightarrow> client_search K u h mid query | _ \<Rightarrow> a_hits E h c),
     a_route := (\<lambda>h c. case c of Agent (AClassify goal) \<Rightarrow> client_classify K u h goal | _ \<Rightarrow> a_route E h c),
     a_fbs := (\<lambda>h c. case c of Agent (AListFeedback mid) \<Rightarrow> client_load_feedback K u h mid | _ \<Rightarrow> a_fbs E h c),
     a_plan := (\<lambda>h c. case c of Agent (APlan mid goal mode) \<Rightarrow> client_plan K u h mid goal mode | _ \<Rightarrow> a_plan E h c),
     a_doc := (\<lambda>h c. case c of Agent (ATrace mid goal mode) \<Rightarrow> client_trace K u h mid goal mode
                     | Agent (AEvaluation mid goal mode) \<Rightarrow> client_evaluation K u h mid goal mode
                     | _ \<Rightarrow> a_doc E h c)\<rparr>"

section \<open>Facts\<close>

text \<open>An error that comes from outside the repository: no typed error in its chain.\<close>

definition foreign :: "goerr \<Rightarrow> bool" where
  "foreign e = list_all (\<lambda>c. \<not> is_typed c) (chain e)"

lemma as_goerr_chain: "set (chain (as_goerr a)) \<subseteq> insert (as_goerr a) (set (chain (ae_err a)))"
  by (auto simp: as_goerr_def split: option.splits)

lemma foreign_as_goerr: "foreign (ae_err a) \<Longrightarrow> foreign (as_goerr a)"
  by (auto simp: foreign_def as_goerr_def split: option.splits)

lemma foreign_wrap: "foreign e \<Longrightarrow> has_kind (TErr k c m (Some e)) k' \<longleftrightarrow> k = k'"
  by (auto simp: has_kind_def foreign_def list_all_iff list_ex_iff)

lemma permanent_walk_foreign: "foreign e \<Longrightarrow> permanent_walk n (Some e) = False"
  using permanent_walk_take by (fastforce simp: foreign_def list_all_iff list_ex_iff dest: in_set_takeD)

text \<open>The kind MapError chooses: the classification of the contract, as a table over code and trailer.\<close>

definition status_kind :: "(grpc_code \<times> gostr) option \<Rightarrow> gostr option \<Rightarrow> kind" where
  "status_kind st reason = (case st of None \<Rightarrow> KindTransient | Some (code, msg) \<Rightarrow>
     if code = GrpcInvalidArgument then KindInvalidArgument
     else if code = GrpcFailedPrecondition then KindNotReady
     else if code = GrpcResourceExhausted \<and> reason = Some ''BUDGET_EXHAUSTED'' then KindBudgetExhausted
     else KindTransient)"

lemma map_error_shape:
  "\<exists>m. map_error L a = TErr (status_kind (grpc_status L a) (ae_reason a)) no_code m (Some (as_goerr a))"
  by (auto simp: map_error_def status_kind_def Let_def error_ctor_defs split: option.splits prod.splits)

lemma analysis_error_budget:
  assumes "foreign (ae_err a)"
  shows "has_kind (wrap_analysis_error (map_error L a)) KindBudgetExhausted \<longleftrightarrow>
    status_kind (grpc_status L a) (ae_reason a) = KindBudgetExhausted"
proof -
  obtain m where "map_error L a = TErr (status_kind (grpc_status L a) (ae_reason a)) no_code m (Some (as_goerr a))"
    using map_error_shape by blast
  with foreign_wrap [OF foreign_as_goerr [OF assms]] show ?thesis
    by (auto simp: wrap_analysis_error_def Internal_def has_kind_def)
qed

lemma analysis_error_permanent:
  assumes "foreign (ae_err a)"
  shows "is_permanent_failure (Some (wrap_analysis_error (map_error L a))) \<longleftrightarrow>
    status_kind (grpc_status L a) (ae_reason a) = KindInvalidArgument"
proof -
  let ?k = "status_kind (grpc_status L a) (ae_reason a)"
  obtain m where m: "map_error L a = TErr ?k no_code m (Some (as_goerr a))" using map_error_shape by blast
  have "permanent_kind ?k \<longleftrightarrow> ?k = KindInvalidArgument"
    by (auto simp: permanent_kind_def status_kind_def split: option.splits if_splits)
  then show ?thesis
    using m permanent_walk_foreign [OF foreign_as_goerr [OF assms]]
    by (auto simp: is_permanent_failure_def max_cause_depth_def wrap_analysis_error_def Internal_def eval_nat_numeral permanent_kind_def)
qed

lemma grpc_status_intercepted:
  "from_error L (we_err w) = Some s \<Longrightarrow> grpc_status L (intercept_error w) = Some s"
  by (simp add: grpc_status_def intercept_error_def)

lemma intercepted_reason:
  "ae_reason (intercept_error w) = Some r \<longleftrightarrow> (\<exists>ts. we_trailer w = r # ts)"
  by (auto simp: intercept_error_def split: list.splits)

lemma routed_outcome:
  "routed E d msg akey e p (Inr out) ys \<Longrightarrow> out =
     (if has_kind e KindBudgetExhausted then OutcomeBudget
      else if is_permanent_failure (Some e) \<or> 3 \<le> dl_attempt d then OutcomeDLQ else OutcomeRetry)"
  by (erule routed.cases)
     (auto simp: route_of_def route_failure_def attempt_of_def max_attempts_def split: if_splits)

text \<open>Modes and feedback survive the wire.\<close>

interpretation pb_mode: codec "\<lambda>m. m \<in> set all_modes" mode_to_proto "\<lambda>p. Some (mode_from_proto p)"
  by unfold_locales (auto simp: all_modes_def mode_to_proto_def mode_from_proto_def resolve_mode_def)

definition wire_feedback :: "agent_feedback \<Rightarrow> bool" where
  "wire_feedback f = (fb_media f \<noteq> None \<and> fb_goal f \<noteq> None \<and> (\<exists>m \<in> set all_modes. fb_mode f = Some m) \<and>
     (case fb_rating f of None \<Rightarrow> True | Some r \<Rightarrow> in_bits 32 r) \<and> (\<exists>c. fb_created f = Some c \<and> c \<noteq> []))"

lemma to_int32_id: "in_bits 32 r \<Longrightarrow> to_int32 r = r"
  by (simp add: to_int32_def in_bits_def signed_take_bit_int_eq_self)

lemma feedback_wire: "wire_feedback f \<Longrightarrow> feedback_from_proto (feedback_to_proto f) = f"
  using pb_mode.dec_enc mode_from_nullable_fixed
  by (cases f) (auto simp: wire_feedback_def feedback_from_proto_def feedback_to_proto_def deref0_def non_empty_def
      to_int32_id split: option.splits)

interpretation pb_feedback: codec wire_feedback feedback_to_proto "\<lambda>p. Some (feedback_from_proto p)"
  by unfold_locales (simp add: feedback_wire)

lemma short_loop_after: "i \<le> length s \<Longrightarrow> CHR ''/'' \<notin> set (drop i s) \<Longrightarrow> short_loop s i = after_last (CHR ''/'') s"
proof (induction i)
  case 0
  then have "takeWhile (\<lambda>x. x \<noteq> CHR ''/'') (rev s) = rev s" by (auto simp: takeWhile_eq_all_conv)
  then show ?case unfolding after_last_def by (simp only: short_loop.simps rev_rev_ident)
next
  case (Suc i)
  then have i: "i < length s" by simp
  show ?case
  proof (cases "s ! i = CHR ''/''")
    case True
    have "rev s = rev (drop (Suc i) s) @ CHR ''/'' # rev (take i s)"
      using id_take_nth_drop [OF i] True by (metis rev.simps(2) rev_append append.assoc append_Cons append_Nil)
    with True Suc.prems(2) show ?thesis by (simp add: after_last_def takeWhile_append)
  next
    case False
    with i Suc.prems have "CHR ''/'' \<notin> set (drop i s)" by (simp add: Cons_nth_drop_Suc [symmetric])
    with False i Suc.IH show ?thesis by simp
  qed
qed

text \<open>shortMethod is the part after the last slash, the whole name if there is none.\<close>

lemma short_method_eq: "short_method s = after_last (CHR ''/'') s"
  by (simp add: short_method_def short_loop_after)

section \<open>Properties\<close>

text \<open>(C6) What the agent answers decides what happens to the task: when an analysis failed with a status of the
  agent and the consumer has dealt with that error, the task ended as over budget exactly for RESOURCE_EXHAUSTED with the
  trailer BUDGET_EXHAUSTED, was dead-lettered for INVALID_ARGUMENT or at the third attempt, and is retried
  otherwise, an overloaded agent (RESOURCE_EXHAUSTED alone) and a rejected token included.\<close>

theorem agent_failure_routing:
  assumes "from_error L (we_err w) = Some (code, msg)" and "foreign (we_err w)"
    and "run_state (route_error E d tm mid goal mode akey (wrap_analysis_error (map_error L (intercept_error w)))) p = (Inr out, q)"
  shows "out =
    (if code = GrpcResourceExhausted \<and> (\<exists>ts. we_trailer w = ''BUDGET_EXHAUSTED'' # ts) then OutcomeBudget
     else if code = GrpcInvalidArgument \<or> 3 \<le> dl_attempt d then OutcomeDLQ
     else OutcomeRetry)"
proof -
  let ?e = "wrap_analysis_error (map_error L (intercept_error w))"
  from wp_run [OF assms(3) wp_route_error] obtain ys where "routed E d tm akey ?e p (Inr out) ys" by blast
  note out = routed_outcome [OF this]
  have "foreign (ae_err (intercept_error w))" using assms(2) by (simp add: intercept_error_def)
  note kinds = analysis_error_budget [OF this, of L] analysis_error_permanent [OF this, of L]
  from out show ?thesis
    unfolding kinds grpc_status_intercepted [OF assms(1)]
    by (auto simp: status_kind_def intercepted_reason split: if_splits)
qed

text \<open>A library in which every error without a cause carries the code RESOURCE_EXHAUSTED, and an overloaded agent.\<close>

definition lib0 :: grpc_lib where
  "lib0 = \<lparr>from_error = (\<lambda>e. case e of Plain m None \<Rightarrow> Some (GrpcResourceExhausted, m) | _ \<Rightarrow> None), code_name = (\<lambda>c. ''Unavailable'')\<rparr>"

definition busy_agent :: wire_error where
  "busy_agent = \<lparr>we_err = Plain ''busy'' None, we_trailer = []\<rparr>"

lemma routed_env0: "routed env0 d msg akey e p r ys \<Longrightarrow> \<exists>out. r = Inr out"
  by (erule routed.cases) (auto simp: env0_def)

theorem agent_failure_routing_witness:
  "fst (run_state (route_error env0 delivery1 msg1 7 ''g'' ModeGeneral ''k''
     (wrap_analysis_error (map_error lib0 (intercept_error busy_agent)))) []) = Inr OutcomeRetry"
proof -
  let ?m = "route_error env0 delivery1 msg1 7 ''g'' ModeGeneral ''k'' (wrap_analysis_error (map_error lib0 (intercept_error busy_agent)))"
  obtain r q where run: "run_state ?m [] = (r, q)" by fastforce
  from wp_run [OF run wp_route_error] obtain out where out: "r = Inr out" by (blast dest: routed_env0)
  have "from_error lib0 (we_err busy_agent) = Some (GrpcResourceExhausted, ''busy'')" "foreign (we_err busy_agent)"
    by (simp_all add: lib0_def busy_agent_def foreign_def)
  from agent_failure_routing [OF this run [unfolded out]] run out show ?thesis
    by (simp add: busy_agent_def delivery1_def)
qed

end
