(* ===== verification/Http.thy ===== *)
theory Http
  imports Auth Instant Transcription AgentClient
begin

text \<open>
  What every handler of internal/httpapi shares: request parameters (params.go), validation of decoded
  bodies (validation.go), the response envelope, the middleware (middleware.go), and the views of
  internal/model/dto.go that responses carry.  A request is what the web framework hands over: method,
  path, decoded query and form values, headers, the body as text and the multipart files.  Decoding JSON
  and the rules of the validator library are parameters (the record \<open>web\<close>), as is encoding the response.
  A handler returns its response; what it does to the rest of the system are the calls of Effects.
\<close>

section \<open>Requests, views and responses\<close>

datatype form_file = FileMissing | FileTooLarge | FilePart int gostr

record request =
  rq_method :: gostr
  rq_path :: gostr
  rq_query :: "(gostr \<times> gostr) list"
  rq_form :: "(gostr \<times> gostr) list"
  rq_headers :: "(gostr \<times> gostr) list"
  rq_host :: gostr
  rq_tls :: bool
  rq_body :: gostr
  rq_file :: "gostr \<Rightarrow> form_file"

record media_summary =
  sm_id :: int
  sm_filename :: gostr
  sm_status :: gostr
  sm_cover :: "gostr option"
  sm_uploaded :: int

definition summary_of :: "media_file \<Rightarrow> media_summary" where
  "summary_of m = \<lparr>sm_id = mf_id m, sm_filename = mf_filename m, sm_status = mf_status m, sm_cover = mf_cover m,
     sm_uploaded = mf_uploaded m\<rparr>"

record failed_view =
  fv_id :: int
  fv_media :: int
  fv_action :: gostr
  fv_mode :: gostr
  fv_goal :: gostr
  fv_attempts :: int
  fv_error_type :: gostr
  fv_error_message :: "gostr option"
  fv_status :: gostr
  fv_created :: int
  fv_updated :: int

definition failed_view_of :: "failed_task \<Rightarrow> failed_view" where
  "failed_view_of t = \<lparr>fv_id = ft_id t, fv_media = ft_media t, fv_action = ft_action t, fv_mode = ft_mode t,
     fv_goal = ft_goal t, fv_attempts = ft_attempts t, fv_error_type = ft_error_type t,
     fv_error_message = ft_error_message t, fv_status = ft_status t, fv_created = ft_created t, fv_updated = ft_updated t\<rparr>"

record auth_data =
  ad_user :: "user_info option"
  ad_token :: "gostr option"

record auth_config =
  ac_invite_only :: bool
  ac_demo :: "(gostr \<times> gostr) option"
  ac_limited :: bool

datatype payload =
    PStr gostr
  | PInts "int list"
  | PSummary media_summary
  | PSummaries "media_summary list"
  | PChallenge challenge
  | PStatus task_status
  | PRoute route_decision
  | PHits "evidence_hit list"
  | PFeedback "agent_feedback list"
  | PPlan plan
  | PDoc json_doc
  | PAuth auth_data
  | PConfig auth_config
  | PFailed "failed_view list"

datatype body = Json "payload envelope" | PlainText gostr | EventFrames "gostr list" | FileContent gostr | NoBody

record response =
  hp_status :: int
  hp_headers :: "(gostr \<times> gostr) list"
  hp_body :: body

text \<open>A failed rule of the validator library: the path of the field, its name and the tag of the rule.\<close>

record field_error =
  fe_namespace :: gostr
  fe_field :: gostr
  fe_tag :: gostr

datatype validation = Valid | NotAStruct | Invalid "field_error list"

datatype form =
    RegisterForm auth_request
  | LoginForm "gostr option" "gostr option"
  | RouteForm "gostr option"
  | FeedbackForm agent_feedback

text \<open>The API value: configuration, the downloader, and the library functions the handlers call.\<close>

record web =
  w_dispatcher :: dispatcher
  w_invite :: gostr
  w_demo_user :: gostr
  w_demo_password :: gostr
  w_demo_limit :: rat
  w_origins :: "gostr list"
  w_download :: "gostr \<Rightarrow> (gostr \<times> gostr) opE"
  w_metrics :: gostr
  w_json_ok :: "payload envelope \<Rightarrow> bool"
  w_event_json :: "task_event \<Rightarrow> gostr option"
  w_dec_auth :: "gostr \<Rightarrow> auth_request option"
  w_dec_route :: "gostr \<Rightarrow> gostr option option"
  w_dec_feedback :: "gostr \<Rightarrow> agent_feedback option"
  w_dec_challenge :: "gostr \<Rightarrow> challenge_request option"
  w_dec_proof :: "gostr \<Rightarrow> proof_request option"
  w_validator :: "form \<Rightarrow> validation"

section \<open>Parameters (params.go)\<close>

definition raw_param :: "request \<Rightarrow> gostr \<Rightarrow> gostr option" where
  "raw_param req name = (case map_of (rq_query req) name of Some v \<Rightarrow> Some v | None \<Rightarrow> map_of (rq_form req) name)"

definition errBadParam :: goerr where
  "errBadParam = InvalidArgument m_bad_params"

definition required_string :: "request \<Rightarrow> gostr \<Rightarrow> gostr res" where
  "required_string req name = (case raw_param req name of None \<Rightarrow> Inl errBadParam | Some v \<Rightarrow> Inr v)"

definition optional_string :: "request \<Rightarrow> gostr \<Rightarrow> gostr" where
  "optional_string req name = (case raw_param req name of None \<Rightarrow> [] | Some v \<Rightarrow> v)"

definition string_with_default :: "request \<Rightarrow> gostr \<Rightarrow> gostr \<Rightarrow> gostr" where
  "string_with_default req name d = (case raw_param req name of Some v \<Rightarrow> if v \<noteq> [] then v else d | None \<Rightarrow> d)"

definition required_bits :: "nat \<Rightarrow> request \<Rightarrow> gostr \<Rightarrow> int res" where
  "required_bits w req name = (case raw_param req name of
      None \<Rightarrow> Inl errBadParam
    | Some v \<Rightarrow> if is_blank v then Inl errBadParam
        else (case parse_int w (trim_space v) of None \<Rightarrow> Inl errBadParam | Some n \<Rightarrow> Inr n))"

definition required_int64 :: "request \<Rightarrow> gostr \<Rightarrow> int res" where
  "required_int64 req name = required_bits 64 req name"

definition required_int :: "request \<Rightarrow> gostr \<Rightarrow> int res" where
  "required_int req name = required_bits 32 req name"

definition max_goal_length :: nat where "max_goal_length = 500"

definition normalize_text :: "gostr \<Rightarrow> gostr \<Rightarrow> gostr res" where
  "normalize_text v field =
     (if is_blank v \<or> max_goal_length < utf16_len v then Inl (InvalidArgument (field @ m_text_bounds))
      else Inr (trim_space v))"

definition mode_param :: "request \<Rightarrow> analysis_mode res" where
  "mode_param req = mode_from_request (optional_string req ''mode'')"

definition upper_hex :: "nat \<Rightarrow> char" where
  "upper_hex d = ''0123456789ABCDEF'' ! d"

definition percent :: "char \<Rightarrow> gostr" where
  "percent c = [CHR ''%'', upper_hex (byte c div 16), upper_hex (byte c mod 16)]"

definition is_alnum :: "char \<Rightarrow> bool" where
  "is_alnum c = ((97 \<le> byte c \<and> byte c \<le> 122) \<or> (65 \<le> byte c \<and> byte c \<le> 90) \<or> (48 \<le> byte c \<and> byte c \<le> 57))"

definition form_url_byte :: "char \<Rightarrow> gostr" where
  "form_url_byte c =
     (if is_alnum c \<or> c \<in> set ''.-*_'' then [c] else if c = CHR '' '' then ''+'' else percent c)"

definition form_url_encode :: "gostr \<Rightarrow> gostr" where
  "form_url_encode s = concat (map form_url_byte s)"

text \<open>url.QueryEscape of the standard library.\<close>

definition query_escape :: "gostr \<Rightarrow> gostr" where
  "query_escape s = concat (map (\<lambda>c.
     if is_alnum c \<or> c \<in> set ''-_.~'' then [c] else if c = CHR '' '' then ''+'' else percent c) s)"

definition parse_path_id :: "gostr \<Rightarrow> int res" where
  "parse_path_id v = (case parse_int 64 v of None \<Rightarrow> Inl errBadParam | Some n \<Rightarrow> Inr n)"

section \<open>Validation (validation.go)\<close>

text \<open>The rule notblank, registered with the validator.\<close>

definition notblank :: "gostr option \<Rightarrow> bool" where
  "notblank f = (case f of None \<Rightarrow> False | Some s \<Rightarrow> \<not> is_blank s)"

definition validation_messages :: "(gostr \<times> gostr) list" where
  "validation_messages =
    [(''registerForm.username.notblank'', m_v_user_blank), (''registerForm.username.min'', m_v_user_range),
     (''registerForm.username.max'', m_v_user_range), (''registerForm.password.notblank'', m_v_pass_blank),
     (''registerForm.password.max'', m_v_pass_max), (''registerForm.password.min'', m_v_pass_min),
     (''registerForm.nickname.max'', m_nick_long),
     (''loginForm.username.notblank'', m_v_user_blank), (''loginForm.username.max'', m_v_user_max),
     (''loginForm.password.notblank'', m_v_pass_blank), (''loginForm.password.max'', m_v_pass_max),
     (''RouteRequest.goal.notblank'', m_v_goal_blank), (''RouteRequest.goal.max'', m_v_goal_max),
     (''AgentFeedback.mediaId.required'', m_v_media), (''AgentFeedback.goal.notblank'', m_v_goal_blank),
     (''AgentFeedback.goal.max'', m_v_goal_max), (''AgentFeedback.errorType.max'', m_v_error_type),
     (''AgentFeedback.comment.max'', m_v_comment), (''AgentFeedback.correctedGoal.max'', m_v_corrected),
     (''AgentFeedback.correctedTasks.max'', m_v_tasks), (''AgentFeedback.correctedTasks[].max'', m_v_task),
     (''AgentFeedback.evidenceTimestamp.gte'', m_v_evidence)]"

text \<open>\<^verbatim>\<open>indexRe.ReplaceAllString(ns, "[]")\<close>: a number in brackets becomes a pair of brackets.\<close>

function blank_index :: "gostr \<Rightarrow> gostr" where
  "blank_index [] = []"
| "blank_index (c # cs) = (let ds = takeWhile is_digit cs; rest = dropWhile is_digit cs in
     if c = CHR ''['' \<and> ds \<noteq> [] \<and> rest \<noteq> [] \<and> hd rest = CHR '']'' then ''[]'' @ blank_index (tl rest)
     else c # blank_index cs)"
  by pat_completeness auto
termination
  by (relation "measure length")
     (auto simp: less_Suc_eq_le intro: le_trans [OF diff_le_self length_dropWhile_le])

definition rule_message :: "field_error \<Rightarrow> gostr" where
  "rule_message fe = (case map_of validation_messages (blank_index (fe_namespace fe) @ ''.'' @ fe_tag fe) of
      Some m \<Rightarrow> m | None \<Rightarrow> ''invalid value'')"

definition validate_struct :: "web \<Rightarrow> form \<Rightarrow> unit res" where
  "validate_struct W f = (case w_validator W f of
      Valid \<Rightarrow> Inr ()
    | NotAStruct \<Rightarrow> Inl (InvalidArgument m_bad_params)
    | Invalid fes \<Rightarrow>
        (let detail = join ''; '' (map (\<lambda>fe. fe_field fe @ '': '' @ rule_message fe) fes) in
         Inl (Validation (if detail = [] then m_validation_failed else detail))))"

text \<open>decodeBody: an unreadable and an empty body give the same error.\<close>

definition decode_body :: "(gostr \<Rightarrow> 'a option) \<Rightarrow> request \<Rightarrow> 'a res" where
  "decode_body dec req = (case dec (rq_body req) of None \<Rightarrow> Inl (InvalidArgument m_bad_params) | Some v \<Rightarrow> Inr v)"

section \<open>Responses and middleware (middleware.go)\<close>

abbreviation "UserHeader \<equiv> ''X-Vparser-User''"
abbreviation "CodeHeader \<equiv> ''X-Vparser-Code''"

definition add_headers :: "(gostr \<times> gostr) list \<Rightarrow> response \<Rightarrow> response" where
  "add_headers hs r = r\<lparr>hp_headers := hs @ hp_headers r\<rparr>"

definition write_json :: "web \<Rightarrow> int \<Rightarrow> payload envelope \<Rightarrow> response" where
  "write_json W status res =
     (if w_json_ok W res then \<lparr>hp_status = status, hp_headers = [(''Content-Type'', ''application/json'')], hp_body = Json res\<rparr>
      else \<lparr>hp_status = 500, hp_headers = [(''Content-Type'', ''application/json'')],
            hp_body = Json \<lparr>r_code = 50000, r_message = m_unavailable, r_data = None\<rparr>\<rparr>)"

definition ok_reply :: "web \<Rightarrow> payload option \<Rightarrow> response" where
  "ok_reply W d = write_json W 200 (Ok d)"

definition accepted_reply :: "web \<Rightarrow> response" where
  "accepted_reply W = write_json W 202 (Ok None)"

definition fail_reply :: "web \<Rightarrow> goerr \<Rightarrow> response" where
  "fail_reply W e = (case to_http e of (status, res) \<Rightarrow>
     add_headers [(CodeHeader, itoa (r_code res))] (write_json W status res))"

text \<open>What the recovery middleware answers when a handler panics.\<close>

definition recovered :: "web \<Rightarrow> response" where
  "recovered W = write_json W 500 (Fail CodeInternalError m_unavailable)"

text \<open>The shape of a handler: every \<^verbatim>\<open>fail(c, err); return\<close> ends it with the response of that error.\<close>

definition respond :: "web \<Rightarrow> response opE \<Rightarrow> response op" where
  "respond W m = catchE m (\<lambda>e. ret (fail_reply W e)) ret"

definition req_header :: "request \<Rightarrow> gostr \<Rightarrow> gostr" where
  "req_header req name = (case map_of (rq_headers req) name of None \<Rightarrow> [] | Some v \<Rightarrow> v)"

text \<open>strings.EqualFold against the ASCII text of a scheme and a host.\<close>

definition equal_fold :: "gostr \<Rightarrow> gostr \<Rightarrow> bool" where
  "equal_fold s t = (map (fold_rune \<circ> fst) (runes s) = map (fold_rune \<circ> fst) (runes t))"

definition same_origin :: "request \<Rightarrow> gostr \<Rightarrow> bool" where
  "same_origin req origin = equal_fold origin ((if rq_tls req then ''https'' else ''http'') @ ''://'' @ rq_host req)"

definition invalid_cors :: response where
  "invalid_cors = \<lparr>hp_status = 403, hp_headers = [(''Content-Type'', ''text/plain; charset=utf-8'')],
     hp_body = PlainText ''Invalid CORS request''\<rparr>"

definition preflight :: "request \<Rightarrow> bool" where
  "preflight req = (rq_method req = ''OPTIONS'' \<and> req_header req ''Access-Control-Request-Method'' \<noteq> [])"

definition vary_headers :: "request \<Rightarrow> (gostr \<times> gostr) list" where
  "vary_headers req = (''Vary'', ''Origin'') # (if preflight req
     then [(''Vary'', ''Access-Control-Request-Method''), (''Vary'', ''Access-Control-Request-Headers'')] else [])"

definition allow_headers :: "gostr \<Rightarrow> (gostr \<times> gostr) list" where
  "allow_headers origin = [(''Access-Control-Allow-Origin'', origin), (''Access-Control-Allow-Credentials'', ''true'')]"

definition cors :: "web \<Rightarrow> request \<Rightarrow> response op \<Rightarrow> response op" where
  "cors W req next =
     (let origin = req_header req ''Origin''; requested = req_header req ''Access-Control-Request-Headers'' in
      if origin = [] \<or> same_origin req origin then next
      else if origin \<notin> set (w_origins W) then ret (add_headers (vary_headers req) invalid_cors)
      else if preflight req then
        (if to_upper (req_header req ''Access-Control-Request-Method'') \<notin> {''GET'', ''POST'', ''DELETE'', ''OPTIONS''}
         then ret (add_headers (vary_headers req) invalid_cors)
         else ret \<lparr>hp_status = 200,
           hp_headers = vary_headers req @ allow_headers origin
             @ [(''Access-Control-Allow-Methods'', ''GET,POST,DELETE,OPTIONS'')]
             @ (if requested \<noteq> [] then [(''Access-Control-Allow-Headers'', requested)] else [])
             @ [(''Access-Control-Max-Age'', ''3600'')],
           hp_body = NoBody\<rparr>)
      else bnd next (\<lambda>r. ret (add_headers (vary_headers req @ allow_headers origin) r)))"

text \<open>authRequired: the handler runs with the user of the session, in a context that carries that user to the
  agent client; \<open>En\<close> is the environment as a function of the user in the context.\<close>

definition auth_required :: "web \<Rightarrow> (int option \<Rightarrow> env) \<Rightarrow> request \<Rightarrow> (env \<Rightarrow> int \<Rightarrow> response op) \<Rightarrow> response op" where
  "auth_required W En req next =
     (if rq_method req = ''OPTIONS'' then next (En None) 0
      else catchE (resolve_user (En None) (req_header req ''Authorization''))
        (\<lambda>e. if has_kind e KindForbidden then ret (write_json W 401 (Fail CodeUnauthorized (error_text e)))
             else ret (fail_reply W e))
        (\<lambda>uid. bnd (next (En (Some uid)) uid) (\<lambda>r. ret (add_headers [(UserHeader, itoa uid)] r))))"

section \<open>Facts\<close>

text \<open>A filename in a header is made of bytes that need no quoting there.\<close>

lemma percent_safe: "set (percent c) \<subseteq> {d. is_alnum d \<or> d = CHR ''%''}"
proof -
  have "byte c div 16 < 16" using byte_lt [of c] by simp
  then have "byte c div 16 \<in> set [0..<16]" "byte c mod 16 \<in> set [0..<16]" by simp_all
  moreover have "\<forall>d \<in> set [0..<16]. is_alnum (upper_hex d)" by code_simp
  ultimately show ?thesis by (auto simp: percent_def)
qed

lemma form_url_safe: "set (form_url_encode s) \<subseteq> {c. is_alnum c \<or> c \<in> set ''.-*_+%''}"
  using percent_safe by (fastforce simp: form_url_encode_def form_url_byte_def split: if_splits)

lemma normalize_text_Inr:
  "normalize_text v f = Inr t \<longleftrightarrow> \<not> is_blank v \<and> utf16_len v \<le> 500 \<and> t = trim_space v"
  by (auto simp: normalize_text_def max_goal_length_def)

end
