(* ===== verification/Router.thy ===== *)
theory Router
  imports HttpApi
begin

text \<open>
  The router of internal/httpapi/api.go: every route with its handler, the group middleware, the answers for
  unknown paths and methods, and what holds of every request: a media's data is touched only after its owner
  was checked, and every response has one of the shapes of the contract.
\<close>

named_theorems yield_intros \<open>every result of an operation satisfies a predicate\<close>

section \<open>The routes\<close>

datatype target =
    Public "web \<Rightarrow> env \<Rightarrow> request \<Rightarrow> response op"
  | Authed "web \<Rightarrow> env \<Rightarrow> int \<Rightarrow> request \<Rightarrow> response op"

definition h_health :: "web \<Rightarrow> env \<Rightarrow> request \<Rightarrow> response op" where
  "h_health W E req = ret (ok_reply W (Some (PStr ''UP'')))"

definition h_metrics :: "web \<Rightarrow> env \<Rightarrow> request \<Rightarrow> response op" where
  "h_metrics W E req = ret \<lparr>hp_status = 200, hp_headers = [], hp_body = PlainText (w_metrics W)\<rparr>"

definition routes :: "((gostr \<times> gostr) \<times> target) list" where
  "routes =
    [((''GET'', ''/health''), Public h_health),
     ((''GET'', ''/metrics''), Public h_metrics),
     ((''GET'', ''/user/auth-config''), Public (\<lambda>W E req. ret (h_auth_config W))),
     ((''POST'', ''/user/register''), Public h_register),
     ((''POST'', ''/user/login''), Public h_login),
     ((''POST'', ''/user/logout''), Authed h_logout),
     ((''POST'', ''/media/init-upload''), Authed h_init_upload),
     ((''GET'', ''/media/upload-status''), Authed h_upload_status),
     ((''POST'', ''/media/upload-chunk''), Authed h_upload_chunk),
     ((''POST'', ''/media/complete-upload''), Authed h_complete_upload),
     ((''POST'', ''/media/upload''), Authed h_upload_file),
     ((''POST'', ''/media/upload-url''), Authed h_upload_url),
     ((''POST'', ''/media/instant-upload/challenge''), Authed h_instant_challenge),
     ((''POST'', ''/media/instant-upload''), Authed h_instant_upload),
     ((''GET'', ''/media/list''), Authed h_list_media),
     ((''GET'', ''/media/playback''), Authed h_playback),
     ((''DELETE'', ''/media/delete''), Authed h_delete_media),
     ((''POST'', ''/analysis/route''), Authed h_route),
     ((''POST'', ''/analysis/ai''), Authed h_ai_analyze),
     ((''POST'', ''/analysis/follow-up''), Authed h_follow_up),
     ((''GET'', ''/analysis/evidence-search''), Authed h_evidence_search),
     ((''POST'', ''/analysis/agent-feedback''), Authed h_save_feedback),
     ((''POST'', ''/analysis/agent-revise''), Authed h_revise),
     ((''GET'', ''/analysis/agent-feedback''), Authed h_load_feedback),
     ((''GET'', ''/analysis/agent-plan''), Authed h_agent_plan),
     ((''GET'', ''/analysis/analysis-status''), Authed h_analysis_status),
     ((''GET'', ''/analysis/analysis-events''), Authed h_analysis_events),
     ((''GET'', ''/analysis/agent-evaluation''), Authed h_agent_evaluation),
     ((''GET'', ''/analysis/agent-trace''), Authed h_agent_trace),
     ((''POST'', ''/analysis/transcribe''), Authed h_transcribe),
     ((''GET'', ''/analysis/transcription-status''), Authed h_transcription_status),
     ((''GET'', ''/analysis/transcription-events''), Authed h_transcription_events),
     ((''GET'', ''/analysis/download''), Authed h_download),
     ((''GET'', ''/admin/failed-analysis''), Authed h_failed_latest)]"

text \<open>The one route with a path parameter, \<^verbatim>\<open>/admin/failed-analysis/:id/replay\<close>: its value.\<close>

definition replay_param :: "gostr \<Rightarrow> gostr option" where
  "replay_param path =
     (let pre = ''/admin/failed-analysis/''; post = ''/replay'';
          mid = take (length path - length pre - length post) (drop (length pre) path) in
      if path = pre @ mid @ post \<and> mid \<noteq> [] \<and> CHR ''/'' \<notin> set mid then Some mid else None)"

definition find_target :: "request \<Rightarrow> target option" where
  "find_target req = (case map_of routes (rq_method req, rq_path req) of
      Some t \<Rightarrow> Some t
    | None \<Rightarrow> (case replay_param (rq_path req) of
          Some v \<Rightarrow> if rq_method req = ''POST'' then Some (Authed (\<lambda>W E uid r. h_failed_replay W E uid v)) else None
        | None \<Rightarrow> None))"

definition known_path :: "gostr \<Rightarrow> bool" where
  "known_path path = (path \<in> set (map (snd \<circ> fst) routes) \<or> replay_param path \<noteq> None)"

definition run_target :: "web \<Rightarrow> (int option \<Rightarrow> env) \<Rightarrow> request \<Rightarrow> target \<Rightarrow> response op" where
  "run_target W En req t = (case t of
      Public f \<Rightarrow> f W (En None) req
    | Authed f \<Rightarrow> auth_required W En req (\<lambda>E uid. f W E uid req))"

definition serve :: "web \<Rightarrow> (int option \<Rightarrow> env) \<Rightarrow> request \<Rightarrow> response op" where
  "serve W En req = cors W req
     (case find_target req of
        Some t \<Rightarrow> run_target W En req t
      | None \<Rightarrow> if known_path (rq_path req)
          then ret (write_json W 405 (Fail CodeInvalidArgument m_method))
          else ret (write_json W 404 (Fail CodeNotFound m_resource_missing)))"

section \<open>Which media a call is about\<close>

definition agent_media :: "agent_call \<Rightarrow> int option" where
  "agent_media a = (case a of
      AResult mid goal mode \<Rightarrow> Some mid
    | AReuse mid src goal mode target \<Rightarrow> Some mid
    | ARun owner mid goal mode seed \<Rightarrow> Some mid
    | APurge mid \<Rightarrow> Some mid
    | AStageRevision fb mode \<Rightarrow> fb_media fb
    | ABeginRevision mid goal mode \<Rightarrow> Some mid
    | ACompleteRevision mid goal mode \<Rightarrow> Some mid
    | ACancelRevision mid goal mode \<Rightarrow> Some mid
    | AFollowUp mid goal question mode \<Rightarrow> Some mid
    | ASearch mid query \<Rightarrow> Some mid
    | AClassify goal \<Rightarrow> None
    | ASaveFeedback fb \<Rightarrow> fb_media fb
    | AListFeedback mid \<Rightarrow> Some mid
    | APlan mid goal mode \<Rightarrow> Some mid
    | ATrace mid goal mode \<Rightarrow> Some mid
    | AEvaluation mid goal mode \<Rightarrow> Some mid)"

text \<open>Agent calls, the writes to a row of media_files, and the checkpoints.\<close>

definition media_of :: "call \<Rightarrow> int option" where
  "media_of c = (case c of
      Agent a \<Rightarrow> agent_media a
    | Media (DDeleteMedia mid) \<Rightarrow> Some mid
    | Media (DUpdateAnalysis mid markdown transcript) \<Rightarrow> Some mid
    | Media (DUpdateTranscript mid transcript) \<Rightarrow> Some mid
    | Ledger (DFindPayload mid name) \<Rightarrow> Some mid
    | Ledger (DFindStage mid name) \<Rightarrow> Some mid
    | Ledger (DUpsert mid name stage payload) \<Rightarrow> Some mid
    | Ledger (DUpsertPair mid name name' stage payload) \<Rightarrow> Some mid
    | _ \<Rightarrow> None)"

text \<open>The failed-task ledger as the administrator sees it.\<close>

definition ledger_admin :: "call \<Rightarrow> bool" where
  "ledger_admin c = (case c of
      Ledger (DFindFailed tid) \<Rightarrow> True
    | Ledger (DMarkRequeued tid) \<Rightarrow> True
    | Ledger DLatestFailed \<Rightarrow> True
    | _ \<Rightarrow> False)"

definition about :: "int \<Rightarrow> call \<Rightarrow> bool" where
  "about mid c = ((media_of c = None \<or> media_of c = Some mid) \<and> \<not> ledger_admin c)"

definition anon :: "call \<Rightarrow> bool" where
  "anon c = (media_of c = None \<and> \<not> ledger_admin c)"

definition clerical :: "call \<Rightarrow> bool" where
  "clerical c = (media_of c = None)"

lemma anon_about: "uses anon m \<Longrightarrow> uses (about mid) m"
  by (erule uses_mono) (simp add: anon_def about_def)

lemma anon_clerical: "anon c \<Longrightarrow> clerical c"
  by (simp add: anon_def clerical_def)

lemma anon_simps [simp]:
  "anon (Redis r)" "anon (Kafka k)" "anon (Store x)" "anon (Os oc)" "anon (Agent (AClassify g))"
  "anon (Media (DFindUserByName n))" "anon (Media (DFindUser i))" "anon (Media (DCountUsers n))" "anon (Media (DCreateUser us))"
  "anon (Media (DUpdatePassword i n))" "anon (Media (DFindMedia i))" "anon (Media (DInsertMedia mf))" "anon (Media (DListMedia i))"
  "anon (Media (DFindByHash n))" "anon (Media (DCountRefs ho n))" "anon (Ledger (DInsertFailed t))"
  "clerical (Ledger (DFindFailed i))" "clerical (Ledger (DMarkRequeued i))" "clerical (Ledger DLatestFailed)"
  by (simp_all add: anon_def clerical_def media_of_def agent_media_def ledger_admin_def)

lemma about_simps [simp]:
  "anon c \<Longrightarrow> about mid c" "about mid (Agent a) = (agent_media a = None \<or> agent_media a = Some mid)"
  "about mid (Media (DDeleteMedia i)) = (i = mid)" "about mid (Media (DUpdateAnalysis i md tr)) = (i = mid)"
  "about mid (Media (DUpdateTranscript i md)) = (i = mid)"
  "about mid (Ledger (DFindPayload i n)) = (i = mid)" "about mid (Ledger (DFindStage i n)) = (i = mid)"
  "about mid (Ledger (DUpsert i n st p)) = (i = mid)" "about mid (Ledger (DUpsertPair i n n' st p')) = (i = mid)"
  by (auto simp: about_def anon_def media_of_def ledger_admin_def)

lemma about_agent [simp]:
  "agent_media (AResult mid goal mode) = Some mid" "agent_media (APurge mid) = Some mid" "agent_media (ACancelRevision mid goal mode) = Some mid"
  "agent_media (AStageRevision fb mode) = fb_media fb" "agent_media (AFollowUp mid og q mode) = Some mid"
  "agent_media (ASearch mid q) = Some mid" "agent_media (ASaveFeedback fb) = fb_media fb" "agent_media (AListFeedback mid) = Some mid"
  "agent_media (APlan mid goal mode) = Some mid" "agent_media (ATrace mid goal mode) = Some mid"
  "agent_media (AEvaluation mid goal mode) = Some mid" "agent_media (AClassify goal) = None"
  by (simp_all add: agent_media_def)

lemma normalized_media [simp]: "fb_media (normalized now fb mode) = fb_media fb"
  by (simp add: normalized_def)

lemma anon_lock: "lock_call key c \<Longrightarrow> anon c" "release_call c \<Longrightarrow> anon c"
  by (auto simp: lock_call_def release_call_def split: call.splits redis_call.splits os_call.splits)

lemma anon_basic [use_intros]:
  "uses anon (try_lock E opts key wait)" "uses anon (release_if_held E lk)" "uses anon (now_ms E)"
  "uses anon (publish_event E key ev)" "uses anon (publish_analysis E mid goal mode st sg)"
  "uses anon (publish_transcription E mid st sg)" "uses anon (billing_check E day l uid)" "uses anon (take_token E key b)"
  "uses anon (take_user_then_global E scope uid b1 b2)" "uses anon (try_acquire_quota E uid)" "uses anon (require_ai_quota E D uid)"
  "uses anon (content_hash E mid)" "uses anon (dispatch_hash E mid)" "uses anon (submit_hash E mid revision)" "uses anon (del_key E key)"
  by (auto intro: uses_mono [OF uses_try_lock] uses_mono [OF uses_release_if_held] anon_lock)
     (auto simp: now_ms_def publish_event_def publish_analysis_def publish_transcription_def billing_check_def spent_def take_token_def
        take_user_then_global_def try_acquire_quota_def require_ai_quota_def content_hash_def remember_content_hash_def
        dispatch_hash_def submit_hash_def del_key_def Let_def intro!: use_intros)

lemma anon_storage [use_intros]:
  "uses anon (put_object E name sz)" "uses anon (upload_stream E sz original)" "uses anon (upload_object E name sz)"
  "uses anon (copy_object E name)" "uses anon (object_size E url)" "uses anon (read_range E url off len)"
  "uses anon (remove_object E name)" "uses anon (remove_file E url)" "uses anon (presigned E public source)"
  "uses anon (readable_source E source)" "uses anon (playback_url E source)" "uses anon (upload_local_file E path original pre)"
  unfolding put_object_def upload_stream_def upload_object_def copy_object_def object_size_def read_range_def
    remove_object_def remove_file_def presigned_def readable_source_def playback_url_def upload_local_file_def new_uuid_def Let_def
  by (auto intro!: use_intros)

lemma anon_media [use_intros]:
  "uses anon (invalidate_user_list E uid)" "uses anon (list_by_user E uid)" "uses anon (require_owned_media E mid uid)"
  "uses anon (save_uploaded_media E name url uid hash)" "uses anon (save_reference E name url uid hash)" "uses anon (calculate_md5 E path)"
  "uses anon (ingest_file E sz filename uid)" "uses anon (export_mp3 E mf)" "uses anon (object_lock E mf)"
  by (auto simp: invalidate_user_list_def list_by_user_def require_owned_media_def save_uploaded_media_def save_reference_def
      insert_media_def remove_uploaded_object_def remember_content_hash_def now_ms_def calculate_md5_def ingest_file_def export_mp3_def
      object_lock_def is_regular_def Let_def intro!: use_intros split: proc_result.splits)

lemma anon_merge_chunks [use_intros]: "uses anon (merge_chunks E up out i n acc)"
  by (induction n arbitrary: i acc) (auto simp: Let_def intro!: use_intros split: sum.splits)

lemma anon_upload [use_intros]:
  "uses anon (require_upload E up uid)" "uses anon (initialize_upload E filename tot uid)" "uses anon (uploaded_chunks E up uid)"
  "uses anon (upload_chunk E up idx tot sz path uid)" "uses anon (completed_upload E up uid)" "uses anon (cleanup E up tot)"
  by (auto simp: require_upload_def initialize_upload_def uploaded_chunks_def upload_chunk_def completed_upload_def cleanup_def
      new_uuid_def Let_def intro!: use_intros split: option.splits)

lemma anon_complete [use_intros]:
  "uses anon (merge_upload E up uid filename tot url)" "uses anon (complete_locked E up uid)" "uses anon (complete_upload E up uid)"
proof -
  show merge: "uses anon (merge_upload E up uid filename tot url)" for filename tot url
    by (auto simp: merge_upload_def Let_def intro!: use_intros split: option.splits)
  show "uses anon (complete_locked E up uid)"
    by (auto simp: complete_locked_def Let_def intro!: use_intros merge split: option.splits)
  then show "uses anon (complete_upload E up uid)"
    by (auto simp: complete_upload_def Let_def intro!: use_intros split: option.splits)
qed

lemma anon_find_source [use_intros]: "uses anon (find_source E sz ms)"
  by (induction ms) (auto simp: Let_def intro!: use_intros split: sum.splits)

lemma anon_instant [use_intros]:
  "uses anon (challenge_range E sz)" "uses anon (instant_challenge E uid c)" "uses anon (take_challenge E cid)"
  "uses anon (prove_locked E uid fs off len pf)" "uses anon (instant_prove E uid p)"
  unfolding challenge_range_def instant_challenge_def take_challenge_def prove_locked_def instant_prove_def unlock_def new_uuid_def Let_def
  by (auto intro!: use_intros split: option.splits)

lemma anon_auth [use_intros]:
  "uses anon (resolve_user E a)" "uses anon (revoke_session E a)" "uses anon (require_admin E uid)" "uses anon (hash_password E pw)"
  "uses anon (create_session E uid)" "uses anon (login_ok E n pw us)" "uses anon (login E r)" "uses anon (register_user E code r)"
  by (auto simp: resolve_user_def revoke_session_def require_admin_def hash_password_def create_session_def login_ok_def login_def
      login_attempt_allowed_def record_login_failure_def register_user_def now_ms_def Let_def
      intro!: use_intros split: option.splits sum.splits prod.splits)

lemma clerical_replay: "uses clerical (replay E tid)"
  by (auto simp: replay_def publish_task_def produce_def Let_def anon_clerical intro!: use_intros uses_mono [OF anon_basic(5) anon_clerical]
      uses_mono [OF anon_basic(15) anon_clerical] split: option.splits sum.splits)

lemma anon_streams [use_intros]:
  "uses anon (hub_subscribe E mid typ goal mode st sg)" "uses anon (stream_events W E key)" "uses anon (try_route_quota E uid)"
  "uses anon (route_goal W E uid goal)"
  unfolding hub_subscribe_def stream_events_def try_route_quota_def route_goal_def
  by (auto intro!: use_intros)

lemma about_checkpoint [use_intros]:
  "uses (about mid) (load_context E mid)" "uses (about mid) (load_stage E mid goal mode)" "uses (about mid) (has_result E mid goal mode)"
  unfolding load_context_def load_context_db_def load_stage_def has_result_def cache_field_def cache_stage_def hdel_def Let_def
  by (auto intro!: use_intros split: sum.splits option.splits)

lemma about_status [use_intros]:
  "uses (about mid) (load_result E mid goal mode)" "uses (about mid) (is_active E mid goal mode)"
  "uses (about mid) (current_status E mid goal mode)" "uses (about mid) (require_video_context E mid)"
  unfolding load_result_def is_active_def current_status_def require_video_context_def
  by (auto intro!: use_intros anon_about [OF anon_basic(13)] split: option.splits)

lemma about_submit:
  assumes "mf_id mf = mid" and "\<And>f. revision = Some f \<Longrightarrow> fb_media f = Some mid"
  shows "uses (about mid) (submit_and_reply W E mf goal revision mode)"
proof -
  note anons = anon_about [OF anon_basic(5)] anon_about [OF anon_basic(7)] anon_about [OF anon_basic(10)]
    anon_about [OF anon_basic(14)] anon_about [OF anon_basic(15)]
  show ?thesis
    using assms
    by (auto simp: submit_and_reply_def submit_analysis_def submit_reserved_def submit_fail_def stage_revision_def publish_task_def
        produce_def Let_def intro!: use_intros anons split: option.splits sum.splits)
qed

section \<open>Ownership\<close>

text \<open>The session of the request resolved to \<open>uid\<close>, and the database answered that the media belongs to that user,
  between \<open>h\<close> and \<open>p\<close>.\<close>

definition session_of :: "(int option \<Rightarrow> env) \<Rightarrow> request \<Rightarrow> int \<Rightarrow> hist \<Rightarrow> hist \<Rightarrow> bool" where
  "session_of En req uid h p = (\<exists>tok s. bearer_token (req_header req ''Authorization'') = Inr tok \<and> parse_int 64 s = Some uid \<and>
     made (\<lambda>p c. a_ostr (En None) p c = Inr (Some s)) h (Redis (RGet (session_key (En None) tok))) p)"

definition owned :: "env \<Rightarrow> int \<Rightarrow> int \<Rightarrow> hist \<Rightarrow> hist \<Rightarrow> bool" where
  "owned E uid mid h p = (\<exists>mf. mf_user mf = uid \<and> made (\<lambda>p c. a_media E p c = Inr (Some mf)) h (Media (DFindMedia mid)) p)"

definition admin :: "env \<Rightarrow> int \<Rightarrow> hist \<Rightarrow> hist \<Rightarrow> bool" where
  "admin E uid h p = (\<exists>u. u_role u = ''ADMIN'' \<and> made (\<lambda>p c. a_user E p c = Inr (Some u)) h (Media (DFindUser uid)) p)"

definition may_touch :: "(int option \<Rightarrow> env) \<Rightarrow> request \<Rightarrow> hist \<Rightarrow> hist \<Rightarrow> call \<Rightarrow> bool" where
  "may_touch En req h p c =
    ((\<forall>mid. media_of c = Some mid \<longrightarrow> (\<exists>uid. session_of En req uid h p \<and> owned (En (Some uid)) uid mid h p)) \<and>
     (ledger_admin c \<longrightarrow> (\<exists>uid. session_of En req uid h p \<and> admin (En (Some uid)) uid h p)))"

text \<open>A query by primary key returns the row of that key.\<close>

definition keyed :: "env \<Rightarrow> bool" where
  "keyed E = (\<forall>p mid mf. a_media E p (Media (DFindMedia mid)) = Inr (Some mf) \<longrightarrow> mf_id mf = mid)"

definition in_session :: "(int option \<Rightarrow> env) \<Rightarrow> request \<Rightarrow> int \<Rightarrow> hist \<Rightarrow> hist \<Rightarrow> bool" where
  "in_session En req uid h q = (guarded (may_touch En req h) h q \<and> session_of En req uid h q)"

lemma session_of_snoc: "session_of En req uid h p \<Longrightarrow> session_of En req uid h (p @ [c])"
  unfolding session_of_def by (meson made_later prefix_snoc_self)

lemma owned_snoc: "owned E uid mid h p \<Longrightarrow> owned E uid mid h (p @ [c])"
  unfolding owned_def by (blast intro: made_later [OF _ prefix_snoc_self])

lemma admin_snoc: "admin E uid h p \<Longrightarrow> admin E uid h (p @ [c])"
  unfolding admin_def by (blast intro: made_later [OF _ prefix_snoc_self])

lemma keeps_guarded:
  assumes "uses P m" and "\<And>q c. S q \<Longrightarrow> S (q @ [c])" and "\<And>q c. S q \<Longrightarrow> P c \<Longrightarrow> G q c"
  shows "keeps (\<lambda>q. guarded G h q \<and> S q) m"
  by (rule keeps_uses [OF assms(1)]) (use guarded_append [of G h _ "[_]"] assms(2,3) in auto)

lemma keeps_anon: "uses anon m \<Longrightarrow> keeps (in_session En req uid h) m"
  unfolding in_session_def
  by (rule keeps_guarded [where P = anon]) (auto intro: session_of_snoc simp: anon_def may_touch_def)

lemma keeps_anon_public: "uses anon m \<Longrightarrow> keeps (guarded (may_touch En req h) h) m"
  using keeps_guarded [of anon m "\<lambda>q. True" "may_touch En req h" h] by (simp add: anon_def may_touch_def)

lemma keeps_owned:
  assumes "keyed (En (Some uid))" and tail: "\<And>mf. mf_id mf = mid \<Longrightarrow> uses (about mid) (f mf)"
  shows "keeps (in_session En req uid h) (bindE (require_owned_media (En (Some uid)) mid uid) f)"
proof -
  have *: "in_session En req uid h q \<and> owned (En (Some uid)) uid mid h q" if "in_session En req uid h p"
      "q = p @ [Media (DFindMedia mid)]" "a_media (En (Some uid)) p (Media (DFindMedia mid)) = Inr (Some mf)" "mf_user mf = uid" for p q mf
  proof -
    from that have "prefix h p" by (auto simp: in_session_def dest: guarded_prefix)
    with that have "owned (En (Some uid)) uid mid h q" unfolding owned_def by (blast intro: made_last)
    moreover have "in_session En req uid h q"
      using that by (auto simp: in_session_def may_touch_def media_of_def ledger_admin_def intro!: guarded_append session_of_snoc)
    ultimately show ?thesis by simp
  qed
  have step: "in_session En req uid h (p @ [Media (DFindMedia mid)])" if "in_session En req uid h p" for p
    using that by (auto simp: in_session_def may_touch_def media_of_def ledger_admin_def intro!: guarded_append session_of_snoc)
  have run: "wp (f mf) (\<lambda>r. in_session En req uid h) q"
    if "mf_id mf = mid" "in_session En req uid h q \<and> owned (En (Some uid)) uid mid h q" for mf q
  proof -
    have "keeps (\<lambda>q. guarded (may_touch En req h) h q \<and> (session_of En req uid h q \<and> owned (En (Some uid)) uid mid h q)) (f mf)"
      by (rule keeps_guarded [OF tail [OF that(1)]]) (auto intro: session_of_snoc owned_snoc simp: about_def may_touch_def)
    with that(2) show ?thesis by (auto simp: keeps_wp in_session_def elim!: wp_mono)
  qed
  show ?thesis
    unfolding keeps_wp
  proof (intro allI impI)
    fix p assume p: "in_session En req uid h p"
    have "wp (f mf) (\<lambda>r. in_session En req uid h) (p @ [Media (DFindMedia mid)])"
      if "a_media (En (Some uid)) p (Media (DFindMedia mid)) = Inr (Some mf)" "mf_user mf = uid" for mf
    proof (rule run [OF _ * [OF p refl that]])
      from assms(1) that(1) show "mf_id mf = mid" unfolding keyed_def by blast
    qed
    then show "wp (bindE (require_owned_media (En (Some uid)) mid uid) f) (\<lambda>r. in_session En req uid h) p"
      using step [OF p] by (simp add: require_owned_media_def wp_simps split: sum.splits option.splits)
  qed
qed

lemma keeps_admin:
  assumes tail: "uses clerical (f ())"
  shows "keeps (in_session En req uid h) (bindE (require_admin (En (Some uid)) uid) f)"
  unfolding keeps_wp
proof (intro allI impI)
  fix p assume p: "in_session En req uid h p"
  let ?c = "Media (DFindUser uid)"
  have step: "in_session En req uid h (p @ [?c])"
    using p by (auto simp: in_session_def may_touch_def media_of_def ledger_admin_def intro!: guarded_append session_of_snoc)
  have "wp (f ()) (\<lambda>r. in_session En req uid h) (p @ [?c])"
    if "a_user (En (Some uid)) p ?c = Inr (Some u)" "u_role u = ''ADMIN''" for u
  proof -
    have "prefix h p" using p by (auto simp: in_session_def dest: guarded_prefix)
    with that have "admin (En (Some uid)) uid h (p @ [?c])" unfolding admin_def by (blast intro: made_last)
    moreover have "keeps (\<lambda>q. guarded (may_touch En req h) h q \<and> (session_of En req uid h q \<and> admin (En (Some uid)) uid h q)) (f ())"
      by (rule keeps_guarded [OF tail]) (auto intro: session_of_snoc admin_snoc simp: clerical_def may_touch_def)
    ultimately show ?thesis using step by (auto simp: keeps_wp in_session_def elim!: wp_mono)
  qed
  then show "wp (bindE (require_admin (En (Some uid)) uid) f) (\<lambda>r. in_session En req uid h) p"
    using step by (simp add: require_admin_def wp_simps split: sum.splits option.splits)
qed

lemma uses_respond [use_intros]: "uses P m \<Longrightarrow> uses P (respond W m)"
  unfolding respond_def by (intro use_intros)

lemma keeps_respond [keep_intros]: "keeps J m \<Longrightarrow> keeps J (respond W m)"
  unfolding respond_def by (intro keep_intros)

lemma anon_handlers:
  assumes "\<And>url. uses anon (w_download W url)"
  shows "uses anon (h_route W E uid req)"
    "uses anon (h_init_upload W E uid req)" "uses anon (h_upload_status W E uid req)" "uses anon (h_upload_chunk W E uid req)"
    "uses anon (h_complete_upload W E uid req)" "uses anon (h_upload_file W E uid req)" "uses anon (h_upload_url W E uid req)"
    "uses anon (h_list_media W E uid req)" "uses anon (h_instant_challenge W E uid req)" "uses anon (h_instant_upload W E uid req)"
    "uses anon (h_logout W E uid req)" "uses anon (h_register W E req)" "uses anon (h_login W E req)"
    "uses anon (h_health W E req)" "uses anon (h_metrics W E req)"
  unfolding h_route_def h_init_upload_def h_upload_status_def h_upload_chunk_def
    h_complete_upload_def h_upload_file_def h_upload_url_def h_list_media_def h_instant_challenge_def h_instant_upload_def
    h_logout_def h_register_def h_login_def credentials_def media_reply_def ingest_url_def h_health_def h_metrics_def
  by (auto intro!: use_intros assms split: prod.splits)

lemma uses_interactive [use_intros]: "P (Os (OSubmit ''interactive'')) \<Longrightarrow> P (Os (OAwait ''interactive'')) \<Longrightarrow> uses P fn \<Longrightarrow>
    uses P (run_interactive E fn)"
  unfolding run_interactive_def by (auto intro!: use_intros)

lemma bindE_assoc: "bindE (bindE m f) g = bindE m (\<lambda>x. bindE (f x) g)"
  by (rule state.expand) (auto simp: bindE_def bnd_def ret_def fun_eq_iff split: sum.splits prod.splits)

lemma bindE_okE [simp]: "bindE (okE x) f = f x"
  by (rule state.expand) (auto simp: bindE_def bnd_def okE_def ret_def fun_eq_iff)

lemma keeps_goal_target:
  assumes "keyed (En (Some uid))" and "\<And>mid goal mode. uses (about mid) (f mid goal mode)"
  shows "keeps (in_session En req uid h) (bindE (goal_target (En (Some uid)) uid rq) (\<lambda>(mid, goal, mode). f mid goal mode))"
  unfolding goal_target_def bindE_assoc bindE_okE prod.case
  by (intro keep_intros keeps_owned assms(1)) (intro use_intros assms(2))

lemma about_purge [use_intros]: "uses (about mid) (purge_runtime_artifacts E mid)"
  unfolding purge_runtime_artifacts_def delete_evidence_frames_def delete_frames_def
  by (auto intro!: use_intros anon_about [OF anon_storage(8)] split: option.splits)

lemma about_transcription [use_intros]:
  "uses anon (queue_transcription E mid)" "uses anon (submit_transcription E mid)" "uses anon (reject_queued E mid)"
  "uses anon (transcription_status E mf)"
  by (auto simp: queue_transcription_def submit_transcription_def reject_queued_def transcription_status_def stored_status_def
      tr_set_state_def clear_active_def intro!: use_intros split: option.splits)

lemma owned_handlers:
  assumes "keyed (En (Some uid))"
  shows "keeps (in_session En req uid h) (h_ai_analyze W (En (Some uid)) uid rq)"
    "keeps (in_session En req uid h) (h_follow_up W (En (Some uid)) uid rq)"
    "keeps (in_session En req uid h) (h_evidence_search W (En (Some uid)) uid rq)"
    "keeps (in_session En req uid h) (h_save_feedback W (En (Some uid)) uid rq)"
    "keeps (in_session En req uid h) (h_revise W (En (Some uid)) uid rq)"
    "keeps (in_session En req uid h) (h_load_feedback W (En (Some uid)) uid rq)"
    "keeps (in_session En req uid h) (h_playback W (En (Some uid)) uid rq)"
    "keeps (in_session En req uid h) (h_transcription_status W (En (Some uid)) uid rq)"
    "keeps (in_session En req uid h) (h_transcription_events W (En (Some uid)) uid rq)"
    "keeps (in_session En req uid h) (h_download W (En (Some uid)) uid rq)"
  unfolding h_ai_analyze_def h_follow_up_def h_evidence_search_def h_save_feedback_def h_revise_def h_load_feedback_def
    h_playback_def h_transcription_status_def h_transcription_events_def h_download_def
  by (intro keep_intros keeps_owned assms;
      auto intro!: use_intros about_submit anon_about [OF anon_basic(11)] anon_about [OF anon_storage(11)] anon_about [OF anon_media(8)]
        anon_about [OF about_transcription(4)] anon_about [OF anon_streams(1)] anon_about [OF anon_streams(2)])+

lemma goal_handlers:
  assumes "keyed (En (Some uid))"
  shows "keeps (in_session En req uid h) (h_agent_plan W (En (Some uid)) uid rq)"
    "keeps (in_session En req uid h) (h_agent_evaluation W (En (Some uid)) uid rq)"
    "keeps (in_session En req uid h) (h_agent_trace W (En (Some uid)) uid rq)"
    "keeps (in_session En req uid h) (h_analysis_status W (En (Some uid)) uid rq)"
    "keeps (in_session En req uid h) (h_analysis_events W (En (Some uid)) uid rq)"
  unfolding h_agent_plan_def h_agent_evaluation_def h_agent_trace_def h_analysis_status_def h_analysis_events_def
  by (intro keeps_respond keeps_goal_target assms; auto intro!: use_intros anon_about [OF anon_streams(1)] anon_about [OF anon_streams(2)])+

lemma nested_handlers:
  assumes "keyed (En (Some uid))"
  shows "keeps (in_session En req uid h) (h_delete_media W (En (Some uid)) uid rq)"
    "keeps (in_session En req uid h) (h_transcribe W (En (Some uid)) uid rq)"
  unfolding h_delete_media_def h_transcribe_def delete_owned_media_def transcribe_request_def bindE_assoc
  by (intro keep_intros keeps_owned assms;
      auto simp: Let_def intro!: use_intros anon_about [OF anon_media(1)] anon_about [OF anon_media(9)] anon_about [OF anon_basic(2)]
        anon_about [OF anon_storage(8)] anon_about [OF about_transcription(1)] anon_about [OF about_transcription(2)]
        anon_about [OF about_transcription(3)] split: sum.splits prod.splits)+

lemma admin_handlers:
  "keeps (in_session En req uid h) (h_failed_latest W (En (Some uid)) uid rq)"
  "keeps (in_session En req uid h) (h_failed_replay W (En (Some uid)) uid v)"
  unfolding h_failed_latest_def h_failed_replay_def
  by (intro keeps_respond keeps_admin; intro use_intros clerical_replay; simp)+

definition safe_target :: "web \<Rightarrow> target \<Rightarrow> bool" where
  "safe_target W t = (case t of
      Public f \<Rightarrow> (\<forall>E req. uses anon (f W E req))
    | Authed f \<Rightarrow> (\<forall>En req uid h rq. keyed (En (Some uid)) \<longrightarrow> keeps (in_session En req uid h) (f W (En (Some uid)) uid rq)))"

lemma routes_safe:
  assumes "\<And>url. uses anon (w_download W url)" and "t \<in> snd ` set routes"
  shows "safe_target W t"
proof -
  note anon = anon_handlers [OF assms(1)]
  have "list_all (safe_target W) (map snd routes)"
    unfolding routes_def list.map snd_conv list.pred_inject
    by (simp add: safe_target_def anon owned_handlers goal_handlers nested_handlers admin_handlers keeps_anon uses_ret)
  with assms(2) show ?thesis by (auto simp: list_all_iff)
qed

lemma find_target_cases:
  assumes "find_target req = Some t"
  shows "(t \<in> snd ` set routes \<or> (\<exists>v. t = Authed (\<lambda>W E uid r. h_failed_replay W E uid v))) \<and> rq_method req \<noteq> ''OPTIONS''"
proof (cases "map_of routes (rq_method req, rq_path req)")
  case None
  with assms show ?thesis by (auto simp: find_target_def split: option.splits if_splits)
next
  case (Some t')
  then have "((rq_method req, rq_path req), t') \<in> set routes" by (rule map_of_SomeD)
  moreover have "list_all (\<lambda>((m, p), t). m \<noteq> ''OPTIONS'') routes" by (simp add: routes_def)
  ultimately show ?thesis using assms Some by (force simp: find_target_def list_all_iff)
qed

lemma wp_resolve_user:
  assumes "guarded (may_touch En req h) h p"
  shows "wp (resolve_user (En None) (req_header req ''Authorization''))
    (\<lambda>r q. guarded (may_touch En req h) h q \<and> (\<forall>uid. r = Inr uid \<longrightarrow> session_of En req uid h q)) p"
proof (rule wp_uses_conj [OF anon_auth(1)])
  have "prefix h p" using assms by (rule guarded_prefix)
  then show "wp (resolve_user (En None) (req_header req ''Authorization'')) (\<lambda>r q. \<forall>uid. r = Inr uid \<longrightarrow> session_of En req uid h q) p"
    unfolding resolve_user_def session_of_def
    by (auto simp: wp_simps split: sum.splits option.splits intro!: made_last)
qed (auto intro!: guarded_append [OF assms] guarded_in_list simp: anon_def may_touch_def)

lemma keeps_auth_required:
  assumes "rq_method req \<noteq> ''OPTIONS''" and "\<And>uid. keeps (in_session En req uid h) (next (En (Some uid)) uid)"
  shows "keeps (guarded (may_touch En req h) h) (auth_required W En req next)"
proof -
  have "keeps (\<lambda>q. guarded (may_touch En req h) h q \<and> session_of En req uid h q)
      (bnd (next (En (Some uid)) uid) (\<lambda>r. ret (add_headers hs r)))" for uid hs
    using assms(2) [of uid] unfolding in_session_def [abs_def] by (intro keep_intros) auto
  then show ?thesis
    unfolding auth_required_def if_not_P [OF assms(1)]
    by (intro keeps_catchE_post [where R = "\<lambda>uid q. session_of En req uid h q"] wp_resolve_user keeps_if keeps_ret)
qed

lemma keeps_cors: "keeps J next \<Longrightarrow> keeps J (cors W req next)"
  unfolding cors_def Let_def by (intro keep_intros)

lemma keeps_serve:
  assumes down: "\<And>url. uses anon (w_download W url)" and keyed: "\<And>u. keyed (En u)"
  shows "keeps (guarded (may_touch En req h) h) (serve W En req)"
proof -
  have "keeps (guarded (may_touch En req h) h) (run_target W En req t)" if "find_target req = Some t" for t
  proof -
    from find_target_cases [OF that] have m: "rq_method req \<noteq> ''OPTIONS''"
      and "t \<in> snd ` set routes \<or> (\<exists>v. t = Authed (\<lambda>W E uid r. h_failed_replay W E uid v))" by auto
    then have "safe_target W t"
      using routes_safe [OF down] by (auto simp: safe_target_def intro!: admin_handlers)
    with keyed show ?thesis
      by (cases t) (simp_all add: run_target_def safe_target_def keeps_auth_required [OF m] keeps_anon_public)
  qed
  then show ?thesis unfolding serve_def by (intro keeps_cors keeps_case_option keep_intros) auto
qed

section \<open>The shape of a response\<close>

text \<open>Success carries code 0 and no error header; an error is exactly what ToHTTP makes of it, with its code in the
  header; the middleware and the router refuse with an envelope that has no data; the rest are streams, files, plain
  text and the empty answer to a preflight request.  A response that cannot be encoded, or whose handler panicked,
  is not well formed.\<close>

inductive well_formed :: "response \<Rightarrow> bool" where
  wf_success: "hp_status r \<in> {200, 202} \<Longrightarrow> hp_body r = Json (Ok d) \<Longrightarrow> CodeHeader \<notin> fst ` set (hp_headers r) \<Longrightarrow> well_formed r"
| wf_failure: "to_http e = (hp_status r, res) \<Longrightarrow> hp_body r = Json res \<Longrightarrow>
    map_of (hp_headers r) CodeHeader = Some (itoa (r_code res)) \<Longrightarrow> well_formed r"
| wf_refused: "(hp_status r, c) \<in> {(401, CodeUnauthorized), (404, CodeNotFound), (405, CodeInvalidArgument)} \<Longrightarrow>
    hp_body r = Json (Fail c m) \<Longrightarrow> CodeHeader \<notin> fst ` set (hp_headers r) \<Longrightarrow> well_formed r"
| wf_stream: "hp_status r = 200 \<Longrightarrow> hp_body r = EventFrames fs \<Longrightarrow> well_formed r"
| wf_file: "hp_status r = 200 \<Longrightarrow> hp_body r = FileContent b \<Longrightarrow> well_formed r"
| wf_plain: "hp_status r \<in> {200, 403} \<Longrightarrow> hp_body r = PlainText b \<Longrightarrow> well_formed r"
| wf_empty: "hp_status r = 200 \<Longrightarrow> hp_body r = NoBody \<Longrightarrow> well_formed r"

definition yields :: "('a \<Rightarrow> bool) \<Rightarrow> ('c, 'a) io \<Rightarrow> bool" where
  "yields P m = (\<forall>h. P (result m h))"

definition yieldsE :: "('a \<Rightarrow> bool) \<Rightarrow> ('c, 'e + 'a) io \<Rightarrow> bool" where
  "yieldsE P m = yields (\<lambda>r. \<forall>x. r = Inr x \<longrightarrow> P x) m"

lemma yields_wp: "yields P m \<longleftrightarrow> (\<forall>h. wp m (\<lambda>r q. P r) h)"
  by (simp add: yields_def wp_def)

lemma yields_ret [yield_intros]: "P x \<Longrightarrow> yields P (ret x)"
  by (simp add: yields_wp wp_simps)

lemma yields_bnd [yield_intros]: "(\<And>x. yields P (f x)) \<Longrightarrow> yields P (bnd m f)"
  by (auto simp: yields_wp wp_bnd intro: wp_any)

lemma yields_bnd_post: "yields Q m \<Longrightarrow> (\<And>x. Q x \<Longrightarrow> yields P (f x)) \<Longrightarrow> yields P (bnd m f)"
  unfolding yields_wp wp_bnd by (blast intro: wp_mono)

lemma yields_catchE [yield_intros]: "(\<And>e. yields P (f e)) \<Longrightarrow> (\<And>x. yields P (g x)) \<Longrightarrow> yields P (catchE m f g)"
  unfolding catchE_def by (auto intro!: yield_intros split: sum.splits)

lemma yields_thenI [yield_intros]: "yields P k \<Longrightarrow> yields P (thenI m k)"
  unfolding thenI_def by (intro yield_intros)

lemma yields_if [yield_intros]: "(b \<Longrightarrow> yields P m) \<Longrightarrow> (\<not> b \<Longrightarrow> yields P n) \<Longrightarrow> yields P (if b then m else n)"
  by simp

lemma yieldsE_ok [yield_intros]: "P x \<Longrightarrow> yieldsE P (okE x)" "yieldsE P (failE e)"
  by (simp_all add: yieldsE_def okE_def failE_def yield_intros)

lemma yieldsE_bindE [yield_intros]: "(\<And>x. yieldsE P (f x)) \<Longrightarrow> yieldsE P (bindE m f)"
  unfolding yieldsE_def bindE_def by (auto intro!: yield_intros split: sum.splits)

text \<open>A parameter that was read: the continuation may use what the reading succeeded with.\<close>

lemma yieldsE_read: "(\<And>x. v = Inr x \<Longrightarrow> yieldsE P (f x)) \<Longrightarrow> yieldsE P (bindE (ret v) f)"
  unfolding yieldsE_def yields_wp by (auto simp: wp_simps split: sum.splits)

lemma yieldsE_bnd [yield_intros]: "(\<And>x. yieldsE P (f x)) \<Longrightarrow> yieldsE P (bnd m f)"
  unfolding yieldsE_def by (intro yield_intros)

lemma yieldsE_thenI [yield_intros]: "yieldsE P k \<Longrightarrow> yieldsE P (thenI m k)"
  unfolding yieldsE_def by (intro yield_intros)

lemma yieldsE_lift: "yields P m \<Longrightarrow> yieldsE P (bnd m okE)"
  unfolding yieldsE_def okE_def by (erule yields_bnd_post) (simp add: yield_intros)

lemma yieldsE_option [yield_intros]:
  "(x = None \<Longrightarrow> yieldsE P m) \<Longrightarrow> (\<And>y. x = Some y \<Longrightarrow> yieldsE P (n y)) \<Longrightarrow> yieldsE P (case x of None \<Rightarrow> m | Some y \<Rightarrow> n y)"
  by (simp split: option.splits)

lemma yieldsE_prod [yield_intros]: "(\<And>a b. yieldsE P (m a b)) \<Longrightarrow> yieldsE P (case x of (a, b) \<Rightarrow> m a b)"
  by (simp split: prod.splits)

lemma yieldsE_if [yield_intros]: "(b \<Longrightarrow> yieldsE P m) \<Longrightarrow> (\<not> b \<Longrightarrow> yieldsE P n) \<Longrightarrow> yieldsE P (if b then m else n)"
  by simp

lemma wf_add_headers:
  assumes "well_formed r" and "CodeHeader \<notin> fst ` set hs"
  shows "well_formed (add_headers hs r)"
proof -
  have [simp]: "hp_status (add_headers hs r) = hp_status r" "hp_body (add_headers hs r) = hp_body r"
    "hp_headers (add_headers hs r) = hs @ hp_headers r" by (simp_all add: add_headers_def)
  have hs: "map_of hs CodeHeader = None" using assms(2) by (simp add: map_of_eq_None_iff)
  from assms(1) show ?thesis
  proof cases
    case (wf_success d)
    with assms(2) show ?thesis by (intro well_formed.wf_success [where d = d]) (simp_all add: image_Un)
  next
    case (wf_failure e res)
    then show ?thesis by (intro well_formed.wf_failure [where e = e and res = res]) (simp_all add: map_add_def hs)
  next
    case (wf_refused c m)
    with assms(2) show ?thesis by (intro well_formed.wf_refused [where c = c and m = m]) (simp_all add: image_Un)
  qed (simp_all add: well_formed.wf_stream well_formed.wf_file well_formed.wf_plain well_formed.wf_empty)
qed

text \<open>An encoder that handles every envelope.\<close>

definition encodes :: "web \<Rightarrow> bool" where
  "encodes W = (\<forall>res. w_json_ok W res)"

lemma wf_replies:
  assumes "encodes W"
  shows "well_formed (ok_reply W d)" "well_formed (accepted_reply W)" "well_formed (fail_reply W e)"
    "(status, c) \<in> {(401, CodeUnauthorized), (404, CodeNotFound), (405, CodeInvalidArgument)} \<Longrightarrow> well_formed (write_json W status (Fail c m))"
proof -
  have [simp]: "w_json_ok W res" for res using assms by (simp add: encodes_def)
  show "well_formed (ok_reply W d)"
    by (rule wf_success [where d = d]) (simp_all add: ok_reply_def write_json_def)
  show "well_formed (accepted_reply W)"
    by (rule wf_success [where d = None]) (simp_all add: accepted_reply_def write_json_def)
  obtain st and res :: "payload envelope" where "to_http e = (st, res)" by fastforce
  then show "well_formed (fail_reply W e)"
    by (intro wf_failure [where e = e and res = res]) (simp_all add: fail_reply_def write_json_def add_headers_def)
  show "well_formed (write_json W status (Fail c m))"
    if "(status, c) \<in> {(401, CodeUnauthorized), (404, CodeNotFound), (405, CodeInvalidArgument)}"
    using that by (intro wf_refused [where c = c and m = m]) (auto simp: write_json_def)
qed

lemma yields_respond [yield_intros]: "encodes W \<Longrightarrow> yieldsE well_formed m \<Longrightarrow> yields well_formed (respond W m)"
  unfolding respond_def catchE_def yieldsE_def
  by (erule yields_bnd_post) (auto intro!: yield_intros wf_replies split: sum.splits)

lemma wf_submission: "encodes W \<Longrightarrow> well_formed (submission_response W res)"
  by (cases res) (simp_all add: submission_response_def wf_replies)

lemma yields_submit [yield_intros]: "encodes W \<Longrightarrow> yieldsE well_formed (submit_and_reply W E mf goal revision mode)"
  unfolding submit_and_reply_def by (intro yield_intros wf_submission)

lemma yields_stream [yield_intros]: "yields well_formed (stream_events W E key)"
  unfolding stream_events_def by (intro yield_intros wf_stream) simp_all

lemma yields_route_goal: "encodes W \<Longrightarrow> yields well_formed (route_goal W E uid goal)"
  unfolding route_goal_def general_route_def by (intro yield_intros wf_replies)

lemma shaped_handlers:
  assumes "encodes W"
  shows "yields well_formed (h_failed_latest W E uid req)" "yields well_formed (h_failed_replay W E uid v)"
    "yields well_formed (h_init_upload W E uid req)" "yields well_formed (h_upload_status W E uid req)"
    "yields well_formed (h_upload_chunk W E uid req)" "yields well_formed (h_complete_upload W E uid req)"
    "yields well_formed (h_upload_file W E uid req)" "yields well_formed (h_list_media W E uid req)"
    "yields well_formed (h_instant_challenge W E uid req)" "yields well_formed (h_instant_upload W E uid req)"
    "yields well_formed (h_logout W E uid req)" "yields well_formed (h_ai_analyze W E uid req)"
    "yields well_formed (h_follow_up W E uid req)" "yields well_formed (h_evidence_search W E uid req)"
    "yields well_formed (h_load_feedback W E uid req)" "yields well_formed (h_playback W E uid req)"
    "yields well_formed (h_delete_media W E uid req)" "yields well_formed (h_transcribe W E uid req)"
    "yields well_formed (h_transcription_status W E uid req)"
    "yields well_formed (h_agent_plan W E uid req)" "yields well_formed (h_agent_evaluation W E uid req)"
    "yields well_formed (h_agent_trace W E uid req)" "yields well_formed (h_analysis_status W E uid req)"
  unfolding h_failed_latest_def h_failed_replay_def h_init_upload_def h_upload_status_def h_upload_chunk_def
    h_complete_upload_def h_upload_file_def h_list_media_def h_instant_challenge_def h_instant_upload_def
    h_logout_def h_ai_analyze_def h_follow_up_def h_evidence_search_def h_load_feedback_def h_playback_def h_delete_media_def
    h_transcribe_def h_transcription_status_def h_agent_plan_def h_agent_evaluation_def h_agent_trace_def h_analysis_status_def
    media_reply_def ok_document_def
  by (intro yield_intros assms wf_replies)+

lemma shaped_streams:
  assumes "encodes W"
  shows "yields well_formed (h_analysis_events W E uid req)" "yields well_formed (h_transcription_events W E uid req)"
  unfolding h_analysis_events_def h_transcription_events_def
  by (intro yields_respond assms yieldsE_bindE yieldsE_prod yieldsE_lift yields_stream)+

lemma shaped_download: "encodes W \<Longrightarrow> yields well_formed (h_download W E uid req)"
proof -
  assume W: "encodes W"
  have "yieldsE well_formed (bnd m (\<lambda>r. thenI k (ret r)))" if "yieldsE well_formed m" for m :: "response opE" and k :: "unit opE"
    using that unfolding yieldsE_def by (rule yields_bnd_post) (auto intro!: yield_intros)
  then show ?thesis
    unfolding h_download_def
    by (rule yields_respond [OF W yieldsE_bindE [OF yieldsE_bindE [OF yieldsE_bindE]]]) (intro yield_intros wf_file; simp)
qed

lemma shaped_bodies:
  assumes "encodes W" and "validator_sound W"
  shows "yields well_formed (h_route W E uid req)" "yields well_formed (h_save_feedback W E uid req)"
    "yields well_formed (h_revise W E uid req)"
proof -
  show "yields well_formed (h_route W E uid req)"
    unfolding h_route_def using assms
    by (intro yields_respond yieldsE_read yieldsE_option yieldsE_lift yields_route_goal)
       (auto simp: validator_sound_def notblank_def dest!: validated)
  show "yields well_formed (h_save_feedback W E uid req)"
    unfolding h_save_feedback_def
    by (intro yields_respond assms yieldsE_read yieldsE_option)
       (auto dest!: read_feedback_media [OF assms(2)] intro!: yield_intros wf_replies assms)
  show "yields well_formed (h_revise W E uid req)"
    unfolding h_revise_def
    by (intro yields_respond assms yieldsE_read yieldsE_option)
       (auto dest!: read_feedback_media [OF assms(2)] intro!: yield_intros wf_replies assms)
qed

lemma shaped_auth_result: "encodes W \<Longrightarrow> well_formed (auth_result W r)"
  unfolding auth_result_def by (intro wf_add_headers) (auto simp: wf_replies split: option.splits)

lemma shaped_credentials: "encodes W \<Longrightarrow> yields well_formed (credentials W req fo act)"
  unfolding credentials_def
  by (auto intro!: yields_ret yields_bnd_post [OF yields_respond] yieldsE_bindE yieldsE_ok wf_add_headers shaped_auth_result wf_replies
      simp: attempt_header_def split: sum.splits option.splits)

lemma shaped_upload_url: "encodes W \<Longrightarrow> yields well_formed (h_upload_url W E uid req)"
  unfolding h_upload_url_def media_reply_def
  by (auto intro!: yields_ret yields_bnd_post [OF yields_respond] yieldsE_bindE yieldsE_ok wf_add_headers wf_replies
      simp: source_header_def split: sum.splits)

definition shaped_target :: "web \<Rightarrow> target \<Rightarrow> bool" where
  "shaped_target W t = (case t of
      Public f \<Rightarrow> (\<forall>E req. yields well_formed (f W E req))
    | Authed f \<Rightarrow> (\<forall>E uid req. yields well_formed (f W E uid req)))"

lemma routes_shaped:
  assumes "encodes W" and "validator_sound W" and "t \<in> snd ` set routes"
  shows "shaped_target W t"
proof -
  have [simp]: "well_formed \<lparr>hp_status = 200, hp_headers = [], hp_body = PlainText b\<rparr>" for b
    by (rule wf_plain) auto
  have "list_all (shaped_target W) (map snd routes)"
    unfolding routes_def list.map snd_conv list.pred_inject
    by (simp add: shaped_target_def shaped_handlers [OF assms(1)] shaped_streams [OF assms(1)] shaped_download [OF assms(1)]
        shaped_bodies [OF assms(1,2)] shaped_credentials [OF assms(1)] shaped_upload_url [OF assms(1)] h_register_def h_login_def
        h_health_def h_metrics_def h_auth_config_def yields_ret wf_replies [OF assms(1)])
  with assms(3) show ?thesis by (auto simp: list_all_iff)
qed

lemma shaped_auth:
  assumes "encodes W" and "\<And>E uid. yields well_formed (next E uid)"
  shows "yields well_formed (auth_required W En req next)"
  unfolding auth_required_def
  by (intro yield_intros yields_bnd_post [OF assms(2)] assms(2) wf_add_headers wf_replies assms(1)) auto

lemma shaped_cors:
  assumes "yields well_formed next"
  shows "yields well_formed (cors W req next)"
proof -
  have h: "CodeHeader \<notin> fst ` set (vary_headers req)" "CodeHeader \<notin> fst ` set (vary_headers req @ allow_headers or)" for or
    by (auto simp: vary_headers_def allow_headers_def)
  have i: "well_formed invalid_cors" by (rule wf_plain) (auto simp: invalid_cors_def)
  have e: "well_formed \<lparr>hp_status = 200, hp_headers = hs, hp_body = NoBody\<rparr>" for hs by (rule wf_empty) simp_all
  show ?thesis
    unfolding cors_def Let_def
    by (intro yields_if yields_ret yields_bnd_post [OF assms] assms wf_add_headers h i e)
qed

lemma shaped_serve:
  assumes "encodes W" and "validator_sound W"
  shows "yields well_formed (serve W En req)"
proof -
  have "yields well_formed (run_target W En req t)" if "find_target req = Some t" for t
  proof -
    have "shaped_target W t"
      using find_target_cases [OF that] routes_shaped [OF assms] shaped_handlers(2) [OF assms(1)]
      by (auto simp: shaped_target_def)
    then show ?thesis
      by (cases t) (simp_all add: run_target_def shaped_target_def shaped_auth [OF assms(1)])
  qed
  then show ?thesis
    unfolding serve_def by (intro shaped_cors) (auto intro!: yields_ret wf_replies assms(1) split: option.splits)
qed

section \<open>Properties\<close>

text \<open>Calls about a media come after the session's user was shown to own it, calls of the ledger after that user was shown to be an
  administrator, for a downloader that makes neither.\<close>

lemma serve_authority:
  assumes "\<And>url. uses anon (w_download W url)" and "\<And>u. keyed (En u)"
    and "run_state (serve W En req) h = (r, q)"
    and "c \<in> set (drop (length h) q)"
  shows "\<exists>p. prefix h p \<and> prefix (p @ [c]) q \<and>
    (\<forall>mid. media_of c = Some mid \<longrightarrow> (\<exists>uid. session_of En req uid h p \<and> owned (En (Some uid)) uid mid h p)) \<and>
    (ledger_admin c \<longrightarrow> (\<exists>uid. session_of En req uid h p \<and> admin (En (Some uid)) uid h p))"
proof -
  have "guarded (may_touch En req h) h q"
    using wp_run [OF assms(3) wp_keeps [OF keeps_serve [OF assms(1,2)]]] by simp
  from guarded_mem [OF this assms(4)] show ?thesis by (auto simp: may_touch_def)
qed

lemma request0_session:
  "wp (resolve_user env_own (req_header (request0 m path) ''Authorization'')) Q h =
    Q (Inr 3) (h @ [Redis (RGet (session_key env_own ''0123456789abcdef0123456789abcdef''))])"
proof -
  have "bearer_token (req_header (request0 m path) ''Authorization'') = Inr ''0123456789abcdef0123456789abcdef''"
    by (simp add: bearer_token_def req_header_def request0_def has_prefix_def str_eval utf16_len_def rune_units_def)
  moreover have "parse_int 64 ''3'' = Some 3" by code_simp
  ultimately show ?thesis by (simp add: resolve_user_def wp_simps env_own_def)
qed

lemma request0_serve:
  assumes "map_of routes (m, path) = Some (Authed f)" and "m \<noteq> ''OPTIONS''"
  shows "wp (serve W (\<lambda>u. env_own) (request0 m path)) Q h =
    wp (f W env_own 3 (request0 m path)) (\<lambda>r q. Q (add_headers [(UserHeader, itoa 3)] r) q)
      (h @ [Redis (RGet (session_key env_own ''0123456789abcdef0123456789abcdef''))])"
proof -
  have "req_header (request0 m path) ''Origin'' = []" by (simp add: req_header_def request0_def)
  moreover have "rq_method (request0 m path) = m" "rq_path (request0 m path) = path" by (simp_all add: request0_def)
  ultimately show ?thesis
    using assms
    by (simp add: serve_def cors_def find_target_def run_target_def auth_required_def wp_simps request0_session)
qed

lemma keyed_own: "keyed env_own"
  by (auto simp: keyed_def env_own_def)

text \<open>(C13) The responses are typed: for every request and every behaviour of the services the response is a success
  envelope (200 or 202, code 0), exactly the envelope and status ToHTTP gives an error with that code in the
  header, a refusal of the router or the session check, a stream, a file, plain text or the empty answer to a preflight
  request.  In particular no handler panics, given a validator that accepts a body only with the fields the
  handlers dereference and an encoder that encodes every envelope.\<close>

theorem serve_well_formed:
  assumes "encodes W" and "validator_sound W"
  shows "well_formed (result (serve W En req) h)"
  using shaped_serve [OF assms] by (simp add: yields_def)

theorem serve_well_formed_witness:
  "well_formed (result (serve web0 (\<lambda>u. env_own) (request0 ''POST'' ''/analysis/agent-feedback'')) [])"
proof -
  have "encodes web0" "validator_sound web0" by (auto simp: encodes_def validator_sound_def web0_def split: if_splits)
  then show ?thesis by (rule serve_well_formed)
qed

end
