(* ===== verification/Config.thy ===== *)
theory Config
  imports Http
begin

text \<open>
  The runtime configuration: internal/config/config.go, as a function of the environment variables (os.LookupEnv).
  Integers are 64 bits wide and durations are nanoseconds in an int64, so their arithmetic wraps.  strconv.ParseFloat,
  time.LoadLocation and the verb \<^verbatim>\<open>%q\<close> are library functions the code calls, parameters here.
\<close>

section \<open>Values\<close>

text \<open>What strconv.ParseFloat returns: a float64 may be infinite or not a number.\<close>

datatype go_float = Finite rat | PosInf | NegInf | NaN

definition float_less :: "go_float \<Rightarrow> go_float \<Rightarrow> bool" where
  "float_less x y = (case (x, y) of
      (NaN, _) \<Rightarrow> False | (_, NaN) \<Rightarrow> False
    | (Finite a, Finite b) \<Rightarrow> a < b
    | (NegInf, NegInf) \<Rightarrow> False | (NegInf, _) \<Rightarrow> True | (_, NegInf) \<Rightarrow> False
    | (PosInf, _) \<Rightarrow> False | (_, PosInf) \<Rightarrow> True)"

text \<open>The value of an int64 result that may overflow.\<close>

definition wrap64 :: "int \<Rightarrow> int" where
  "wrap64 n = (n + 2 ^ 63) mod 2 ^ 64 - 2 ^ 63"

type_synonym variables = "gostr \<Rightarrow> gostr option"

record library =
  li_float :: "gostr \<Rightarrow> go_float option"
  li_zone :: "gostr \<Rightarrow> goerr option"
  li_quote :: "gostr \<Rightarrow> gostr"

record config =
  cf_ServerPort :: gostr
  cf_ServerAddress :: gostr
  cf_CORSOrigins :: "gostr list"
  cf_DBHost :: gostr
  cf_DBPort :: gostr
  cf_DBName :: gostr
  cf_DBUser :: gostr
  cf_DBPassword :: gostr
  cf_DBTimezone :: gostr
  cf_DBPoolMax :: int
  cf_DBPoolMinIdle :: int
  cf_InteractiveTimeout :: int
  cf_AgentRunTimeout :: int
  cf_APIKey :: gostr
  cf_ASRURL :: gostr
  cf_ASRModel :: gostr
  cf_RedisHost :: gostr
  cf_RedisPort :: gostr
  cf_RedisDatabase :: int
  cf_RedisPassword :: gostr
  cf_MinioEndpoint :: gostr
  cf_MinioPublicEndpoint :: gostr
  cf_MinioAccessKey :: gostr
  cf_MinioSecretKey :: gostr
  cf_MinioBucket :: gostr
  cf_MinioPublicRead :: bool
  cf_YtDlpPath :: gostr
  cf_FfmpegDir :: gostr
  cf_OCRCommand :: gostr
  cf_KafkaBrokers :: "gostr list"
  cf_AgentGRPCAddr :: gostr
  cf_InternalToken :: gostr
  cf_OTLPEndpoint :: gostr
  cf_ServiceName :: gostr
  cf_BillingDailyLimit :: go_float
  cf_BillingUnlimited :: "int list"
  cf_InviteCode :: gostr
  cf_DemoUsername :: gostr
  cf_DemoPassword :: gostr

section \<open>Reading variables\<close>

definition config_get :: "variables \<Rightarrow> gostr \<Rightarrow> gostr \<Rightarrow> gostr" where
  "config_get L name dflt = (case L name of Some v \<Rightarrow> if v \<noteq> [] then v else dflt | None \<Rightarrow> dflt)"

definition required_env :: "variables \<Rightarrow> gostr \<Rightarrow> gostr res" where
  "required_env L name = (case L name of
      None \<Rightarrow> Inl (Plain (''missing required environment variable '' @ name) None) | Some v \<Rightarrow> Inr v)"

definition env_atoi :: "variables \<Rightarrow> gostr \<Rightarrow> int \<Rightarrow> int" where
  "env_atoi L name dflt = (case atoi (config_get L name []) of Some n \<Rightarrow> n | None \<Rightarrow> dflt)"

definition split_list :: "gostr \<Rightarrow> gostr list" where
  "split_list v = filter (\<lambda>p. p \<noteq> []) (map trim_space (split_on (CHR '','') v))"

definition agent_budget_ms :: "variables \<Rightarrow> int" where
  "agent_budget_ms L = env_atoi L ''AGENT_MAX_DURATION_MS'' 120000"

section \<open>Load\<close>

definition config_init :: "variables \<Rightarrow> config" where
  "config_init L = \<lparr>
     cf_ServerPort = config_get L ''SERVER_PORT'' ''9090'',
     cf_ServerAddress = config_get L ''SERVER_ADDRESS'' ''127.0.0.1'',
     cf_CORSOrigins = split_list (config_get L ''CORS_ALLOWED_ORIGINS'' ''http://localhost:5173,http://127.0.0.1:5173''),
     cf_DBHost = config_get L ''DB_HOST'' ''localhost'',
     cf_DBPort = config_get L ''DB_PORT'' ''3307'',
     cf_DBName = config_get L ''DB_NAME'' ''media_db'',
     cf_DBUser = [],
     cf_DBPassword = [],
     cf_DBTimezone = config_get L ''DB_TIMEZONE'' ''Asia/Shanghai'',
     cf_DBPoolMax = env_atoi L ''DB_POOL_MAX_SIZE'' 10,
     cf_DBPoolMinIdle = env_atoi L ''DB_POOL_MIN_IDLE'' 2,
     cf_InteractiveTimeout = wrap64 (env_atoi L ''AI_INTERACTIVE_TIMEOUT_MS'' 180000 * 1000000),
     cf_AgentRunTimeout = wrap64 (env_atoi L ''AGENT_RUN_TIMEOUT_MS'' (wrap64 (agent_budget_ms L + 60000)) * 1000000),
     cf_APIKey = [],
     cf_ASRURL = config_get L ''ASR_URL'' ''https://api.siliconflow.cn/v1/audio/transcriptions'',
     cf_ASRModel = config_get L ''ASR_MODEL'' ''TeleAI/TeleSpeechASR'',
     cf_RedisHost = config_get L ''REDIS_HOST'' ''localhost'',
     cf_RedisPort = config_get L ''REDIS_PORT'' ''6379'',
     cf_RedisDatabase = env_atoi L ''REDIS_DATABASE'' 0,
     cf_RedisPassword = config_get L ''REDIS_PASSWORD'' [],
     cf_MinioEndpoint = config_get L ''MINIO_ENDPOINT'' ''http://localhost:9000'',
     cf_MinioPublicEndpoint = config_get L ''MINIO_PUBLIC_ENDPOINT'' [],
     cf_MinioAccessKey = [],
     cf_MinioSecretKey = [],
     cf_MinioBucket = config_get L ''MINIO_BUCKET'' ''media'',
     cf_MinioPublicRead = equal_fold (config_get L ''MINIO_PUBLIC_READ'' ''false'') ''true'',
     cf_YtDlpPath = config_get L ''YTDLP_PATH'' ''yt-dlp'',
     cf_FfmpegDir = config_get L ''FFMPEG_DIR'' [],
     cf_OCRCommand = config_get L ''OCR_COMMAND'' ''tesseract'',
     cf_KafkaBrokers = split_list (config_get L ''KAFKA_BROKERS'' ''localhost:9094''),
     cf_AgentGRPCAddr = config_get L ''AGENT_GRPC_ADDR'' ''127.0.0.1:9091'',
     cf_InternalToken = [],
     cf_OTLPEndpoint = config_get L ''OTEL_EXPORTER_OTLP_ENDPOINT'' [],
     cf_ServiceName = config_get L ''OTEL_SERVICE_NAME'' ''server-go'',
     cf_BillingDailyLimit = Finite 0,
     cf_BillingUnlimited = [],
     cf_InviteCode = config_get L ''REGISTRATION_INVITE_CODE'' [],
     cf_DemoUsername = config_get L ''DEMO_USERNAME'' [],
     cf_DemoPassword = config_get L ''DEMO_PASSWORD'' []\<rparr>"

definition load_limit :: "library \<Rightarrow> variables \<Rightarrow> config \<Rightarrow> config res" where
  "load_limit B L c = (let v = config_get L ''BILLING_DAILY_LIMIT_CNY'' [] in
     if v = [] then Inr c
     else case li_float B v of
       None \<Rightarrow> Inl (Plain (''BILLING_DAILY_LIMIT_CNY must be a non-negative number, got '' @ li_quote B v) None)
     | Some limit \<Rightarrow>
         if float_less limit (Finite 0)
         then Inl (Plain (''BILLING_DAILY_LIMIT_CNY must be a non-negative number, got '' @ li_quote B v) None)
         else Inr (c\<lparr>cf_BillingDailyLimit := limit\<rparr>))"

fun load_ids :: "library \<Rightarrow> gostr list \<Rightarrow> config \<Rightarrow> config res" where
  "load_ids B [] c = Inr c"
| "load_ids B (s # ss) c = (case parse_int 64 s of
      None \<Rightarrow> Inl (Plain (''BILLING_UNLIMITED_USER_IDS: '' @ li_quote B s @ '' is not a user id'') None)
    | Some uid \<Rightarrow> load_ids B ss (c\<lparr>cf_BillingUnlimited := cf_BillingUnlimited c @ [uid]\<rparr>))"

definition secrets :: "(gostr \<times> (gostr \<Rightarrow> config \<Rightarrow> config)) list" where
  "secrets = [(''DB_USERNAME'', \<lambda>v. cf_DBUser_update (\<lambda>_. v)), (''DB_PASSWORD'', \<lambda>v. cf_DBPassword_update (\<lambda>_. v)),
     (''MINIO_ACCESS_KEY'', \<lambda>v. cf_MinioAccessKey_update (\<lambda>_. v)), (''MINIO_SECRET_KEY'', \<lambda>v. cf_MinioSecretKey_update (\<lambda>_. v)),
     (''SILICONFLOW_API_KEY'', \<lambda>v. cf_APIKey_update (\<lambda>_. v)), (''INTERNAL_TOKEN'', \<lambda>v. cf_InternalToken_update (\<lambda>_. v))]"

fun load_secrets :: "variables \<Rightarrow> (gostr \<times> (gostr \<Rightarrow> config \<Rightarrow> config)) list \<Rightarrow> config \<Rightarrow> config res" where
  "load_secrets L [] c = Inr c"
| "load_secrets L ((name, dst) # ss) c = (case required_env L name of Inl e \<Rightarrow> Inl e | Inr v \<Rightarrow> load_secrets L ss (dst v c))"

definition load_config :: "library \<Rightarrow> variables \<Rightarrow> config res" where
  "load_config B L = (case load_limit B L (config_init L) of Inl e \<Rightarrow> Inl e
    | Inr c1 \<Rightarrow> (case load_ids B (split_list (config_get L ''BILLING_UNLIMITED_USER_IDS'' [])) c1 of Inl e \<Rightarrow> Inl e
    | Inr c2 \<Rightarrow> (case load_secrets L secrets c2 of Inl e \<Rightarrow> Inl e
    | Inr c \<Rightarrow>
        if cf_KafkaBrokers c = [] then Inl (Plain ''KAFKA_BROKERS must list at least one broker'' None)
        else case li_zone B (cf_DBTimezone c) of
          Some e \<Rightarrow> Inl (Plain (''invalid DB_TIMEZONE '' @ li_quote B (cf_DBTimezone c) @ '': '' @ error_text e) (Some e))
        | None \<Rightarrow> Inr c)))"

definition redis_addr :: "config \<Rightarrow> gostr" where
  "redis_addr c = cf_RedisHost c @ '':'' @ cf_RedisPort c"

section \<open>Lists of values\<close>

definition list_entry :: "gostr \<Rightarrow> bool" where
  "list_entry s = (s \<noteq> [] \<and> trim_space s = s \<and> CHR '','' \<notin> set s)"

lemma split_on_join: "xs \<noteq> [] \<Longrightarrow> list_all list_entry xs \<Longrightarrow> split_on (CHR '','') (join '','' xs) = xs"
  by (induction "'',''" xs rule: join.induct) (simp_all add: list_entry_def split_on_plain split_on_append)

lemma split_list_join: "list_all list_entry xs \<Longrightarrow> split_list (join '','' xs) = xs"
proof (cases "xs = []")
  case False
  assume entries: "list_all list_entry xs"
  then have "map trim_space xs = xs" "filter (\<lambda>p. p \<noteq> []) xs = xs"
    by (induction xs) (simp_all add: list_entry_def)
  with entries False show ?thesis by (simp add: split_list_def split_on_join)
qed (simp add: split_list_def trim_space_def trim_func_def unrunes_def)

text \<open>A list of trimmed, non-empty entries without commas is read back from its comma-separated form.\<close>

interpretation value_list: codec "list_all list_entry" "join '',''" "\<lambda>v. Some (split_list v)"
  by unfold_locales (simp add: split_list_join)

lemma split_list_entries: "list_all (\<lambda>s. s \<noteq> [] \<and> trim_space s = s) (split_list v)"
  by (auto simp: split_list_def list_all_iff)

section \<open>What Load accepts\<close>

definition limit_ok :: "library \<Rightarrow> variables \<Rightarrow> bool" where
  "limit_ok B L = (let v = config_get L ''BILLING_DAILY_LIMIT_CNY'' [] in
     v = [] \<or> (\<exists>f. li_float B v = Some f \<and> \<not> float_less f (Finite 0)))"

definition unlimited_ids :: "variables \<Rightarrow> gostr list" where
  "unlimited_ids L = split_list (config_get L ''BILLING_UNLIMITED_USER_IDS'' [])"

definition limit_of :: "library \<Rightarrow> variables \<Rightarrow> go_float" where
  "limit_of B L = (let v = config_get L ''BILLING_DAILY_LIMIT_CNY'' [] in if v = [] then Finite 0 else the (li_float B v))"

lemma load_limit_cases:
  "load_limit B L (config_init L) = (if limit_ok B L then Inr ((config_init L)\<lparr>cf_BillingDailyLimit := limit_of B L\<rparr>)
     else Inl (Plain (''BILLING_DAILY_LIMIT_CNY must be a non-negative number, got '' @
       li_quote B (config_get L ''BILLING_DAILY_LIMIT_CNY'' [])) None))"
proof -
  have "(config_init L)\<lparr>cf_BillingDailyLimit := Finite 0\<rparr> = config_init L" by (simp add: config_init_def)
  then show ?thesis by (auto simp: load_limit_def limit_ok_def limit_of_def Let_def split: option.splits)
qed

lemma load_ids_spec:
  "load_ids B ss c = Inr c' \<longleftrightarrow> (\<forall>s \<in> set ss. parse_int 64 s \<noteq> None) \<and>
     c' = c\<lparr>cf_BillingUnlimited := cf_BillingUnlimited c @ map (\<lambda>s. the (parse_int 64 s)) ss\<rparr>"
  by (induction B ss c rule: load_ids.induct) (auto split: option.splits)

lemma load_secrets_spec:
  "load_secrets L ss c = Inr c' \<longleftrightarrow> (\<forall>n \<in> set (map fst ss). L n \<noteq> None) \<and> c' = fold (\<lambda>(n, dst). dst (the (L n))) ss c"
  by (induction L ss c rule: load_secrets.induct) (auto simp: required_env_def split: option.splits)

text \<open>The configuration that is loaded, when one is.\<close>

definition config_of :: "library \<Rightarrow> variables \<Rightarrow> config" where
  "config_of B L = fold (\<lambda>(n, dst). dst (the (L n))) secrets
     ((config_init L)\<lparr>cf_BillingDailyLimit := limit_of B L, cf_BillingUnlimited := map (\<lambda>s. the (parse_int 64 s)) (unlimited_ids L)\<rparr>)"

definition loadable :: "library \<Rightarrow> variables \<Rightarrow> bool" where
  "loadable B L = (limit_ok B L \<and> (\<forall>s \<in> set (unlimited_ids L). parse_int 64 s \<noteq> None) \<and>
     (\<forall>n \<in> set (map fst secrets). L n \<noteq> None) \<and>
     split_list (config_get L ''KAFKA_BROKERS'' ''localhost:9094'') \<noteq> [] \<and>
     li_zone B (config_get L ''DB_TIMEZONE'' ''Asia/Shanghai'') = None)"

lemma config_of_fields:
  "cf_KafkaBrokers (config_of B L) = split_list (config_get L ''KAFKA_BROKERS'' ''localhost:9094'')"
  "cf_DBTimezone (config_of B L) = config_get L ''DB_TIMEZONE'' ''Asia/Shanghai''"
  by (simp_all add: config_of_def secrets_def config_init_def)

lemma load_config_spec': "load_config B L = Inr c \<longleftrightarrow> loadable B L \<and> c = config_of B L"
proof (cases "limit_ok B L")
  case True
  let ?c1 = "(config_init L)\<lparr>cf_BillingDailyLimit := limit_of B L\<rparr>"
  let ?c2 = "?c1\<lparr>cf_BillingUnlimited := map (\<lambda>s. the (parse_int 64 s)) (unlimited_ids L)\<rparr>"
  have ids: "load_ids B (unlimited_ids L) ?c1 = Inr c' \<longleftrightarrow> (\<forall>s \<in> set (unlimited_ids L). parse_int 64 s \<noteq> None) \<and> c' = ?c2" for c'
    by (simp add: load_ids_spec config_init_def)
  have sec: "load_secrets L secrets ?c2 = Inr c' \<longleftrightarrow> (\<forall>n \<in> set (map fst secrets). L n \<noteq> None) \<and> c' = config_of B L" for c'
    by (simp only: load_secrets_spec config_of_def)
  have load: "load_config B L = (case load_ids B (unlimited_ids L) ?c1 of Inl e \<Rightarrow> Inl e
    | Inr c2 \<Rightarrow> (case load_secrets L secrets c2 of Inl e \<Rightarrow> Inl e
    | Inr c \<Rightarrow>
        if cf_KafkaBrokers c = [] then Inl (Plain ''KAFKA_BROKERS must list at least one broker'' None)
        else case li_zone B (cf_DBTimezone c) of
          Some e \<Rightarrow> Inl (Plain (''invalid DB_TIMEZONE '' @ li_quote B (cf_DBTimezone c) @ '': '' @ error_text e) (Some e))
        | None \<Rightarrow> Inr c))"
    by (simp add: load_config_def load_limit_cases True unlimited_ids_def)
  show ?thesis
  proof (cases "load_ids B (unlimited_ids L) ?c1")
    case (Inl e)
    then have "\<not> (\<forall>s \<in> set (unlimited_ids L). parse_int 64 s \<noteq> None)" using ids [of ?c2] by auto
    with Inl show ?thesis by (simp add: load loadable_def)
  next
    case (Inr c2)
    with ids [of c2] have c2: "\<forall>s \<in> set (unlimited_ids L). parse_int 64 s \<noteq> None" "c2 = ?c2" by auto
    show ?thesis
    proof (cases "load_secrets L secrets ?c2")
      case secret: (Inl e)
      with sec [of "config_of B L"] have "\<not> (\<forall>n \<in> set (map fst secrets). L n \<noteq> None)" by auto
      with Inr secret c2 show ?thesis by (simp add: load loadable_def del: set_map)
    next
      case secret: (Inr c3)
      with sec [of c3] True Inr c2 show ?thesis
        by (auto simp: load loadable_def config_of_fields simp del: set_map split: option.splits)
    qed
  qed
qed (simp add: load_config_def load_limit_cases loadable_def)

text \<open>The exempt users, in the order of the list.\<close>

lemma load_config_ids:
  assumes "load_config B L = Inr c"
  shows "map (parse_int 64) (unlimited_ids L) = map Some (cf_BillingUnlimited c)"
proof -
  from assms have ok: "loadable B L" and c: "c = config_of B L" by (simp_all add: load_config_spec')
  have "cf_BillingUnlimited c = map (\<lambda>s. the (parse_int 64 s)) (unlimited_ids L)" by (simp add: c config_of_def secrets_def)
  then show ?thesis using ok by (auto simp: loadable_def)
qed

section \<open>Properties\<close>


text \<open>With the limit set to NaN, which ParseFloat reads, the server starts and no user is limited.\<close>

definition library0 :: library where
  "library0 = \<lparr>li_float = (\<lambda>v. if v = ''NaN'' then Some NaN else None), li_zone = (\<lambda>z. None), li_quote = (\<lambda>s. s)\<rparr>"

definition variables0 :: variables where
  "variables0 n = (if n = ''BILLING_DAILY_LIMIT_CNY'' then Some ''NaN''
     else if n \<in> {''KAFKA_BROKERS'', ''BILLING_UNLIMITED_USER_IDS'', ''DB_TIMEZONE''} then None else Some [])"

lemma variables0_loadable: "loadable library0 variables0"
proof -
  have "split_list ''localhost:9094'' = [''localhost:9094'']"
    by (simp add: split_list_def str_eval)
  moreover have "split_list [] = []" by (simp add: split_list_def str_eval)
  ultimately show ?thesis
    by (auto simp: loadable_def limit_ok_def unlimited_ids_def config_get_def variables0_def library0_def float_less_def secrets_def)
qed


text \<open>The gateway waits longer than the agent's own budget: with the run timeout left to its default, and a budget that a
  duration of 64 bits can hold with the added minute, the deadline of a run is the budget plus sixty seconds; the next larger budget overflows to a
  deadline in the past.\<close>

lemma wrap64_id: "- (2 ^ 63) \<le> n \<Longrightarrow> n < 2 ^ 63 \<Longrightarrow> wrap64 n = n"
  by (simp add: wrap64_def)

theorem run_timeout_default:
  assumes "config_get L ''AGENT_RUN_TIMEOUT_MS'' [] = []" and "0 \<le> agent_budget_ms L"
  shows "(agent_budget_ms L \<le> 9223371976854 \<longrightarrow> cf_AgentRunTimeout (config_init L) = (agent_budget_ms L + 60000) * 1000000) \<and>
    (agent_budget_ms L = 9223371976855 \<longrightarrow> cf_AgentRunTimeout (config_init L) < 0)"
proof -
  have "env_atoi L ''AGENT_RUN_TIMEOUT_MS'' d = d" for d
    using assms(1) by (simp add: env_atoi_def parse_int_def)
  then have "cf_AgentRunTimeout (config_init L) = wrap64 (wrap64 (agent_budget_ms L + 60000) * 1000000)" by (simp add: config_init_def)
  moreover have "wrap64 (agent_budget_ms L + 60000) = agent_budget_ms L + 60000" if "agent_budget_ms L \<le> 9223371976855"
    using assms(2) that by (intro wrap64_id) simp_all
  moreover have "wrap64 ((agent_budget_ms L + 60000) * 1000000) = (agent_budget_ms L + 60000) * 1000000" if "agent_budget_ms L \<le> 9223371976854"
    using assms(2) that by (intro wrap64_id) simp_all
  ultimately show ?thesis by (auto simp: wrap64_def)
qed

end
