(* ===== verification/Addresses.thy ===== *)
theory Addresses
  imports Effects
begin

text \<open>
  Which addresses a link may point at: IsDisallowedAddress of internal/ytdlp/ytdlp.go and the predicates of
  net.IP it calls.  An address is a list of 4 or 16 bytes, as net.IP.  The reference is a table of networks in
  CIDR form.
\<close>

unbundle bit_operations_syntax

type_synonym ip = "8 word list"

section \<open>Predicates of net.IP\<close>

definition to4 :: "ip \<Rightarrow> ip option" where
  "to4 ip = (if length ip = 4 then Some ip
     else if length ip = 16 \<and> take 10 ip = replicate 10 0 \<and> ip ! 10 = 0xFF \<and> ip ! 11 = 0xFF then Some (drop 12 ip)
     else None)"

definition ip_unspecified :: "ip \<Rightarrow> bool" where
  "ip_unspecified ip = (to4 ip = Some [0, 0, 0, 0] \<or> ip = replicate 16 0)"

definition ip_loopback :: "ip \<Rightarrow> bool" where
  "ip_loopback ip = (case to4 ip of Some v \<Rightarrow> v ! 0 = 127 | None \<Rightarrow> ip = replicate 15 0 @ [1])"

definition ip_private :: "ip \<Rightarrow> bool" where
  "ip_private ip = (case to4 ip of
      Some v \<Rightarrow> v ! 0 = 10 \<or> (v ! 0 = 172 \<and> v ! 1 AND 0xF0 = 16) \<or> (v ! 0 = 192 \<and> v ! 1 = 168)
    | None \<Rightarrow> length ip = 16 \<and> ip ! 0 AND 0xFE = 0xFC)"

definition ip_multicast :: "ip \<Rightarrow> bool" where
  "ip_multicast ip = (case to4 ip of Some v \<Rightarrow> v ! 0 AND 0xF0 = 0xE0 | None \<Rightarrow> length ip = 16 \<and> ip ! 0 = 0xFF)"

definition ip_link_multicast :: "ip \<Rightarrow> bool" where
  "ip_link_multicast ip = (case to4 ip of
      Some v \<Rightarrow> v ! 0 = 224 \<and> v ! 1 = 0 \<and> v ! 2 = 0
    | None \<Rightarrow> length ip = 16 \<and> ip ! 0 = 0xFF \<and> ip ! 1 AND 0x0F = 0x02)"

definition ip_link_unicast :: "ip \<Rightarrow> bool" where
  "ip_link_unicast ip = (case to4 ip of
      Some v \<Rightarrow> v ! 0 = 169 \<and> v ! 1 = 254
    | None \<Rightarrow> length ip = 16 \<and> ip ! 0 = 0xFE \<and> ip ! 1 AND 0xC0 = 0x80)"

section \<open>IsDisallowedAddress\<close>

definition is_disallowed_address :: "ip \<Rightarrow> bool" where
  "is_disallowed_address ip =
     (if ip_unspecified ip \<or> ip_loopback ip \<or> ip_link_unicast ip \<or> ip_link_multicast ip \<or> ip_private ip \<or> ip_multicast ip then True
      else case to4 ip of
        Some v \<Rightarrow> (let first = v ! 0; second = v ! 1 in
          if first = 0 then True
          else if first = 100 \<and> 64 \<le> second \<and> second \<le> 127 then True
          else if first = 169 \<and> second = 254 then True
          else 240 \<le> first)
      | None \<Rightarrow> if length ip = 16 then ip ! 0 AND 0xFE = 0xFC \<or> (ip ! 0 = 0xFE \<and> ip ! 1 AND 0xC0 = 0xC0) else False)"

section \<open>The reference table\<close>

definition byte_bits :: "8 word \<Rightarrow> bool list" where
  "byte_bits b = map (bit b) (rev [0..<8])"

definition ip_bits :: "ip \<Rightarrow> bool list" where
  "ip_bits ip = concat (map byte_bits ip)"

text \<open>A network: an address of the family and the number of leading bits that count.\<close>

definition in_net :: "ip \<Rightarrow> ip \<times> nat \<Rightarrow> bool" where
  "in_net ip net = (case net of (base, n) \<Rightarrow> length ip = length base \<and> take n (ip_bits ip) = take n (ip_bits base))"

definition blocked_v4 :: "(ip \<times> nat) list" where
  "blocked_v4 = [([0, 0, 0, 0], 8), ([10, 0, 0, 0], 8), ([100, 64, 0, 0], 10), ([127, 0, 0, 0], 8), ([169, 254, 0, 0], 16),
     ([172, 16, 0, 0], 12), ([192, 168, 0, 0], 16), ([224, 0, 0, 0], 4), ([240, 0, 0, 0], 4)]"

definition v6 :: "8 word \<Rightarrow> 8 word \<Rightarrow> 8 word \<Rightarrow> ip" where
  "v6 a b z = a # b # replicate 13 0 @ [z]"

definition blocked_v6 :: "(ip \<times> nat) list" where
  "blocked_v6 = [(v6 0 0 0, 128), (v6 0 0 1, 128), (v6 0xFC 0 0, 7), (v6 0xFE 0x80 0, 10), (v6 0xFE 0xC0 0, 10), (v6 0xFF 0 0, 8)]"

definition mapped :: "ip \<Rightarrow> ip" where
  "mapped v = replicate 10 0 @ [0xFF, 0xFF] @ v"

section \<open>Leading bits of a byte\<close>

lemma length_byte_bits [simp]: "length (byte_bits b) = 8"
  by (simp add: byte_bits_def)

lemma byte_bits_inj: "byte_bits a = byte_bits b \<longleftrightarrow> a = b"
proof
  assume "byte_bits a = byte_bits b"
  then have "bit a i = bit b i" if "i < 8" for i
    using that by (simp add: byte_bits_def)
  then show "a = b" by (intro bit_word_eqI) simp
qed simp

lemma ip_bits_simps [simp]: "ip_bits [] = []" "ip_bits (b # bs) = byte_bits b @ ip_bits bs" "length (ip_bits bs) = 8 * length bs"
  by (induction bs) (simp_all add: ip_bits_def)

lemma ip_bits_inj: "length a = length b \<Longrightarrow> ip_bits a = ip_bits b \<longleftrightarrow> a = b"
  by (induction a b rule: list_induct2) (simp_all add: byte_bits_inj)

text \<open>The masks and comparisons of the code are prefixes of the byte.\<close>

lemma byte_masks:
  "take 4 (byte_bits b) = take 4 (byte_bits 16) \<longleftrightarrow> b AND 0xF0 = 16"
  "take 4 (byte_bits b) = take 4 (byte_bits 0xE0) \<longleftrightarrow> b AND 0xF0 = 0xE0"
  "take 2 (byte_bits b) = take 2 (byte_bits 0x80) \<longleftrightarrow> b AND 0xC0 = 0x80"
  "take 2 (byte_bits b) = take 2 (byte_bits 0xC0) \<longleftrightarrow> b AND 0xC0 = 0xC0"
  "take 7 (byte_bits b) = take 7 (byte_bits 0xFC) \<longleftrightarrow> b AND 0xFE = 0xFC"
  by (subst byte_bits_inj [symmetric], simp add: byte_bits_def upt_rec bit_and_iff)+

lemma nibble_15: "(m :: nat) < 16 \<Longrightarrow> odd (m div 8) \<and> odd (m div 4) \<and> odd (m div 2) \<and> odd m \<longleftrightarrow> m = 15"
proof -
  have "\<forall>m \<in> {0..<16 :: nat}. odd (m div 8) \<and> odd (m div 4) \<and> odd (m div 2) \<and> odd m \<longleftrightarrow> m = 15" by code_simp
  then show "m < 16 \<Longrightarrow> odd (m div 8) \<and> odd (m div 4) \<and> odd (m div 2) \<and> odd m \<longleftrightarrow> m = 15" by simp
qed

lemma bit_byte: "bit (b :: 8 word) i = odd (unat b div 2 ^ i)"
  by (simp add: bit_unsigned_iff flip: bit_iff_odd)

lemma byte_ranges:
  "take 4 (byte_bits b) = take 4 (byte_bits 0xF0) \<longleftrightarrow> 240 \<le> b"
  "take 2 (byte_bits b) = take 2 (byte_bits 64) \<longleftrightarrow> 64 \<le> b \<and> b \<le> 127"
proof -
  let ?n = "unat b"
  have n: "?n < 256" using unsigned_less [of b] by simp
  have d: "?n div 128 = ?n div 16 div 8" "?n div 64 = ?n div 16 div 4" "?n div 32 = ?n div 16 div 2"
    by (simp_all flip: div_mult2_eq)
  have "take 4 (byte_bits b) = take 4 (byte_bits 0xF0) \<longleftrightarrow>
      odd (?n div 16 div 8) \<and> odd (?n div 16 div 4) \<and> odd (?n div 16 div 2) \<and> odd (?n div 16)"
    by (simp add: byte_bits_def upt_rec bit_byte flip: d)
  also have "\<dots> \<longleftrightarrow> ?n div 16 = 15" using n by (intro nibble_15) simp
  also have "\<dots> \<longleftrightarrow> 240 \<le> ?n" using n by linarith
  finally show "take 4 (byte_bits b) = take 4 (byte_bits 0xF0) \<longleftrightarrow> 240 \<le> b" by (simp add: word_le_nat_alt)
  have e: "?n div 128 = ?n div 64 div 2" by (simp flip: div_mult2_eq)
  have "take 2 (byte_bits b) = take 2 (byte_bits 64) \<longleftrightarrow> even (?n div 64 div 2) \<and> odd (?n div 64)"
    by (simp add: byte_bits_def upt_rec bit_byte flip: e)
  also have "\<dots> \<longleftrightarrow> ?n div 64 = 1"
  proof -
    have "?n div 64 \<in> {0, 1, 2, 3}" using n by auto
    then show ?thesis by auto
  qed
  also have "\<dots> \<longleftrightarrow> 64 \<le> ?n \<and> ?n \<le> 127" by linarith
  finally show "take 2 (byte_bits b) = take 2 (byte_bits 64) \<longleftrightarrow> 64 \<le> b \<and> b \<le> 127" by (simp add: word_le_nat_alt)
qed

section \<open>Properties\<close>

lemma in_net_v4:
  "in_net [a, b, c, d] ([w, x, y, z], 8) \<longleftrightarrow> a = w"
  "in_net [a, b, c, d] ([w, x, y, z], 16) \<longleftrightarrow> a = w \<and> b = x"
  "in_net [a, b, c, d] ([w, x, y, z], 10) \<longleftrightarrow> a = w \<and> take 2 (byte_bits b) = take 2 (byte_bits x)"
  "in_net [a, b, c, d] ([w, x, y, z], 12) \<longleftrightarrow> a = w \<and> take 4 (byte_bits b) = take 4 (byte_bits x)"
  "in_net [a, b, c, d] ([w, x, y, z], 4) \<longleftrightarrow> take 4 (byte_bits a) = take 4 (byte_bits w)"
  by (simp_all add: in_net_def byte_bits_inj)

lemmas ip_predicates = ip_unspecified_def ip_loopback_def ip_private_def ip_multicast_def ip_link_multicast_def ip_link_unicast_def

text \<open>The answer depends on an IPv4 address through To4 alone, so the mapped form is treated alike.\<close>

lemma disallowed_to4:
  assumes "to4 ip = Some [a, b, c, d]"
  shows "is_disallowed_address ip \<longleftrightarrow> list_ex (in_net [a, b, c, d]) blocked_v4"
proof -
  have n: "ip \<noteq> replicate 16 0"
  proof
    assume "ip = replicate 16 0"
    moreover have "(replicate 16 (0 :: 8 word)) ! 10 \<noteq> 0xFF" by simp
    ultimately show False using assms by (simp add: to4_def)
  qed
  show ?thesis
    by (simp add: is_disallowed_address_def blocked_v4_def in_net_v4 byte_masks byte_ranges ip_predicates assms n Let_def) auto
qed

lemma to4_mapped: "length v = 4 \<Longrightarrow> to4 v = Some v" "length v = 4 \<Longrightarrow> to4 (mapped v) = Some v"
  by (simp_all add: to4_def mapped_def nth_append)

lemma to4_None: "length ip = 16 \<Longrightarrow> (\<And>v. ip \<noteq> mapped v) \<Longrightarrow> to4 ip = None"
proof (rule ccontr)
  assume l: "length ip = 16" and n: "\<And>v. ip \<noteq> mapped v" and "to4 ip \<noteq> None"
  then have "take 10 ip = replicate 10 0" "ip ! 10 = 0xFF" "ip ! 11 = 0xFF" by (auto simp: to4_def split: if_splits)
  moreover have "drop 10 ip = ip ! 10 # ip ! 11 # drop 12 ip" using l by (simp add: Cons_nth_drop_Suc flip: Cons_nth_drop_Suc)
  ultimately have "ip = mapped (drop 12 ip)" by (metis append_Cons append_Nil append_take_drop_id mapped_def)
  with n show False by blast
qed

lemma in_net_v6:
  assumes "length rest = 14"
  shows "in_net (a # b # rest) (v6 x y z, 8) \<longleftrightarrow> a = x"
    "in_net (a # b # rest) (v6 x y z, 7) \<longleftrightarrow> take 7 (byte_bits a) = take 7 (byte_bits x)"
    "in_net (a # b # rest) (v6 x y z, 10) \<longleftrightarrow> a = x \<and> take 2 (byte_bits b) = take 2 (byte_bits y)"
    "in_net (a # b # rest) (v6 x y z, 128) \<longleftrightarrow> a # b # rest = v6 x y z"
proof -
  have "length (v6 x y z) = 16" by (simp add: v6_def)
  with assms show "in_net (a # b # rest) (v6 x y z, 128) \<longleftrightarrow> a # b # rest = v6 x y z"
    using ip_bits_inj [of "a # b # rest" "v6 x y z"] by (simp add: in_net_def)
qed (use assms in \<open>simp_all add: in_net_def v6_def byte_bits_inj\<close>)

lemma disallowed_v6:
  assumes "length ip = 16" and "to4 ip = None"
  shows "is_disallowed_address ip \<longleftrightarrow> list_ex (in_net ip) blocked_v6"
proof -
  obtain a b rest where ip: "ip = a # b # rest" "length rest = 14"
    using assms(1) by (auto simp: numeral_eq_Suc length_Suc_conv)
  have z: "replicate 16 0 = v6 0 0 0" "replicate 15 0 @ [1] = v6 0 0 1" by (simp_all add: v6_def numeral_eq_Suc)
  show ?thesis
    using ip assms(2)
    by (simp add: is_disallowed_address_def blocked_v6_def in_net_v6 byte_masks ip_predicates z Let_def) auto
qed

text \<open>(C23) The address check is a list of networks: an IPv4 address is refused exactly when it lies in one of nine
  networks (this network, private, shared, loopback, link-local, multicast and class E), written in four bytes or mapped into IPv6,
  so no spelling of an address gets around the check; any other IPv6 address exactly when it is unspecified, loopback, unique-local,
  link-local, site-local or multicast.\<close>

theorem disallowed_networks:
  "(length v = 4 \<longrightarrow> (is_disallowed_address v \<longleftrightarrow> list_ex (in_net v) blocked_v4) \<and>
      (is_disallowed_address (mapped v) \<longleftrightarrow> list_ex (in_net v) blocked_v4)) \<and>
   (length ip = 16 \<and> (\<forall>v. ip \<noteq> mapped v) \<longrightarrow> (is_disallowed_address ip \<longleftrightarrow> list_ex (in_net ip) blocked_v6))"
proof (intro conjI impI)
  assume v: "length v = 4"
  then obtain a b c d where "v = [a, b, c, d]" by (auto simp: numeral_eq_Suc length_Suc_conv)
  with to4_mapped [OF v] show "is_disallowed_address v \<longleftrightarrow> list_ex (in_net v) blocked_v4"
    "is_disallowed_address (mapped v) \<longleftrightarrow> list_ex (in_net v) blocked_v4"
    by (simp_all add: disallowed_to4)
next
  assume "length ip = 16 \<and> (\<forall>v. ip \<noteq> mapped v)"
  then show "is_disallowed_address ip \<longleftrightarrow> list_ex (in_net ip) blocked_v6" by (intro disallowed_v6 to4_None) auto
qed

text \<open>The metadata address of cloud providers, also mapped, and an address of the benchmarking network 198.18.0.0/15.\<close>

theorem disallowed_networks_witness:
  "is_disallowed_address [169, 254, 169, 254] \<and> is_disallowed_address (mapped [169, 254, 169, 254]) \<and>
   is_disallowed_address (v6 0xFD 0 1) \<and> \<not> is_disallowed_address [198, 18, 0, 1]"
proof -
  have "v6 0xFD 0 1 \<noteq> mapped v" for v
  proof
    assume "v6 0xFD 0 1 = mapped v"
    then have "hd (v6 0xFD 0 1) = hd (mapped v)" by (rule arg_cong)
    then show False by (simp add: v6_def mapped_def)
  qed
  moreover have "list_ex (in_net (v6 0xFD 0 1)) blocked_v6" by (simp add: blocked_v6_def v6_def in_net_v6 [unfolded v6_def] byte_masks)
  moreover have "list_ex (in_net [169, 254, 169, 254]) blocked_v4" "\<not> list_ex (in_net [198, 18, 0, 1]) blocked_v4"
    by (simp_all add: blocked_v4_def in_net_v4 byte_masks byte_ranges)
  ultimately show ?thesis
    using disallowed_networks [of "[169, 254, 169, 254]" "v6 0xFD 0 1"] disallowed_networks [of "[198, 18, 0, 1]" "[]"]
    by (simp add: v6_def)
qed

end
