(* ===== verification/Downloader.thy ===== *)
theory Downloader
  imports Router Addresses
begin

text \<open>
  Importing a video by its link: internal/ytdlp/ytdlp.go (the address check and yt-dlp) and bilibili.go
  (the player API and the resuming download).  Parsing a
  URL, encoding a query and decoding the JSON answers of the API are library functions, fields of the
  record \<open>downloader\<close> next to its configuration.
\<close>

section \<open>URLs and the downloader\<close>

record url =
  ur_scheme :: gostr
  ur_host :: gostr
  ur_path :: gostr
  ur_part :: gostr
  ur_text :: gostr

text \<open>\<open>yd_parse\<close> is url.Parse, \<open>yd_ref\<close> URL.Parse of a reference, \<open>yd_with_host\<close> the text of a URL with another host,
  \<open>yd_query\<close> Values.Encode; \<open>yd_envelope\<close>, \<open>yd_pages\<close>, \<open>yd_title\<close> and \<open>yd_play\<close> decode the answers of the API.\<close>

record downloader =
  yd_path :: gostr
  yd_ffmpeg :: gostr
  yd_api :: gostr
  yd_cdn :: "(gostr \<Rightarrow> bool) option"
  yd_tmp :: gostr
  yd_parse :: "gostr \<Rightarrow> url option"
  yd_ref :: "url \<Rightarrow> gostr \<Rightarrow> url option"
  yd_with_host :: "url \<Rightarrow> gostr \<Rightarrow> gostr"
  yd_query :: "(gostr \<times> gostr) list \<Rightarrow> gostr"
  yd_envelope :: "gostr \<Rightarrow> (int \<times> gostr \<times> gostr) option"
  yd_pages :: "gostr \<Rightarrow> (int \<times> int \<times> gostr) list res"
  yd_title :: "gostr \<Rightarrow> gostr res"
  yd_play :: "gostr \<Rightarrow> (gostr \<times> int) list res"

section \<open>yt-dlp (ytdlp.go)\<close>

definition download_timeout :: int where "download_timeout = minutes 30"

definition validate_public_url :: "downloader \<Rightarrow> env \<Rightarrow> gostr \<Rightarrow> unit opE" where
  "validate_public_url D E v = (case yd_parse D v of
      None \<Rightarrow> failE (InvalidArgument m_yd_bad_url)
    | Some u \<Rightarrow>
        if ur_host u = [] \<or> \<not> (equal_fold (ur_scheme u) ''http'' \<or> equal_fold (ur_scheme u) ''https'')
        then failE (InvalidArgument m_yd_bad_url)
        else bindE (ask (a_ips E) (Os (OResolve (ur_host u)))) (\<lambda>ips.
          if ips = [] then failE (InvalidArgument m_yd_no_address)
          else if list_ex is_disallowed_address ips then failE (InvalidArgument m_yd_private)
          else okE ()))"

definition build_args :: "downloader \<Rightarrow> gostr \<Rightarrow> gostr \<Rightarrow> gostr list" where
  "build_args D output raw =
     [''--no-playlist'', ''--socket-timeout'', ''30'', ''--retries'', ''3'', ''--max-filesize'', ''2048M'',
      ''-f'', ''bv*[vcodec^=avc1][ext=mp4]+ba[acodec^=mp4a][ext=m4a]/b[vcodec^=avc1][ext=mp4]/bv*[vcodec^=avc1]+ba[acodec^=mp4a]/b[ext=mp4]/bv*+ba/b'',
      ''--merge-output-format'', ''mp4'', ''--recode-video'', ''mp4'']
     @ (if \<not> is_blank (yd_ffmpeg D) then [''--ffmpeg-location'', yd_ffmpeg D] else [])
     @ [''-o'', output, raw]"

definition classify :: "gostr \<Rightarrow> goerr option" where
  "classify logs = (let has = list_ex (contains (to_lower logs)) in
     if has [''larger than max-filesize'', ''file is larger than''] then Some (Business CodeSourceTooLarge m_yd_too_large)
     else if has [''sign in to confirm'', ''cookies'', ''logged-in'', ''login required'', ''log in'', ''http error 412'',
         ''http error 403'', ''private video'', ''not available in your country'', ''geo restricted'', ''geo-restricted'']
       then Some (Business CodeSourceBlocked m_yd_refused)
     else if has [''unsupported url'', ''no video formats found'', ''requested format is not available'', ''unable to extract'',
         ''http error 404'', ''is not a valid url'']
       then Some (Business CodeSourceUnsupported m_yd_no_video)
     else if has [''timed out'', ''timeout''] then Some (Business CodeSourceTimeout m_yd_site_timeout)
     else None)"

definition tail_bytes :: "gostr \<Rightarrow> nat \<Rightarrow> gostr" where
  "tail_bytes v m = (if length v \<le> m then v else drop (length v - m) v)"

definition temp_mp4 :: "downloader \<Rightarrow> env \<Rightarrow> gostr op" where
  "temp_mp4 D E = bnd (new_uuid E) (\<lambda>i. ret (yd_tmp D @ ''/'' @ i @ ''.mp4''))"

definition remove_temp :: "env \<Rightarrow> gostr \<Rightarrow> unit op" where
  "remove_temp E path = thenI (ask_err (a_err E) (Os (OFile ''remove'' path))) (ret ())"

text \<open>The log is what the process wrote; the deferred removal of the log file comes last.\<close>

definition run_ytdlp :: "downloader \<Rightarrow> env \<Rightarrow> gostr \<Rightarrow> gostr opE" where
  "run_ytdlp D E raw =
     bnd (temp_mp4 D E) (\<lambda>output.
     bindE (ask (a_str E) (Os (OFile ''createTemp'' ''yt-dlp-*.log''))) (\<lambda>log.
     bnd (ask (a_proc E) (Os (OProc (yd_path D) (build_args D output raw)))) (\<lambda>p.
     bnd (case p of
            ProcTimeout \<Rightarrow> thenI (remove_temp E output) (failE (Internal m_yd_timeout None))
          | _ \<Rightarrow> bnd (is_regular E output) (\<lambda>regular.
              let ok = (case p of ProcOk _ \<Rightarrow> True | _ \<Rightarrow> False) in
              if \<not> ok \<or> \<not> regular then
                bnd (ask (a_text E) (Os (OFile ''read'' log))) (\<lambda>logs.
                thenI (remove_temp E output)
                  (case classify logs of
                     Some known \<Rightarrow> failE known
                   | None \<Rightarrow> failE (Internal (m_yd_failed @ tail_bytes logs 2000) None)))
              else okE output)) (\<lambda>r.
     thenI (remove_temp E log) (ret r)))))"

section \<open>Bilibili (bilibili.go)\<close>

abbreviation "biliAPI \<equiv> ''https://api.bilibili.com''"

definition max_download :: int where "max_download = 2 * 2 ^ 30"
definition chunk_size :: int where "chunk_size = 4 * 2 ^ 20"

definition trim_dot :: "gostr \<Rightarrow> gostr" where
  "trim_dot h = (if has_suffix h ''.'' then butlast h else h)"

definition is_bilibili :: "gostr \<Rightarrow> bool" where
  "is_bilibili host = (let h = to_lower (trim_dot host) in
     h = ''b23.tv'' \<or> h = ''bilibili.com'' \<or> has_suffix h ''.bilibili.com'')"

definition bilibili_cdn :: "gostr \<Rightarrow> bool" where
  "bilibili_cdn host = list_ex (has_suffix (to_lower host)) [''.bilivideo.com'', ''.bilivideo.cn'', ''.akamaized.net'', ''.hdslb.com'']"

text \<open>The leftmost match of \<^verbatim>\<open>BV[0-9A-Za-z]{10}\<close>.\<close>

fun find_bv :: "gostr \<Rightarrow> gostr option" where
  "find_bv [] = None"
| "find_bv (c # cs) =
     (if has_prefix (c # cs) ''BV'' \<and> 12 \<le> length (c # cs) \<and> list_all is_alnum (take 10 (drop 2 (c # cs)))
      then Some (take 12 (c # cs)) else find_bv cs)"

definition bilibili_target :: "url \<Rightarrow> (gostr \<times> int) option" where
  "bilibili_target u = (case find_bv (ur_path u) of
      None \<Rightarrow> None
    | Some bv \<Rightarrow> Some (bv, case atoi (ur_part u) of None \<Rightarrow> 1 | Some p \<Rightarrow> if p < 1 then 1 else p))"

definition bili_api_base :: "downloader \<Rightarrow> gostr" where
  "bili_api_base D = (if yd_api D \<noteq> [] then yd_api D else biliAPI)"

definition resolve_short_link :: "downloader \<Rightarrow> env \<Rightarrow> url \<Rightarrow> url opE" where
  "resolve_short_link D E u =
     bnd (ask (a_get E) (Os (OGet (ur_text u) None))) (\<lambda>g. case g of
       GetError e \<Rightarrow> failE (Business CodeSourceTimeout m_bl_connect)
     | GetResp status location pieces broken \<Rightarrow>
         (case yd_ref D u location of
            None \<Rightarrow> failE (Business CodeSourceUnsupported m_bl_short)
          | Some next \<Rightarrow>
              if \<not> is_bilibili (ur_host next) \<or> equal_fold (ur_host next) ''b23.tv''
              then failE (Business CodeSourceUnsupported m_bl_short) else okE next))"

text \<open>biliGet: the data of the envelope.  The decoder sees at most 4 MB of the body.\<close>

definition bili_get :: "downloader \<Rightarrow> env \<Rightarrow> gostr \<Rightarrow> (gostr \<times> gostr) list \<Rightarrow> gostr opE" where
  "bili_get D E path q =
     bnd (ask (a_get E) (Os (OGet (bili_api_base D @ path @ ''?'' @ yd_query D q) None))) (\<lambda>g. case g of
       GetError e \<Rightarrow> failE (Business CodeSourceTimeout m_bl_connect)
     | GetResp status location pieces broken \<Rightarrow>
         (case (if status = 200 then yd_envelope D (take (4 * 2 ^ 20) (concat pieces)) else None) of
            None \<Rightarrow> failE (Business CodeSourceBlocked (m_bl_http_a @ itoa status @ m_bl_http_b))
          | Some (code, message, payload) \<Rightarrow>
              if code \<noteq> 0 then failE (Business CodeSourceBlocked (m_bl_gone @ m_bl_colon @ trim_space message))
              else okE payload))"

definition bili_mirror_hosts :: "gostr list" where
  "bili_mirror_hosts = [''upos-sz-mirrorcosov.bilivideo.com'', [], ''upos-sz-mirrorcos.bilivideo.com'', ''upos-sz-mirrorali.bilivideo.com'']"

text \<open>The loop that keeps the first occurrence of each text.\<close>

fun dedup :: "gostr list \<Rightarrow> gostr list \<Rightarrow> gostr list" where
  "dedup seen [] = []"
| "dedup seen (s # ss) = (if s \<in> set seen then dedup seen ss else s # dedup (s # seen) ss)"

definition bilibili_mirrors :: "downloader \<Rightarrow> gostr \<Rightarrow> gostr list" where
  "bilibili_mirrors D src = (case yd_parse D src of
      None \<Rightarrow> [src]
    | Some u \<Rightarrow> if \<not> has_prefix (ur_path u) ''/upgcxcode/'' \<or> \<not> bilibili_cdn (ur_host u) then [src]
        else dedup [] (map (\<lambda>h. if h \<noteq> [] then yd_with_host D u h else ur_text u) bili_mirror_hosts))"

subsection \<open>One range of a file\<close>

text \<open>The Read calls on a body, each written at its offset; a Read fills at most the 64 KB buffer and never goes past
  the range.\<close>

fun write_pieces :: "env \<Rightarrow> gostr \<Rightarrow> int \<Rightarrow> int \<Rightarrow> gostr list \<Rightarrow> int opE" where
  "write_pieces E path hi pos [] = okE pos"
| "write_pieces E path hi pos (b # bs) =
     (if hi < pos then okE pos
      else let k = take (nat (min 65536 (hi - pos + 1))) b in
        if k = [] then write_pieces E path hi pos bs
        else bindE (ask_err (a_err E) (Os (OWriteAt path pos k))) (\<lambda>_. write_pieces E path hi (pos + int (length k)) bs))"

text \<open>The loop of fetchRange.  A round without progress leaves the position where it was.\<close>

function range_loop :: "env \<Rightarrow> gostr list \<Rightarrow> gostr \<Rightarrow> int \<Rightarrow> int \<Rightarrow> nat \<Rightarrow> nat \<Rightarrow> unit opE" where
  "range_loop E mirrors path hi pos mirror stalls =
     (if hi < pos then okE ()
      else bnd (ask (a_get E) (Os (OGet (mirrors ! mirror) (Some (pos, Some hi))))) (\<lambda>g.
        bindE (case g of
                 GetResp status location pieces broken \<Rightarrow> if status = 206 then write_pieces E path hi pos pieces else okE pos
               | GetError e \<Rightarrow> okE pos) (\<lambda>pos'.
        if hi < pos' then okE ()
        else bindE (ask_err (a_err E) (Os OCtxErr)) (\<lambda>_.
          if pos < pos' then range_loop E mirrors path hi pos' mirror 0
          else if 3 \<le> stalls + 1 then
            (if length mirrors \<le> mirror + 1 then failE (Business CodeSourceTimeout m_bl_cut_often)
             else bindE (ask_err (a_err E) (Os (OSleep 0))) (\<lambda>_. range_loop E mirrors path hi pos (mirror + 1) 0))
          else bindE (ask_err (a_err E) (Os (OSleep (seconds (int stalls + 1))))) (\<lambda>_.
            range_loop E mirrors path hi pos mirror (stalls + 1))))))"
  by pat_completeness auto
termination
  by (relation "measures [\<lambda>(E, ms, path, hi, pos, mirror, stalls). nat (hi + 1 - pos),
      \<lambda>(E, ms, path, hi, pos, mirror, stalls). length ms - mirror, \<lambda>(E, ms, path, hi, pos, mirror, stalls). 3 - stalls]") auto

declare range_loop.simps [simp del]

definition fetch_range :: "env \<Rightarrow> gostr list \<Rightarrow> gostr \<Rightarrow> int \<Rightarrow> int \<Rightarrow> unit opE" where
  "fetch_range E mirrors path start hi = range_loop E mirrors path hi start 0 0"

text \<open>The starts of the ranges, and the last byte of each.\<close>

function chunk_starts :: "int \<Rightarrow> int \<Rightarrow> int list" where
  "chunk_starts sz start = (if start < sz then start # chunk_starts sz (start + chunk_size) else [])"
  by pat_completeness auto
termination
  by (relation "measure (\<lambda>(sz, start). nat (sz - start))") (auto simp: chunk_size_def)

declare chunk_starts.simps [simp del]

definition chunk_last :: "int \<Rightarrow> int \<Rightarrow> int" where
  "chunk_last sz start = min (start + chunk_size) sz - 1"

definition deadline_passed :: "env \<Rightarrow> goerr option op" where
  "deadline_passed E = ask (a_err E) (Os (OAwait ''download''))"

text \<open>After a failure the file is closed and removed.\<close>

definition discard_on_error :: "env \<Rightarrow> gostr \<Rightarrow> 'a opE \<Rightarrow> 'a opE" where
  "discard_on_error E out m = catchE m (\<lambda>e. thenI (remove_temp E out) (failE e)) okE"

text \<open>A new file under the temporary directory, filled; after a failure it is removed.\<close>

definition into_temp :: "downloader \<Rightarrow> env \<Rightarrow> (gostr \<Rightarrow> unit opE) \<Rightarrow> gostr opE" where
  "into_temp D E fill =
     bnd (temp_mp4 D E) (\<lambda>out.
     bindE (ask_err (a_err E) (Os (OFile ''create'' out))) (\<lambda>_.
     bindE (discard_on_error E out (fill out)) (\<lambda>_. okE out)))"

text \<open>The eight workers take the ranges from a channel; here the ranges are fetched one after the other.\<close>

definition fill_chunks :: "downloader \<Rightarrow> env \<Rightarrow> gostr \<Rightarrow> int \<Rightarrow> gostr \<Rightarrow> unit opE" where
  "fill_chunks D E src sz out =
     bindE (ask_err (a_err E) (Os (OFile ''truncate'' out))) (\<lambda>_.
     bindE (forE (chunk_starts sz 0)
       (\<lambda>start. fetch_range E (bilibili_mirrors D src) out start (chunk_last sz start))) (\<lambda>_.
     bindE (ask_err (a_err E) (Os OCtxErr)) (\<lambda>_.
     bnd (deadline_passed E) (\<lambda>late. case late of
       Some e \<Rightarrow> failE (Internal m_yd_timeout (Some e))
     | None \<Rightarrow> bindE (ask_err (a_err E) (Os (OFile ''close'' out))) (\<lambda>_. okE ())))))"

definition fetch_chunks :: "downloader \<Rightarrow> env \<Rightarrow> gostr \<Rightarrow> int \<Rightarrow> gostr opE" where
  "fetch_chunks D E src sz =
     (if max_download < sz then failE (Business CodeSourceTooLarge m_yd_too_large)
      else into_temp D E (fill_chunks D E src sz))"

subsection \<open>A file in one connection\<close>

text \<open>io.Copy of a limited body to the end of the file: the new length, and the error that ended the copy.\<close>

fun copy_pieces :: "env \<Rightarrow> gostr \<Rightarrow> int \<Rightarrow> gostr list \<Rightarrow> bool \<Rightarrow> (int \<times> goerr option) op" where
  "copy_pieces E path n [] broken = ret (n, if broken then Some (Plain ''unexpected EOF'' None) else None)"
| "copy_pieces E path n (b # bs) broken =
     (let k = take (nat (max_download + 1 - n)) b in
      if k = [] then copy_pieces E path n bs broken
      else catchE (ask_err (a_err E) (Os (OWriteAt path n k))) (\<lambda>e. ret (n, Some e))
             (\<lambda>_. copy_pieces E path (n + int (length k)) bs broken))"

text \<open>What a response means for the transfer: another try, a refusal, a server that ignored the range, or bytes.\<close>

datatype transfer = Again goerr | Refused int | NoRange | Bytes "gostr list" bool

definition transfer_of :: "int \<Rightarrow> get_result \<Rightarrow> transfer" where
  "transfer_of n g = (case g of
      GetError e \<Rightarrow> Again e
    | GetResp status location pieces broken \<Rightarrow>
        if 500 \<le> status \<or> status = 429 then Again (Plain (''cdn answered HTTP '' @ itoa status) None)
        else if status \<noteq> 200 \<and> status \<noteq> 206 then Refused status
        else if 0 < n \<and> status \<noteq> 206 then NoRange
        else Bytes pieces broken)"

text \<open>The loop of fetchFile from \<open>n\<close> bytes on; it returns the number of bytes written.  \<open>copied\<close> is the length after
  this round and the error that ended it.\<close>

function file_loop :: "env \<Rightarrow> gostr list \<Rightarrow> gostr \<Rightarrow> int \<Rightarrow> int \<Rightarrow> nat \<Rightarrow> nat \<Rightarrow> int opE" where
  "file_loop E mirrors path sz n mirror stalls =
     bnd (ask (a_get E) (Os (OGet (mirrors ! mirror) (if 0 < n then Some (n, None) else None)))) (\<lambda>g.
     case transfer_of n g of
       Refused status \<Rightarrow>
         if mirror + 1 < length mirrors then file_loop E mirrors path sz n (mirror + 1) 0
         else failE (Business CodeSourceBlocked (m_bl_cdn_a @ itoa status @ m_bl_http_b))
     | NoRange \<Rightarrow>
         if mirror + 1 < length mirrors then file_loop E mirrors path sz n (mirror + 1) 0
         else failE (Business CodeSourceTimeout m_bl_cut)
     | t \<Rightarrow>
         bnd (case t of Bytes pieces broken \<Rightarrow> copy_pieces E path n pieces broken | Again e \<Rightarrow> ret (n, Some e)
              | _ \<Rightarrow> ret (n, None)) (\<lambda>(n', err).
         if max_download < n' then failE (Business CodeSourceTooLarge m_yd_too_large)
         else case (if err = None \<and> 0 < sz \<and> n' < sz then Some (Plain ''unexpected EOF'' None) else err) of
           None \<Rightarrow> okE n'
         | Some e \<Rightarrow>
             bindE (ask_err (a_err E) (Os OCtxErr)) (\<lambda>_.
             bnd (deadline_passed E) (\<lambda>late.
             if late \<noteq> None then failE (Internal m_yd_timeout (Some e))
             else if n < n' then
               catchE (ask_err (a_err E) (Os (OSleep (seconds 1)))) (\<lambda>ce. failE (Internal m_yd_timeout (Some ce)))
                 (\<lambda>_. file_loop E mirrors path sz n' mirror 0)
             else if 4 \<le> stalls + 1 \<and> mirror + 1 < length mirrors then file_loop E mirrors path sz n (mirror + 1) 0
             else if 5 \<le> stalls + 1 then failE (Business CodeSourceTimeout m_bl_cut_often)
             else catchE (ask_err (a_err E) (Os (OSleep (seconds (int stalls + 2))))) (\<lambda>ce. failE (Internal m_yd_timeout (Some ce)))
                    (\<lambda>_. file_loop E mirrors path sz n mirror (stalls + 1))))))"
  by pat_completeness auto
termination
  by (relation "measures [\<lambda>(E, ms, path, sz, n, mirror, stalls). nat (max_download + 1 - n),
      \<lambda>(E, ms, path, sz, n, mirror, stalls). length ms - mirror, \<lambda>(E, ms, path, sz, n, mirror, stalls). 5 - stalls]") auto

declare file_loop.simps [simp del]

definition fill_file :: "downloader \<Rightarrow> env \<Rightarrow> gostr \<Rightarrow> int \<Rightarrow> gostr \<Rightarrow> unit opE" where
  "fill_file D E src sz out =
     bindE (file_loop E (bilibili_mirrors D src) out sz 0 0 0) (\<lambda>n.
     bindE (ask_err (a_err E) (Os (OFile ''close'' out))) (\<lambda>_.
     if n = 0 then failE (Business CodeSourceUnsupported m_bl_empty) else okE ()))"

definition fetch_file :: "downloader \<Rightarrow> env \<Rightarrow> gostr \<Rightarrow> int \<Rightarrow> gostr opE" where
  "fetch_file D E src sz = into_temp D E (fill_file D E src sz)"

subsection \<open>A video\<close>

text \<open>Which part of the page list is meant, and the name of the import.\<close>

definition pick_page :: "(int \<times> int \<times> gostr) list \<Rightarrow> int \<Rightarrow> (int \<times> int \<times> gostr) option" where
  "pick_page pages part = (let k = (if int (length pages) < part then 1 else part) in
     if pages = [] then None else Some (pages ! nat (k - 1)))"

definition import_name :: "gostr \<Rightarrow> gostr option \<Rightarrow> (int \<times> int \<times> gostr) list \<Rightarrow> (int \<times> int \<times> gostr) \<Rightarrow> gostr" where
  "import_name bv title pages pg =
     (case title of Some t \<Rightarrow> if \<not> is_blank t then t else bv | None \<Rightarrow> bv)
     @ (if 1 < length pages then '' P'' @ itoa (fst (snd pg)) @ '' '' @ snd (snd pg) else [])"

definition cdn_allowed :: "downloader \<Rightarrow> gostr \<Rightarrow> bool" where
  "cdn_allowed D host = (case yd_cdn D of None \<Rightarrow> bilibili_cdn host | Some f \<Rightarrow> f host)"

definition fetch_media :: "downloader \<Rightarrow> env \<Rightarrow> (gostr \<times> int) list \<Rightarrow> gostr opE" where
  "fetch_media D E play = (case play of
      [(src, sz)] \<Rightarrow>
        if max_download < sz then failE (Business CodeSourceTooLarge m_yd_too_large)
        else (case yd_parse D src of
            None \<Rightarrow> failE (Business CodeSourceUnsupported m_bl_off_cdn)
          | Some media \<Rightarrow>
              if \<not> cdn_allowed D (ur_host media) then failE (Business CodeSourceUnsupported m_bl_off_cdn)
              else if chunk_size < sz then fetch_chunks D E (ur_text media) sz
              else fetch_file D E (ur_text media) sz)
    | _ \<Rightarrow> failE (Business CodeSourceUnsupported m_bl_no_file))"

definition bili_pages :: "downloader \<Rightarrow> env \<Rightarrow> gostr \<Rightarrow> (int \<times> int \<times> gostr) list opE" where
  "bili_pages D E bv = bindE (bili_get D E ''/x/player/pagelist'' [(''bvid'', bv)]) (\<lambda>d. ret (yd_pages D d))"

definition bili_title :: "downloader \<Rightarrow> env \<Rightarrow> gostr \<Rightarrow> gostr option op" where
  "bili_title D E bv =
     catchE (bindE (bili_get D E ''/x/web-interface/view'' [(''bvid'', bv)]) (\<lambda>d. ret (yd_title D d))) (\<lambda>e. ret None) (\<lambda>t. ret (Some t))"

definition bili_play :: "downloader \<Rightarrow> env \<Rightarrow> gostr \<Rightarrow> int \<Rightarrow> (gostr \<times> int) list opE" where
  "bili_play D E bv cid =
     bindE (bili_get D E ''/x/player/playurl'' [(''bvid'', bv), (''cid'', itoa cid), (''qn'', ''64''), (''fnval'', ''1''),
       (''platform'', ''html5''), (''high_quality'', ''1'')]) (\<lambda>d. ret (yd_play D d))"

definition download_bilibili :: "downloader \<Rightarrow> env \<Rightarrow> url \<Rightarrow> (gostr \<times> gostr) opE" where
  "download_bilibili D E u0 =
     bindE (if equal_fold (ur_host u0) ''b23.tv'' then resolve_short_link D E u0 else okE u0) (\<lambda>u.
     case bilibili_target u of
       None \<Rightarrow> failE (Business CodeSourceUnsupported m_bl_no_bv)
     | Some (bv, part) \<Rightarrow>
         bindE (bili_pages D E bv) (\<lambda>pages.
         case pick_page pages part of
           None \<Rightarrow> failE (Business CodeSourceUnsupported m_bl_no_pages)
         | Some pg \<Rightarrow>
             bnd (bili_title D E bv) (\<lambda>title.
             bindE (bili_play D E bv (fst pg)) (\<lambda>play.
             bindE (fetch_media D E play) (\<lambda>path. okE (path, import_name bv title pages pg))))))"

definition download :: "downloader \<Rightarrow> env \<Rightarrow> gostr \<Rightarrow> (gostr \<times> gostr) opE" where
  "download D E raw =
     bindE (validate_public_url D E raw) (\<lambda>_.
     let rest = bindE (run_ytdlp D E raw) (\<lambda>path. okE (path, [])) in
     case yd_parse D raw of
       Some u \<Rightarrow> if is_bilibili (ur_host u) then download_bilibili D E u else rest
     | None \<Rightarrow> rest)"

section \<open>Where requests go\<close>

text \<open>The requests of the Bilibili branch: the link itself when it is a short link, the API, or a mirror of a media URL on
  the CDN.\<close>

definition video_url :: "downloader \<Rightarrow> gostr \<Rightarrow> gostr \<Rightarrow> bool" where
  "video_url D raw target = (\<exists>u. yd_parse D raw = Some u \<and> is_bilibili (ur_host u) \<and>
     ((target = ur_text u \<and> equal_fold (ur_host u) ''b23.tv'') \<or>
      has_prefix target (bili_api_base D @ ''/x/'') \<or>
      (\<exists>m media. yd_parse D m = Some media \<and> cdn_allowed D (ur_host media) \<and> target \<in> set (bilibili_mirrors D (ur_text media)))))"

text \<open>The calls of a download: requests as above, one program, and otherwise the clock, files and the context.\<close>

definition confined :: "downloader \<Rightarrow> gostr \<Rightarrow> call \<Rightarrow> bool" where
  "confined D raw c = (case c of
      Os (OGet target rng) \<Rightarrow> video_url D raw target
    | Os (OProc prog args) \<Rightarrow> prog = yd_path D \<and> (\<exists>out. args = build_args D out raw)
    | Os (OResolve host) \<Rightarrow> False
    | Os oc \<Rightarrow> True
    | _ \<Rightarrow> False)"

text \<open>The link was resolved, and no address it resolved to is refused.\<close>

definition vetted :: "downloader \<Rightarrow> env \<Rightarrow> gostr \<Rightarrow> hist \<Rightarrow> hist \<Rightarrow> bool" where
  "vetted D E raw h p = (\<exists>u ips. yd_parse D raw = Some u \<and> ur_host u \<noteq> [] \<and>
     (equal_fold (ur_scheme u) ''http'' \<or> equal_fold (ur_scheme u) ''https'') \<and>
     made (\<lambda>p c. a_ips E p c = Inr ips) h (Os (OResolve (ur_host u))) p \<and> ips \<noteq> [] \<and> list_all (\<lambda>ip. \<not> is_disallowed_address ip) ips)"

lemma confined_simps [simp]:
  "confined D raw (Os (OGet target rng)) = video_url D raw target"
  "confined D raw (Os (OFile o1 path))" "confined D raw (Os (OWriteAt path n k))" "confined D raw (Os (OSleep n))"
  "confined D raw (Os OCtxErr)" "confined D raw (Os (OAwait w))" "confined D raw (Os ONewUUID)"
  "confined D raw (Os (OProc (yd_path D) (build_args D out raw)))"
  by (auto simp: confined_def)

lemma dedup_nonempty: "dedup [] (s # ss) \<noteq> []"
  by simp

lemma mirrors_nonempty: "bilibili_mirrors D src \<noteq> []"
  by (simp add: bilibili_mirrors_def bili_mirror_hosts_def split: option.splits)

lemma mirrors_in: "mirror < length (bilibili_mirrors D src) \<Longrightarrow> bilibili_mirrors D src ! mirror \<in> set (bilibili_mirrors D src)"
  by simp

lemma uses_temp [use_intros]: "uses (confined D raw) (temp_mp4 D' E)" "uses (confined D raw) (remove_temp E path)"
    "uses (confined D raw) (deadline_passed E)" "uses (confined D raw) (is_regular E path)"
  unfolding temp_mp4_def remove_temp_def deadline_passed_def new_uuid_def is_regular_def by (intro use_intros; simp)+

lemma uses_discard [use_intros]: "uses (confined D raw) m \<Longrightarrow> uses (confined D raw) (discard_on_error E out m)"
  unfolding discard_on_error_def by (intro use_intros)

lemma uses_write_pieces [use_intros]: "uses (confined D raw) (write_pieces E path hi pos bs)"
  by (induction bs arbitrary: pos) (auto simp: Let_def intro!: use_intros)

lemma uses_copy_pieces [use_intros]: "uses (confined D raw) (copy_pieces E path n bs broken)"
  by (induction bs arbitrary: n) (auto simp: Let_def intro!: use_intros)

text \<open>The loops go on with more bytes, with the next mirror, or with one more stall on the same mirror.\<close>

lemma resume_induct [case_names step]:
  assumes "\<And>n mirror stalls. (\<And>n'. n < n' \<Longrightarrow> n' \<le> cap \<Longrightarrow> P n' mirror 0) \<Longrightarrow> (mirror + 1 < mirrors \<Longrightarrow> P n (mirror + 1) 0) \<Longrightarrow>
      (stalls + 1 < bound \<Longrightarrow> P n mirror (stalls + 1)) \<Longrightarrow> P n mirror stalls"
  shows "P (n :: int) (mirror :: nat) (stalls :: nat)"
proof -
  have "case x of (n, mirror, stalls) \<Rightarrow> P n mirror stalls" for x
  proof (induction x rule: wf_induct_rule [OF wf_measures [of "[\<lambda>(n, mirror, stalls). nat (cap + 1 - n),
      \<lambda>(n, mirror, stalls). mirrors - mirror, \<lambda>(n, mirror, stalls). bound - stalls]"]])
    case (1 x)
    obtain n mirror stalls where x: "x = (n, mirror, stalls)" by (cases x) auto
    have "P n mirror stalls"
    proof (rule assms)
      show "P n' mirror 0" if "n < n'" "n' \<le> cap" for n' using 1 [of "(n', mirror, 0)"] that by (simp add: x)
      show "P n (mirror + 1) 0" if "mirror + 1 < mirrors" using 1 [of "(n, mirror + 1, 0)"] that by (simp add: x diff_less_mono2)
      show "P n mirror (stalls + 1)" if "stalls + 1 < bound" using 1 [of "(n, mirror, stalls + 1)"] that by (simp add: x)
    qed
    then show ?case by (simp add: x)
  qed
  from this [of "(n, mirror, stalls)"] show ?thesis by simp
qed

lemma uses_range_loop:
  assumes "\<And>u. u \<in> set mirrors \<Longrightarrow> video_url D raw u" and "mirror < length mirrors"
  shows "uses (confined D raw) (range_loop E mirrors path hi pos mirror stalls)"
  using assms(2)
proof (induction pos mirror stalls rule: resume_induct [of hi _ "length mirrors" 3])
  case (step pos mirror stalls)
  then show ?case
    by (subst range_loop.simps) (auto intro!: use_intros assms(1) split: get_result.splits)
qed

lemma uses_case_transfer:
  "(\<And>e. uses P (f e)) \<Longrightarrow> (\<And>e. uses P (g e)) \<Longrightarrow> uses P m \<Longrightarrow> (\<And>a b. uses P (k a b)) \<Longrightarrow>
    uses P (case t of Again e \<Rightarrow> f e | Refused s \<Rightarrow> g s | NoRange \<Rightarrow> m | Bytes a b \<Rightarrow> k a b)"
  by (simp split: transfer.splits)

lemma uses_file_loop:
  assumes "\<And>u. u \<in> set mirrors \<Longrightarrow> video_url D raw u" and "mirror < length mirrors"
  shows "uses (confined D raw) (file_loop E mirrors path sz n mirror stalls)"
  using assms(2)
proof (induction n mirror stalls rule: resume_induct [of max_download _ "length mirrors" 5])
  case (step n mirror stalls)
  show ?case
    by (subst file_loop.simps)
       (intro use_intros uses_case_transfer; (rule step; simp add: step.prems)?; simp add: assms(1) step.prems)
qed

lemma has_prefix_same [simp]: "has_prefix (a @ b) a"
  by (simp add: has_prefix_def)

lemma uses_bilibili:
  assumes u: "yd_parse D raw = Some u" "is_bilibili (ur_host u)"
  shows "uses (confined D raw) (download_bilibili D E u)"
proof -
  have api: "video_url D raw (bili_api_base D @ ''/x/'' @ rest)" for rest
    using u has_prefix_same [of "bili_api_base D @ ''/x/''" rest] by (auto simp: video_url_def)
  note api' = api [simplified]
  have get: "uses (confined D raw) (bili_get D E (''/x/'' @ path) q)" for path q
    unfolding bili_get_def by (intro use_intros) (auto simp: api' intro!: use_intros split: get_result.splits)
  note [use_intros] = get [of "''player/pagelist''", simplified] get [of "''web-interface/view''", simplified] get [of "''player/playurl''", simplified]
  have media: "uses (confined D raw) (fetch_chunks D E (ur_text m) sz)" "uses (confined D raw) (fetch_file D E (ur_text m) sz)"
    if "yd_parse D src = Some m" "cdn_allowed D (ur_host m)" for src m sz
  proof -
    have v: "video_url D raw x" if "x \<in> set (bilibili_mirrors D (ur_text m))" for x
      using u that \<open>yd_parse D src = Some m\<close> \<open>cdn_allowed D (ur_host m)\<close> by (auto simp: video_url_def)
    show "uses (confined D raw) (fetch_chunks D E (ur_text m) sz)"
      unfolding fetch_chunks_def into_temp_def fill_chunks_def fetch_range_def by (intro use_intros uses_range_loop v) (simp_all add: mirrors_nonempty)
    show "uses (confined D raw) (fetch_file D E (ur_text m) sz)"
      unfolding fetch_file_def into_temp_def fill_file_def by (intro use_intros uses_file_loop v) (simp_all add: mirrors_nonempty)
  qed
  have "uses (confined D raw) (fetch_media D E play)" for play
    unfolding fetch_media_def by (auto intro!: use_intros media split: list.splits option.splits)
  moreover have "uses (confined D raw) (resolve_short_link D E u)" if "equal_fold (ur_host u) ''b23.tv''"
    unfolding resolve_short_link_def using u that
    by (intro use_intros) (auto simp: video_url_def intro!: use_intros split: get_result.splits)
  ultimately show ?thesis
    unfolding download_bilibili_def bili_pages_def bili_title_def bili_play_def
    by (intro use_intros) (auto intro!: use_intros)
qed

lemma uses_ytdlp: "uses (confined D raw) (run_ytdlp D E raw)"
  unfolding run_ytdlp_def by (auto simp: Let_def intro!: use_intros split: proc_result.splits)

lemma validated_vetted:
  "wp (validate_public_url D E raw) (\<lambda>r q. (q = h \<or> (\<exists>u. yd_parse D raw = Some u \<and> q = h @ [Os (OResolve (ur_host u))])) \<and>
     (r = Inr () \<longrightarrow> vetted D E raw h q)) h"
  unfolding validate_public_url_def vetted_def
  by (auto simp: wp_simps list_ex_iff list_all_iff split: option.splits sum.splits intro!: made_last)

text \<open>A call of a download made at \<open>p\<close>: resolving the host of the link, or, once the link was vetted, a confined call.\<close>

definition download_call :: "downloader \<Rightarrow> env \<Rightarrow> gostr \<Rightarrow> hist \<Rightarrow> hist \<Rightarrow> call \<Rightarrow> bool" where
  "download_call D E raw h p c =
     ((\<exists>u. yd_parse D raw = Some u \<and> c = Os (OResolve (ur_host u))) \<or> (vetted D E raw h p \<and> confined D raw c))"

lemma vetted_later: "vetted D E raw h p \<Longrightarrow> prefix p q \<Longrightarrow> vetted D E raw h q"
  unfolding vetted_def by (blast intro: made_later)

lemma download_guarded: "wp (download D E raw) (\<lambda>r q. guarded (download_call D E raw h) h q) h"
proof -
  let ?G = "download_call D E raw h"
  have rest: "wp m (\<lambda>r q. guarded ?G h q) p"
    if "uses (confined D raw) m" "vetted D E raw h p" "guarded ?G h p" for m :: "(gostr \<times> gostr) opE" and p
    by (rule wp_mono [OF wp_guarded [OF that(1,3)]])
       (use that(2) in \<open>auto simp: download_call_def intro: vetted_later\<close>)
  have "uses (confined D raw) (bindE (run_ytdlp D E raw) (\<lambda>path. okE (path, [])))"
    by (intro use_intros uses_ytdlp)
  then show ?thesis
    unfolding download_def Let_def wp_bindE
    by (intro wp_mono [OF validated_vetted [of D E raw h]])
       (auto simp: wp_if wp_failE download_call_def guarded_def intro!: rest uses_bilibili split: sum.splits option.splits)
qed

lemma anon_download: "uses anon (download D E raw)"
proof -
  have "uses (\<lambda>c. \<exists>oc. c = Os oc) (validate_public_url D E raw)"
    unfolding validate_public_url_def by (auto intro!: use_intros split: option.splits)
  then have "uses anon (validate_public_url D E raw)" by (rule uses_mono) auto
  moreover have "anon c" if "confined D raw c" for c
    using that by (cases c) (auto simp: confined_def)
  ultimately show ?thesis
    unfolding download_def Let_def
    by (auto intro!: use_intros uses_mono [OF uses_bilibili] uses_mono [OF uses_ytdlp] split: option.splits)
qed

section \<open>What is written\<close>

text \<open>The writes to a file, in order; whether they tile the interval from \<open>a\<close> to \<open>b\<close>; whether each is a copy of
  the content at its offset.\<close>

definition write_of :: "env \<Rightarrow> gostr \<Rightarrow> hist \<Rightarrow> call \<Rightarrow> (int \<times> gostr) list" where
  "write_of E path h c = (case c of Os (OWriteAt p pos k) \<Rightarrow> if p = path \<and> acked E h c then [(pos, k)] else [] | _ \<Rightarrow> [])"

fun writes :: "env \<Rightarrow> gostr \<Rightarrow> hist \<Rightarrow> call list \<Rightarrow> (int \<times> gostr) list" where
  "writes E path h [] = []"
| "writes E path h (c # cs) = write_of E path h c @ writes E path (h @ [c]) cs"

fun tiles :: "int \<Rightarrow> int \<Rightarrow> (int \<times> gostr) list \<Rightarrow> bool" where
  "tiles a b [] = (a = b)"
| "tiles a b ((p, k) # ws) = (p = a \<and> k \<noteq> [] \<and> tiles (a + int (length k)) b ws)"

definition copies :: "gostr \<Rightarrow> (int \<times> gostr) list \<Rightarrow> bool" where
  "copies content ws = list_all (\<lambda>(p, k). 0 \<le> p \<and> prefix k (drop (nat p) content)) ws"

text \<open>The part of the content from \<open>a\<close> to \<open>b\<close> was written, in order and without a gap.\<close>

definition moved :: "env \<Rightarrow> gostr \<Rightarrow> gostr \<Rightarrow> int \<Rightarrow> int \<Rightarrow> hist \<Rightarrow> call list \<Rightarrow> bool" where
  "moved E content path a b h cs = (tiles a b (writes E path h cs) \<and> copies content (writes E path h cs))"

text \<open>Servers of one content: a body that answers a request for the whole file or is partial content is part of it from the
  requested offset on; it may end anywhere.  A Read returns at most its buffer.\<close>

definition range_start :: "(int \<times> int option) option \<Rightarrow> nat" where
  "range_start rng = (case rng of None \<Rightarrow> 0 | Some (a, b) \<Rightarrow> nat a)"

definition serves :: "env \<Rightarrow> gostr list \<Rightarrow> gostr \<Rightarrow> bool" where
  "serves E mirrors content = (\<forall>h u rng status loc pieces broken. u \<in> set mirrors \<longrightarrow>
     a_get E h (Os (OGet u rng)) = GetResp status loc pieces broken \<longrightarrow> status = 206 \<or> (status = 200 \<and> rng = None) \<longrightarrow>
     prefix (concat pieces) (drop (range_start rng) content) \<and> list_all (\<lambda>b. length b \<le> 65536) pieces)"

lemma writes_append: "writes E path h (xs @ ys) = writes E path h xs @ writes E path (h @ xs) ys"
  by (induction xs arbitrary: h) simp_all

lemma write_of_simps [simp]:
  "write_of E path h (Os (OWriteAt path n k)) = (if acked E h (Os (OWriteAt path n k)) then [(n, k)] else [])"
  "write_of E path h (Os (OFile o1 f)) = []" "write_of E path h (Os OCtxErr) = []" "write_of E path h (Os (OAwait w)) = []"
  "write_of E path h (Os (OSleep n)) = []" "write_of E path h (Os (OGet u rng)) = []" "write_of E path h (Os ONewUUID) = []"
  by (simp_all add: write_of_def)

lemma tiles_append: "tiles a b ws \<Longrightarrow> tiles b c vs \<Longrightarrow> tiles a c (ws @ vs)"
  by (induction a b ws rule: tiles.induct) auto

lemma tiles_le: "tiles a b ws \<Longrightarrow> a \<le> b"
  by (induction a b ws rule: tiles.induct) auto

lemma moved_nil [simp]: "moved E content path a a h []"
  by (simp add: moved_def copies_def)

lemma moved_quiet: "write_of E path h c = [] \<Longrightarrow> moved E content path a a h [c]"
  by (simp add: moved_def copies_def)

lemma moved_append:
  "moved E content path a b h xs \<Longrightarrow> moved E content path b c (h @ xs) ys \<Longrightarrow> moved E content path a c h (xs @ ys)"
  by (auto simp: moved_def copies_def writes_append intro: tiles_append)

text \<open>Writes that tile an interval add up to the content there.\<close>

lemma tiles_content:
  "tiles a b ws \<Longrightarrow> copies content ws \<Longrightarrow> 0 \<le> a \<Longrightarrow> concat (map snd ws) = take (nat (b - a)) (drop (nat a) content)"
proof (induction a b ws rule: tiles.induct)
  case (2 a b p k ws)
  then have t: "tiles (a + int (length k)) b ws" and k: "prefix k (drop (nat a) content)" "p = a" by (auto simp: copies_def)
  have "concat (map snd ws) = take (nat (b - (a + int (length k)))) (drop (nat (a + int (length k))) content)"
    using 2 by (simp add: copies_def)
  also have "drop (nat (a + int (length k))) content = drop (length k) (drop (nat a) content)"
    using \<open>0 \<le> a\<close> by (simp add: nat_add_distrib add.commute)
  finally have "concat (map snd ((p, k) # ws)) = k @ take (nat (b - (a + int (length k)))) (drop (length k) (drop (nat a) content))"
    by simp
  also have "\<dots> = take (length k + nat (b - (a + int (length k)))) (drop (nat a) content)"
  proof -
    from k(1) obtain zs where zs: "drop (nat a) content = k @ zs" by (auto simp: prefix_def)
    show ?thesis unfolding zs by simp
  qed
  also have "length k + nat (b - (a + int (length k))) = nat (b - a)" using tiles_le [OF t] by simp
  finally show ?case .
qed simp

lemma tiles_within: "tiles a b ws \<Longrightarrow> copies content ws \<Longrightarrow> 0 \<le> a \<Longrightarrow> a < b \<Longrightarrow> b \<le> int (length content)"
proof (induction a b ws rule: tiles.induct)
  case (2 a b p k ws)
  then have k: "prefix k (drop (nat a) content)" "p = a" "k \<noteq> []" by (auto simp: copies_def)
  then have "a + int (length k) \<le> int (length content)" using \<open>0 \<le> a\<close> prefix_length_le [OF k(1)] by (cases k) auto
  with 2 show ?case by (cases "a + int (length k) < b") (auto simp: copies_def dest: tiles_le)
qed simp

lemma moved_piece:
  assumes "0 \<le> n" and "prefix k (drop (nat n) content)" and "k \<noteq> []" and "acked E h (Os (OWriteAt path n k))"
  shows "moved E content path n (n + int (length k)) h [Os (OWriteAt path n k)]"
  using assms by (simp add: moved_def copies_def)

lemma prefix_rest:
  assumes "prefix (b @ bs) (drop (nat n) content)" and "0 \<le> n"
  shows "prefix bs (drop (nat (n + int (length b))) content)"
proof -
  obtain zs where zs: "drop (nat n) content = b @ bs @ zs" using assms(1) by (auto simp: prefix_def)
  have "drop (nat (n + int (length b))) content = drop (length b) (drop (nat n) content)"
    using assms(2) by (simp add: nat_add_distrib add.commute)
  then show ?thesis unfolding zs by simp
qed

lemma prefix_take: "prefix (b @ bs) xs \<Longrightarrow> prefix (take m b) xs"
  by (metis append_take_drop_id append_prefixD)

lemma write_pieces_past: "hi < pos \<Longrightarrow> write_pieces E path hi pos bs = okE pos"
  by (cases bs) simp_all

subsection \<open>Operations that write in order\<close>

text \<open>From offset \<open>a\<close> on, the operation writes the content in order; a result \<open>x\<close> comes with an end \<open>b\<close> related to it by \<open>R\<close>.\<close>

definition delivers :: "env \<Rightarrow> gostr \<Rightarrow> gostr \<Rightarrow> int \<Rightarrow> ('x \<Rightarrow> int \<Rightarrow> bool) \<Rightarrow> 'x opE \<Rightarrow> bool" where
  "delivers E content path a R m =
     (\<forall>p. wp m (\<lambda>r q. \<exists>ys. q = p @ ys \<and> (\<forall>x. r = Inr x \<longrightarrow> (\<exists>b. R x b \<and> moved E content path a b p ys))) p)"

named_theorems deliver_intros \<open>operations that write in order\<close>

lemma delivers_ok [deliver_intros]: "R x a \<Longrightarrow> delivers E content path a R (okE x)"
  by (auto simp: delivers_def wp_simps)

lemma delivers_fail [deliver_intros]: "delivers E content path a R (failE e)"
  by (auto simp: delivers_def wp_simps)

lemma delivers_bind:
  assumes "delivers E content path a R m" and "\<And>x b. R x b \<Longrightarrow> delivers E content path b S (f x)"
  shows "delivers E content path a S (bindE m f)"
  unfolding delivers_def wp_bindE
proof (rule allI)
  fix p
  let ?Q = "\<lambda>r q. \<exists>ys. q = p @ ys \<and> (\<forall>x. r = Inr x \<longrightarrow> (\<exists>b. S x b \<and> moved E content path a b p ys))"
  have "wp (f x) ?Q (p @ ys)" if "R x b" "moved E content path a b p ys" for x b ys
    by (rule wp_mono [OF assms(2) [OF that(1), unfolded delivers_def, rule_format, of "p @ ys"]])
       (use that(2) in \<open>fastforce intro: moved_append\<close>)
  then show "wp m (\<lambda>r q. case r of Inl e \<Rightarrow> ?Q (Inl e) q | Inr x \<Rightarrow> wp (f x) ?Q q) p"
    by (intro wp_mono [OF assms(1) [unfolded delivers_def, rule_format, of p]]) (auto split: sum.splits)
qed

lemma delivers_bnd:
  assumes "delivers E content path a R (bnd m okE)" and "\<And>x b. R x b \<Longrightarrow> delivers E content path b S (f x)"
  shows "delivers E content path a S (bnd m f)"
  using delivers_bind [of E content path a R "bnd m okE" S f, OF assms] by (simp add: delivers_def wp_simps)

lemma delivers_ask [deliver_intros]:
  assumes "\<And>h. write_of E path h c = []" and "\<And>p. delivers E content path a R (f (ans p c))"
  shows "delivers E content path a R (bnd (ask ans c) f)"
  unfolding delivers_def wp_bnd wp_ask
proof (rule allI)
  fix p
  show "wp (f (ans p c)) (\<lambda>r q. \<exists>ys. q = p @ ys \<and> (\<forall>x. r = Inr x \<longrightarrow> (\<exists>b. R x b \<and> moved E content path a b p ys))) (p @ [c])"
    by (rule wp_mono [OF assms(2) [of p, unfolded delivers_def, rule_format, of "p @ [c]"]])
       (use moved_append [OF moved_quiet [OF assms(1)], of content] in fastforce)
qed

lemma delivers_catch [deliver_intros]:
  assumes "\<And>h. write_of E path h c = []" and "\<And>e. delivers E content path a R (g e)" and "delivers E content path a R (f ())"
  shows "delivers E content path a R (catchE (ask_err ans c) g f)"
  unfolding catchE_def ask_err_def by (intro delivers_ask assms(1)) (auto intro: assms(2,3) split: option.splits)

lemma bindE_catch: "bindE m f = catchE m failE f"
  by (simp add: bindE_def catchE_def failE_def [abs_def])

lemma delivers_step [deliver_intros]:
  assumes "\<And>h. write_of E path h c = []" and "delivers E content path a R (f ())"
  shows "delivers E content path a R (bindE (ask_err ans c) f)"
  unfolding bindE_catch by (intro delivers_catch delivers_fail assms)

lemma delivers_if [deliver_intros]:
  "(b \<Longrightarrow> delivers E content path a R m) \<Longrightarrow> (\<not> b \<Longrightarrow> delivers E content path a R n) \<Longrightarrow> delivers E content path a R (if b then m else n)"
  by simp

lemma delivers_option [deliver_intros]:
  "(x = None \<Longrightarrow> delivers E content path a R m) \<Longrightarrow> (\<And>y. x = Some y \<Longrightarrow> delivers E content path a R (n y)) \<Longrightarrow>
    delivers E content path a R (case x of None \<Rightarrow> m | Some y \<Rightarrow> n y)"
  by (simp split: option.splits)

lemma delivers_mono: "delivers E content path a R m \<Longrightarrow> (\<And>x b. R x b \<Longrightarrow> S x b) \<Longrightarrow> delivers E content path a S m"
  unfolding delivers_def by (blast intro: wp_mono)

lemma delivers_write:
  assumes "0 \<le> n" and "prefix k (drop (nat n) content)" and "k \<noteq> []"
    and "\<And>e. delivers E content path n R (g e)" and "delivers E content path (n + int (length k)) R (f ())"
  shows "delivers E content path n R (catchE (ask_err (a_err E) (Os (OWriteAt path n k))) g f)"
  unfolding delivers_def wp_catchE wp_ask_err
proof (rule allI)
  fix p
  let ?c = "Os (OWriteAt path n k)"
  let ?Q = "\<lambda>r q. \<exists>ys. q = p @ ys \<and> (\<forall>x. r = Inr x \<longrightarrow> (\<exists>b. R x b \<and> moved E content path n b p ys))"
  have failed: "wp (g e) ?Q (p @ [?c])" if "a_err E p ?c = Some e" for e
    by (rule wp_mono [OF assms(4) [of e, unfolded delivers_def, rule_format, of "p @ [?c]"]])
       (use moved_append [OF moved_quiet, of E path p ?c content n] that in fastforce)
  have written: "wp (f ()) ?Q (p @ [?c])" if "a_err E p ?c = None"
    by (rule wp_mono [OF assms(5) [unfolded delivers_def, rule_format, of "p @ [?c]"]])
       (use moved_append [OF moved_piece [OF assms(1-3) that]] in fastforce)
  show "case a_err E p ?c of
      None \<Rightarrow> (case Inr () of Inl e \<Rightarrow> wp (g e) ?Q (p @ [?c]) | Inr x \<Rightarrow> wp (f x) ?Q (p @ [?c]))
    | Some e \<Rightarrow> (case Inl e of Inl e \<Rightarrow> wp (g e) ?Q (p @ [?c]) | Inr x \<Rightarrow> wp (f x) ?Q (p @ [?c]))"
    using failed written by (simp split: option.splits)
qed

lemma delivers_write_step:
  assumes "0 \<le> n" and "prefix k (drop (nat n) content)" and "k \<noteq> []" and "delivers E content path (n + int (length k)) R (f ())"
  shows "delivers E content path n R (bindE (ask_err (a_err E) (Os (OWriteAt path n k))) f)"
  unfolding bindE_catch by (intro delivers_write delivers_fail assms)

subsection \<open>One range\<close>

text \<open>Reading a body writes what it holds, up to the end of the range.\<close>

lemma write_pieces_delivers:
  "prefix (concat bs) (drop (nat pos) content) \<Longrightarrow> list_all (\<lambda>b. length b \<le> 65536) bs \<Longrightarrow> 0 \<le> pos \<Longrightarrow> pos \<le> hi + 1 \<Longrightarrow>
   delivers E content path pos (\<lambda>n b. b = n \<and> pos \<le> n \<and> n \<le> hi + 1) (write_pieces E path hi pos bs)"
proof (induction bs arbitrary: pos)
  case (Cons b bs)
  define k where "k = take (nat (min 65536 (hi - pos + 1))) b"
  let ?pos = "pos + int (length k)"
  consider "hi < pos" | "\<not> hi < pos" "k = []" | "\<not> hi < pos" "k \<noteq> []" by blast
  then show ?case
  proof cases
    case 1
    with Cons.prems show ?thesis by (auto intro: deliver_intros)
  next
    case 2
    then have "b = []" by (auto simp: k_def)
    with Cons 2 show ?thesis by (simp add: k_def)
  next
    case 3
    have next_pos: "?pos \<le> hi + 1" using 3 by (auto simp: k_def min_def)
    have "delivers E content path ?pos (\<lambda>n b. b = n \<and> ?pos \<le> n \<and> n \<le> hi + 1) (write_pieces E path hi ?pos bs)"
    proof (cases "k = b")
      case True
      with Cons.prems next_pos show ?thesis by (intro Cons.IH prefix_rest) auto
    next
      case False
      with Cons.prems 3 have "hi < ?pos" by (auto simp: k_def min_def not_less split: if_splits)
      with next_pos show ?thesis by (auto simp: write_pieces_past intro: deliver_intros)
    qed
    then have "delivers E content path ?pos (\<lambda>n b. b = n \<and> pos \<le> n \<and> n \<le> hi + 1) (write_pieces E path hi ?pos bs)"
      by (rule delivers_mono) simp
    then have "delivers E content path pos (\<lambda>n b. b = n \<and> pos \<le> n \<and> n \<le> hi + 1)
        (bindE (ask_err (a_err E) (Os (OWriteAt path pos k))) (\<lambda>_. write_pieces E path hi ?pos bs))"
      using Cons.prems 3 by (intro delivers_write_step) (auto simp: k_def intro: prefix_take)
    with 3 show ?thesis by (simp add: k_def)
  qed
qed (auto intro: deliver_intros)

lemma range_loop_delivers:
  assumes "serves E mirrors content" and "mirror < length mirrors" and "0 \<le> pos" and "pos \<le> hi + 1"
  shows "delivers E content path pos (\<lambda>_ b. b = hi + 1) (range_loop E mirrors path hi pos mirror stalls)"
  using assms(2-4)
proof (induction pos mirror stalls rule: resume_induct [of hi _ "length mirrors" 3])
  case (step pos mirror stalls)
  have round: "delivers E content path pos (\<lambda>n b. b = n \<and> pos \<le> n \<and> n \<le> hi + 1)
    (case a_get E p (Os (OGet (mirrors ! mirror) (Some (pos, Some hi)))) of
        GetResp status location pieces broken \<Rightarrow> if status = 206 then write_pieces E path hi pos pieces else okE pos
      | GetError e \<Rightarrow> okE pos)" for p
  proof (cases "a_get E p (Os (OGet (mirrors ! mirror) (Some (pos, Some hi))))")
    case (GetResp status loc pieces broken)
    have "delivers E content path pos (\<lambda>n b. b = n \<and> pos \<le> n \<and> n \<le> hi + 1) (write_pieces E path hi pos pieces)" if "status = 206"
      using assms(1) [unfolded serves_def, rule_format, OF _ GetResp] step.prems that
      by (intro write_pieces_delivers) (auto simp: range_start_def)
    with step.prems show ?thesis by (auto simp: GetResp intro: deliver_intros)
  qed (use step.prems in \<open>auto intro: deliver_intros\<close>)
  show ?case
    by (subst range_loop.simps, intro delivers_if delivers_ask delivers_bind [OF round])
       (use step in \<open>auto intro!: deliver_intros\<close>)
qed

lemma chunks_deliver:
  assumes "serves E mirrors content" and "mirrors \<noteq> []" and "0 \<le> start" and "start \<le> sz"
  shows "delivers E content path start (\<lambda>_ b. b = sz)
    (forE (chunk_starts sz start) (\<lambda>start. fetch_range E mirrors path start (chunk_last sz start)))"
  using assms(3,4)
proof (induction sz start rule: chunk_starts.induct)
  case (1 sz start)
  show ?case
  proof (cases "start < sz")
    case True
    have c: "0 < chunk_size" by (simp add: chunk_size_def)
    let ?stop = "chunk_last sz start + 1"
    have "delivers E content path start (\<lambda>_ b. b = ?stop) (fetch_range E mirrors path start (chunk_last sz start))"
      unfolding fetch_range_def using 1(2) True c assms(1,2) by (intro range_loop_delivers) (auto simp: chunk_last_def)
    moreover have "delivers E content path ?stop (\<lambda>_ b. b = sz)
        (forE (chunk_starts sz (start + chunk_size)) (\<lambda>start. fetch_range E mirrors path start (chunk_last sz start)))"
    proof (cases "start + chunk_size \<le> sz")
      case True
      with 1 c show ?thesis by (simp add: chunk_last_def)
    next
      case False
      then show ?thesis by (subst chunk_starts.simps) (auto simp: chunk_last_def intro: deliver_intros)
    qed
    ultimately show ?thesis by (subst chunk_starts.simps) (simp add: True delivers_bind)
  qed (use 1(3) in \<open>subst chunk_starts.simps, auto intro: deliver_intros\<close>)
qed

subsection \<open>A file in one connection\<close>

lemma bnd_ret [simp]: "bnd (ret x) f = f x"
  by (simp add: bnd_def ret_def)

lemma bnd_catchE: "bnd (catchE m f g) k = catchE m (\<lambda>e. bnd (f e) k) (\<lambda>x. bnd (g x) k)"
  unfolding catchE_def bnd_def by (auto simp: State_Monad.bind_assoc fun_eq_iff intro!: arg_cong2 [where f = State_Monad.bind] split: sum.splits)

lemma copy_pieces_full: "max_download < n \<Longrightarrow> copy_pieces E path n bs broken = ret (n, if broken then Some (Plain ''unexpected EOF'' None) else None)"
  by (induction bs) simp_all

lemma copy_pieces_delivers:
  "prefix (concat bs) (drop (nat n) content) \<Longrightarrow> 0 \<le> n \<Longrightarrow>
   delivers E content path n (\<lambda>(n', e) b. b = n' \<and> n \<le> n') (bnd (copy_pieces E path n bs broken) okE)"
proof (induction bs arbitrary: n)
  case Nil
  then show ?case by (auto simp: delivers_def wp_simps)
next
  case (Cons b bs)
  define k where "k = take (nat (max_download + 1 - n)) b"
  let ?n = "n + int (length k)"
  show ?case
  proof (cases "k = []")
    case True
    show ?thesis
    proof (cases "max_download < n")
      case True
      then show ?thesis by (auto simp: copy_pieces_full delivers_def wp_simps simp del: copy_pieces.simps)
    next
      case False
      with \<open>k = []\<close> have "b = []" by (auto simp: k_def)
      with Cons show ?thesis by simp
    qed
  next
    case False
    have rest: "delivers E content path ?n (\<lambda>(n', e) b. b = n' \<and> ?n \<le> n') (bnd (copy_pieces E path ?n bs broken) okE)"
    proof (cases "k = b")
      case True
      with Cons.prems show ?thesis by (intro Cons.IH prefix_rest) auto
    next
      case cut: False
      then have "max_download < ?n" using False by (auto simp: k_def)
      then show ?thesis by (auto simp: copy_pieces_full delivers_def wp_simps)
    qed
    have eq: "bnd (copy_pieces E path n (b # bs) broken) okE =
        catchE (ask_err (a_err E) (Os (OWriteAt path n k))) (\<lambda>e. okE (n, Some e)) (\<lambda>_. bnd (copy_pieces E path ?n bs broken) okE)"
      using False by (simp add: Let_def bnd_catchE flip: k_def)
    have k: "prefix k (drop (nat n) content)" using Cons.prems by (auto simp: k_def intro: prefix_take)
    show ?thesis
      unfolding eq
      by (intro delivers_write delivers_ok delivers_mono [OF rest] k False Cons.prems(2)) auto
  qed
qed

lemma file_loop_delivers:
  assumes "serves E mirrors content" and "mirror < length mirrors" and "0 \<le> n" and "n \<le> max_download"
  shows "delivers E content path n (\<lambda>n' b. b = n' \<and> n \<le> n' \<and> n' \<le> max_download \<and> sz \<le> n')
    (file_loop E mirrors path sz n mirror stalls)"
  using assms(2-4)
proof (induction n mirror stalls rule: resume_induct [of max_download _ "length mirrors" 5])
  case (step n mirror stalls)
  let ?R = "\<lambda>n' b. b = n' \<and> n \<le> n' \<and> n' \<le> max_download \<and> sz \<le> n'"
  let ?req = "Os (OGet (mirrors ! mirror) (if 0 < n then Some (n, None) else None))"
  have bytes: "delivers E content path n (\<lambda>(n', e) b. b = n' \<and> n \<le> n') (bnd (copy_pieces E path n pieces broken) okE)"
    if t: "transfer_of n (a_get E p ?req) = Bytes pieces broken" for p pieces broken
  proof -
    obtain status loc where r: "a_get E p ?req = GetResp status loc pieces broken" "status = 206 \<or> (status = 200 \<and> n = 0)"
      using t step.prems by (auto simp: transfer_of_def split: get_result.splits if_splits)
    have "prefix (concat pieces) (drop (nat n) content)"
      using assms(1) [unfolded serves_def, rule_format, OF _ r(1)] r(2) step.prems by (auto simp: range_start_def split: if_splits)
    with step.prems show ?thesis by (simp add: copy_pieces_delivers)
  qed
  have again: "delivers E content path n (\<lambda>(n', e) b. b = n' \<and> n \<le> n') (bnd (ret (n, Some e)) okE)" for e
    by (simp add: delivers_ok)
  have rest: "mirror + 1 < length mirrors \<Longrightarrow> delivers E content path n ?R (file_loop E mirrors path sz n (mirror + 1) 0)"
    "stalls + 1 < 5 \<Longrightarrow> delivers E content path n ?R (file_loop E mirrors path sz n mirror (stalls + 1))"
    using step.IH(2,3) step.prems by auto
  have on: "delivers E content path n' ?R (file_loop E mirrors path sz n' mirror 0)" if "n < n'" "n' \<le> max_download" for n'
    using step.IH(1) [OF that] step.prems that by (auto elim!: delivers_mono)
  have dispatch: "delivers E content path n ?R (case transfer_of n (a_get E p ?req) of
       Refused status \<Rightarrow>
         if mirror + 1 < length mirrors then file_loop E mirrors path sz n (mirror + 1) 0
         else failE (Business CodeSourceBlocked (m_bl_cdn_a @ itoa status @ m_bl_http_b))
     | NoRange \<Rightarrow>
         if mirror + 1 < length mirrors then file_loop E mirrors path sz n (mirror + 1) 0
         else failE (Business CodeSourceTimeout m_bl_cut)
     | t \<Rightarrow> bnd (case t of Bytes pieces broken \<Rightarrow> copy_pieces E path n pieces broken | Again e \<Rightarrow> ret (n, Some e) | _ \<Rightarrow> ret (n, None)) tail)"
      if tail: "\<And>n' err. n \<le> n' \<Longrightarrow> delivers E content path n' ?R (tail (n', err))" for tail p
  proof (cases "transfer_of n (a_get E p ?req)")
    case (Bytes pieces broken)
    then show ?thesis using delivers_bnd [OF bytes [OF Bytes], of ?R tail] tail by auto
  next
    case (Again e)
    then show ?thesis using delivers_bnd [OF again, of ?R tail] tail by auto
  qed (use rest in \<open>auto intro: deliver_intros\<close>)
  show ?case
    unfolding file_loop.simps [of E mirrors path sz n mirror stalls] deadline_passed_def
    using step.prems(2)
    by (intro delivers_ask dispatch)
       (auto intro!: delivers_if delivers_option delivers_ok delivers_fail delivers_step delivers_catch delivers_ask on rest)
qed

subsection \<open>The fetched file\<close>

text \<open>After an error the file is gone; a result of the protected operation is passed on.\<close>

lemma discard_delivers: "delivers E content out a R m \<Longrightarrow> delivers E content out a R (discard_on_error E out m)"
  unfolding delivers_def discard_on_error_def wp_catchE
  by (fastforce simp: remove_temp_def wp_simps elim!: wp_mono dest: spec split: sum.splits option.splits)

lemma into_temp_delivers:
  assumes "\<And>out. delivers E content out 0 R (fill out)"
  shows "wp (into_temp D E fill) (\<lambda>r q. \<exists>ys. q = p @ ys \<and> (\<forall>out. r = Inr out \<longrightarrow> (\<exists>b. R () b \<and> moved E content out 0 b p ys))) p"
proof -
  define body where "body out = bindE (ask_err (a_err E) (Os (OFile ''create'' out)))
    (\<lambda>_. bindE (discard_on_error E out (fill out)) (\<lambda>_. okE out))" for out
  have d: "delivers E content out 0 (\<lambda>x b. x = out \<and> R () b) (body out)" for out
    unfolding body_def by (intro delivers_step delivers_bind [OF discard_delivers [OF assms]] delivers_ok) auto
  have "wp (body out) (\<lambda>r q. \<exists>ys. q = p @ ys \<and> (\<forall>out. r = Inr out \<longrightarrow> (\<exists>b. R () b \<and> moved E content out 0 b p ys))) (p @ [Os ONewUUID])" for out
    by (rule wp_mono [OF d [unfolded delivers_def, rule_format, of out "p @ [Os ONewUUID]"]])
       (use moved_append [OF moved_quiet, of E _ p "Os ONewUUID" content 0] in fastforce)
  then show ?thesis unfolding into_temp_def temp_mp4_def body_def [symmetric] by (simp add: wp_simps)
qed

lemma fill_delivers:
  assumes "serves E (bilibili_mirrors D src) content"
  shows "0 \<le> sz \<Longrightarrow> delivers E content out 0 (\<lambda>_ b. b = sz) (fill_chunks D E src sz out)"
    and "delivers E content out 0 (\<lambda>_ b. 0 < b \<and> b \<le> max_download \<and> sz \<le> b) (fill_file D E src sz out)"
proof -
  show "delivers E content out 0 (\<lambda>_ b. b = sz) (fill_chunks D E src sz out)" if "0 \<le> sz"
    unfolding fill_chunks_def deadline_passed_def
    by (intro delivers_step delivers_bind [OF chunks_deliver [OF assms mirrors_nonempty]])
       (use that in \<open>auto intro!: delivers_step delivers_ask delivers_option delivers_fail delivers_ok\<close>)
  show "delivers E content out 0 (\<lambda>_ b. 0 < b \<and> b \<le> max_download \<and> sz \<le> b) (fill_file D E src sz out)"
    unfolding fill_file_def
    by (intro delivers_bind [OF file_loop_delivers [OF assms]])
       (auto simp: mirrors_nonempty max_download_def intro!: delivers_step delivers_if delivers_fail delivers_ok)
qed

lemma fetch_media_delivers:
  assumes "yd_parse D src = Some media" and "serves E (bilibili_mirrors D (ur_text media)) content"
  shows "wp (fetch_media D E [(src, sz)]) (\<lambda>r q. \<exists>ys. q = p @ ys \<and> (\<forall>out. r = Inr out \<longrightarrow>
    (\<exists>n. 0 < n \<and> n \<le> max_download \<and> sz \<le> n \<and> moved E content out 0 n p ys))) p"
proof -
  have c: "0 < chunk_size" by (simp add: chunk_size_def)
  have "wp (fetch_chunks D E (ur_text media) sz) (\<lambda>r q. \<exists>ys. q = p @ ys \<and> (\<forall>out. r = Inr out \<longrightarrow>
    (\<exists>n. 0 < n \<and> n \<le> max_download \<and> sz \<le> n \<and> moved E content out 0 n p ys))) p" if "chunk_size < sz"
    unfolding fetch_chunks_def
    using into_temp_delivers [where D = D and p = p, OF fill_delivers(1) [OF assms(2), where sz = sz]] that c
    by (auto simp: wp_simps intro!: exI [of _ sz] elim!: wp_mono)
  moreover have "wp (fetch_file D E (ur_text media) sz) (\<lambda>r q. \<exists>ys. q = p @ ys \<and> (\<forall>out. r = Inr out \<longrightarrow>
    (\<exists>n. 0 < n \<and> n \<le> max_download \<and> sz \<le> n \<and> moved E content out 0 n p ys))) p"
    unfolding fetch_file_def
    using into_temp_delivers [where D = D and p = p, OF fill_delivers(2) [OF assms(2), where sz = sz]] by (auto elim!: wp_mono)
  ultimately show ?thesis by (simp add: fetch_media_def assms(1) wp_simps)
qed

section \<open>A concrete download\<close>

text \<open>A video page whose file is served with a dropped connection after two of three bytes.\<close>

definition downloader0 :: downloader where
  "downloader0 = \<lparr>yd_path = ''yt-dlp'', yd_ffmpeg = [], yd_api = [], yd_cdn = None, yd_tmp = ''/tmp'',
     yd_parse = (\<lambda>s. Some (if s = ''page''
       then \<lparr>ur_scheme = ''https'', ur_host = ''bilibili.com'', ur_path = ''/video/BV0123456789'', ur_part = [], ur_text = s\<rparr>
       else \<lparr>ur_scheme = ''https'', ur_host = ''a.bilivideo.com'', ur_path = ''/f'', ur_part = [], ur_text = s\<rparr>)),
     yd_ref = (\<lambda>u l. None), yd_with_host = (\<lambda>u h. h), yd_query = (\<lambda>q. concat (map snd q)), yd_envelope = (\<lambda>b. Some (0, [], b)),
     yd_pages = (\<lambda>b. Inr [(1, 1, [])]), yd_title = (\<lambda>b. Inl Canceled), yd_play = (\<lambda>b. Inr [(''file'', 3)])\<rparr>"

definition env_cdn :: env where
  "env_cdn = env0\<lparr>a_get := (\<lambda>h c. case c of
      Os (OGet u (Some (a, b))) \<Rightarrow> GetResp 206 [] [drop (nat a) ''abc''] False
    | _ \<Rightarrow> GetResp 200 [] [''ab''] True)\<rparr>"

definition env_off :: env where
  "env_off = env0\<lparr>a_get := (\<lambda>h c. GetError Canceled)\<rparr>"

lemma env_cdn_serves: "serves env_cdn mirrors ''abc''"
proof -
  have "length (drop n ''abc'') \<le> 65536" for n by simp
  then show ?thesis
    by (auto simp: serves_def env_cdn_def range_start_def split: option.splits prod.splits if_splits)
qed

lemma mirrors0 [simp]: "bilibili_mirrors downloader0 ''file'' = [''file'']"
  by (simp add: bilibili_mirrors_def downloader0_def has_prefix_def)

lemma env_cdn_fetch:
  "wp (fetch_media downloader0 env_cdn [(''file'', 3)]) (\<lambda>r q. r = Inr ''/tmp/u.mp4'') []"
proof -
  have "bilibili_cdn ''a.bilivideo.com''" by code_simp
  then have "cdn_allowed downloader0 ''a.bilivideo.com''" by (simp add: cdn_allowed_def downloader0_def)
  then have "fetch_media downloader0 env_cdn [(''file'', 3)] = fetch_file downloader0 env_cdn ''file'' 3"
    by (simp add: fetch_media_def downloader0_def max_download_def chunk_size_def)
  moreover have "wp (file_loop env_cdn [''file''] path 3 0 0 0) Q h =
    Q (Inr 3) (h @ [Os (OGet ''file'' None), Os (OWriteAt path 0 ''ab''), Os OCtxErr, Os (OAwait ''download''), Os (OSleep 1000),
      Os (OGet ''file'' (Some (2, None))), Os (OWriteAt path 2 ''c'')])" for path Q h
    by (subst file_loop.simps, subst file_loop.simps)
       (simp add: env_cdn_def env0_def transfer_of_def wp_simps max_download_def deadline_passed_def Let_def)
  ultimately show ?thesis
    by (simp add: fetch_file_def into_temp_def temp_mp4_def fill_file_def discard_on_error_def wp_simps)
       (simp add: env_cdn_def env0_def downloader0_def wp_simps)
qed

section \<open>Properties\<close>

text \<open>(C17) An imported video is the video: when fetching a file of the announced size succeeds, by ranges or in one connection,
  through whatever drops, short answers, refusals and changes of mirror, the successful writes to the returned file
  follow each other from offset 0 without gap or overlap, at most 2 GB, at least the announced size, and their bytes are the content the
  mirrors serve; when the announced size is the length of the content, the file is the content.  The mirrors are
  assumed to serve one content: what they send for an offset is the content from there.\<close>

theorem fetched_content:
  assumes "yd_parse D src = Some media" and "serves E (bilibili_mirrors D (ur_text media)) content"
    and "run_state (fetch_media D E [(src, sz)]) h = (Inr out, q)"
  shows "\<exists>n ws. ws = writes E out h (drop (length h) q) \<and> 0 < n \<and> n \<le> 2 ^ 31 \<and> sz \<le> n \<and> tiles 0 n ws \<and>
    concat (map snd ws) = take (nat n) content \<and> (sz = int (length content) \<longrightarrow> concat (map snd ws) = content)"
proof -
  obtain n ys where q: "q = h @ ys" and n: "0 < n" "n \<le> max_download" "sz \<le> n" and m: "moved E content out 0 n h ys"
    using wp_run [OF assms(3) fetch_media_delivers [OF assms(1,2)]] by blast
  then have t: "tiles 0 n (writes E out h ys)" "copies content (writes E out h ys)" by (simp_all add: moved_def)
  have "concat (map snd (writes E out h ys)) = take (nat n) content" using tiles_content [OF t] by simp
  moreover have "n \<le> int (length content)" using tiles_within [OF t] n by simp
  ultimately show ?thesis using n t(1) by (intro exI [of _ n] exI [of _ "writes E out h ys"]) (auto simp: q max_download_def)
qed

theorem fetched_content_witness:
  "\<exists>q. run_state (fetch_media downloader0 env_cdn [(''file'', 3)]) [] = (Inr ''/tmp/u.mp4'', q) \<and>
    concat (map snd (writes env_cdn ''/tmp/u.mp4'' [] q)) = ''abc''"
proof -
  obtain r q where run: "run_state (fetch_media downloader0 env_cdn [(''file'', 3)]) [] = (r, q)" by fastforce
  with wp_run [OF run env_cdn_fetch] have ok: "run_state (fetch_media downloader0 env_cdn [(''file'', 3)]) [] = (Inr ''/tmp/u.mp4'', q)" by simp
  have "yd_parse downloader0 ''file'' = Some \<lparr>ur_scheme = ''https'', ur_host = ''a.bilivideo.com'', ur_path = ''/f'', ur_part = [], ur_text = ''file''\<rparr>"
    by (simp add: downloader0_def)
  from fetched_content [OF this env_cdn_serves ok] ok show ?thesis by auto
qed

text \<open>(C16) An import goes nowhere the check does not allow: the first request of a download is the resolution of the host of
  the link; every later one follows an answer that gave addresses, none of them refused, for a link with scheme http or https.
  The program started is the configured yt-dlp on exactly that link; the URLs fetched are the link itself (a short link), the API of
  the site, or mirrors of a file whose host is on its CDN.\<close>

theorem download_confined:
  assumes "run_state (download D E raw) h = (r, q)" and "c \<in> set (drop (length h) q)"
  shows "\<exists>p. prefix h p \<and> prefix (p @ [c]) q \<and>
    ((\<exists>u. yd_parse D raw = Some u \<and> c = Os (OResolve (ur_host u))) \<or> (vetted D E raw h p \<and> confined D raw c))"
  using guarded_mem [OF wp_run [OF assms(1) download_guarded] assms(2)] by (simp add: download_call_def)

theorem download_confined_witness:
  "\<exists>p. vetted downloader0 env_off ''page'' [] p \<and>
    confined downloader0 ''page'' (Os (OGet ''https://api.bilibili.com/x/player/pagelist?BV0123456789'' None))"
proof -
  let ?c = "Os (OGet ''https://api.bilibili.com/x/player/pagelist?BV0123456789'' None)"
  obtain r q where run: "run_state (download downloader0 env_off ''page'') [] = (r, q)" by fastforce
  have e: "is_bilibili ''bilibili.com''" "\<not> equal_fold ''bilibili.com'' ''b23.tv''" "equal_fold ''https'' ''https''"
    "find_bv ''/video/BV0123456789'' = Some ''BV0123456789''"
    by (simp_all add: is_bilibili_def trim_dot_def has_suffix_def has_prefix_def equal_fold_def fold_rune_def is_alnum_def str_eval)
  have "atoi [] = None" by code_simp
  moreover have "\<not> is_disallowed_address [1, 1, 1, 1]"
    by (simp add: disallowed_to4 to4_def blocked_v4_def in_net_v4 byte_masks byte_ranges word_le_nat_alt)
  ultimately have "wp (download downloader0 env_off ''page'') (\<lambda>r q. ?c \<in> set q) []"
    using e
    by (simp add: download_def validate_public_url_def download_bilibili_def bilibili_target_def bili_pages_def bili_get_def bili_api_base_def
        wp_simps downloader0_def env_off_def env0_def)
  then have "?c \<in> set (drop (length []) q)" using wp_run [OF run] by simp
  from download_confined [OF run this] show ?thesis by auto
qed

end
