(* ===== verification/RangeWorkers.thy ===== *)
theory RangeWorkers
  imports Downloader "HOL-Library.Multiset"
begin

text \<open>
  The goroutines of fetchChunks (internal/ytdlp/bilibili.go) as a transition system: the feeding loop hands the
  ranges over an unbuffered channel, eight workers fetch them, a worker whose range failed reports the
  error, cancels the others and returns, and the caller waits for all of them.  The deadline or the caller may cancel at any
  time.  The sequential reading of the same function is \<open>fill_chunks\<close>.
\<close>

section \<open>State and steps\<close>

datatype range_worker = Idle | Fetching int | Failing goerr | Reported | Returned

record crew =
  cw_todo :: "int list"
  cw_open :: bool
  cw_workers :: "range_worker list"
  cw_errs :: "goerr list"
  cw_cancelled :: bool
  cw_done :: "int list"
  cw_lost :: "int list"

definition chunk_workers :: nat where "chunk_workers = 8"

definition new_crew :: "int \<Rightarrow> crew" where
  "new_crew sz = \<lparr>cw_todo = chunk_starts sz 0, cw_open = True, cw_workers = replicate chunk_workers Idle, cw_errs = [],
     cw_cancelled = False, cw_done = [], cw_lost = []\<rparr>"

text \<open>\<open>hand\<close> is the send on the channel meeting the receive of an idle worker; \<open>finish\<close> and \<open>give_up\<close> are the two ends of
  fetchRange.  The channel of errors has room for one error per worker.\<close>

inductive crew_work :: "crew \<Rightarrow> crew \<Rightarrow> bool" where
  hand: "cw_open c \<Longrightarrow> cw_todo c = s # rest \<Longrightarrow> w < length (cw_workers c) \<Longrightarrow> cw_workers c ! w = Idle \<Longrightarrow>
    crew_work c (c\<lparr>cw_todo := rest, cw_workers := (cw_workers c)[w := Fetching s]\<rparr>)"
| stop_feeding: "cw_open c \<Longrightarrow> cw_todo c \<noteq> [] \<Longrightarrow> cw_cancelled c \<Longrightarrow> crew_work c (c\<lparr>cw_open := False\<rparr>)"
| close_jobs: "cw_open c \<Longrightarrow> cw_todo c = [] \<Longrightarrow> crew_work c (c\<lparr>cw_open := False\<rparr>)"
| finish: "w < length (cw_workers c) \<Longrightarrow> cw_workers c ! w = Fetching s \<Longrightarrow>
    crew_work c (c\<lparr>cw_workers := (cw_workers c)[w := Idle], cw_done := s # cw_done c\<rparr>)"
| give_up: "w < length (cw_workers c) \<Longrightarrow> cw_workers c ! w = Fetching s \<Longrightarrow>
    crew_work c (c\<lparr>cw_workers := (cw_workers c)[w := Failing e], cw_lost := s # cw_lost c\<rparr>)"
| report: "w < length (cw_workers c) \<Longrightarrow> cw_workers c ! w = Failing e \<Longrightarrow> length (cw_errs c) < chunk_workers \<Longrightarrow>
    crew_work c (c\<lparr>cw_workers := (cw_workers c)[w := Reported], cw_errs := cw_errs c @ [e]\<rparr>)"
| cancel_others: "w < length (cw_workers c) \<Longrightarrow> cw_workers c ! w = Reported \<Longrightarrow>
    crew_work c (c\<lparr>cw_workers := (cw_workers c)[w := Returned], cw_cancelled := True\<rparr>)"
| drained: "w < length (cw_workers c) \<Longrightarrow> cw_workers c ! w = Idle \<Longrightarrow> \<not> cw_open c \<Longrightarrow>
    crew_work c (c\<lparr>cw_workers := (cw_workers c)[w := Returned]\<rparr>)"

inductive crew_step :: "crew \<Rightarrow> crew \<Rightarrow> bool" where
  works: "crew_work c d \<Longrightarrow> crew_step c d"
| expires: "\<not> cw_cancelled c \<Longrightarrow> crew_step c (c\<lparr>cw_cancelled := True\<rparr>)"

text \<open>wg.Wait returned after the channel was closed, and what fetchChunks makes of the state.\<close>

definition crew_over :: "crew \<Rightarrow> bool" where
  "crew_over c = (\<not> cw_open c \<and> list_all (\<lambda>w. w = Returned) (cw_workers c))"

definition crew_result :: "crew \<Rightarrow> unit res" where
  "crew_result c = (case cw_errs c of e # es \<Rightarrow> Inl e
     | [] \<Rightarrow> if cw_cancelled c then Inl (Internal m_yd_timeout None) else Inr ())"

section \<open>The ranges partition the file\<close>

lemma chunk_size_pos [simp]: "0 < chunk_size"
  by (simp add: chunk_size_def)

lemma chunk_starts_ge: "s \<in> set (chunk_starts sz a) \<Longrightarrow> a \<le> s \<and> s < sz"
proof (induction sz a rule: chunk_starts.induct)
  case (1 sz a)
  show ?case
  proof (cases "s = a")
    case False
    with 1(2) have "a < sz" "s \<in> set (chunk_starts sz (a + chunk_size))"
      by (subst (asm) chunk_starts.simps, simp split: if_splits)+
    then have "a + chunk_size \<le> s \<and> s < sz" by (rule 1(1))
    with chunk_size_pos show ?thesis by linarith
  qed (use 1(2) in \<open>subst (asm) chunk_starts.simps, simp split: if_splits\<close>)
qed

lemma chunk_cover:
  "a \<le> x \<Longrightarrow> x < sz \<Longrightarrow> \<exists>!s. s \<in> set (chunk_starts sz a) \<and> s \<le> x \<and> x \<le> chunk_last sz s"
proof (induction sz a rule: chunk_starts.induct)
  case (1 sz a)
  then have st: "chunk_starts sz a = a # chunk_starts sz (a + chunk_size)" by (subst chunk_starts.simps) simp
  show ?case
  proof (cases "x < a + chunk_size")
    case True
    show ?thesis
    proof (rule ex1I [of _ a])
      show "a \<in> set (chunk_starts sz a) \<and> a \<le> x \<and> x \<le> chunk_last sz a" using 1 True by (simp add: st chunk_last_def)
      show "s = a" if "s \<in> set (chunk_starts sz a) \<and> s \<le> x \<and> x \<le> chunk_last sz s" for s
        using that True by (auto simp: st dest: chunk_starts_ge)
    qed
  next
    case False
    then have "a + chunk_size \<le> x" by simp
    from 1(1) [OF _ this 1(3)] 1(2,3) show ?thesis using False by (auto simp: st chunk_last_def)
  qed
qed

section \<open>Invariant\<close>

definition held :: "range_worker \<Rightarrow> int list" where
  "held w = (case w of Fetching s \<Rightarrow> [s] | _ \<Rightarrow> [])"

definition parted :: "range_worker \<Rightarrow> nat" where
  "parted w = (if w = Reported \<or> w = Returned then 1 else 0)"

definition failing :: "range_worker \<Rightarrow> bool" where
  "failing w = (\<exists>e. w = Failing e)"

definition crew_inv :: "int \<Rightarrow> crew \<Rightarrow> bool" where
  "crew_inv sz c = (length (cw_workers c) = chunk_workers \<and>
     mset (cw_todo c) + mset (concat (map held (cw_workers c))) + mset (cw_done c) + mset (cw_lost c) = mset (chunk_starts sz 0) \<and>
     length (cw_errs c) \<le> sum_list (map parted (cw_workers c)) \<and>
     (cw_lost c \<noteq> [] \<longrightarrow> cw_errs c \<noteq> [] \<or> list_ex failing (cw_workers c)) \<and>
     (\<not> cw_open c \<and> cw_todo c \<noteq> [] \<longrightarrow> cw_cancelled c) \<and>
     (cw_open c \<and> Returned \<in> set (cw_workers c) \<longrightarrow> cw_cancelled c))"

lemma held_update:
  "i < length ws \<Longrightarrow> mset (concat (map held (ws[i := v]))) + mset (held (ws ! i)) = mset (concat (map held ws)) + mset (held v)"
  by (induction ws arbitrary: i) (auto simp: nth_Cons list_update.simps ac_simps split: nat.splits)

lemma weight_update:
  "i < length ws \<Longrightarrow> sum_list (map f (ws[i := v])) + f (ws ! i) = sum_list (map f ws) + (f v :: nat)"
  by (induction ws arbitrary: i) (auto simp: nth_Cons ac_simps split: nat.splits)

lemma failing_update: "i < length ws \<Longrightarrow> \<not> failing (ws ! i) \<Longrightarrow> list_ex failing ws \<Longrightarrow> list_ex failing (ws[i := v])"
  by (induction ws arbitrary: i) (auto split: nat.splits)

lemma failing_here: "i < length ws \<Longrightarrow> failing v \<Longrightarrow> list_ex failing (ws[i := v])"
  by (induction ws arbitrary: i) (auto split: nat.splits)

lemma returned_update: "v \<noteq> Returned \<Longrightarrow> Returned \<in> set (ws[i := v]) \<Longrightarrow> Returned \<in> set ws"
  using set_update_subset_insert [of ws i v] by auto

lemma crew_inv_work: "crew_work c d \<Longrightarrow> crew_inv sz c \<Longrightarrow> crew_inv sz d"
proof (induction rule: crew_work.induct)
  case (hand c s rest w)
  then show ?case
    using held_update [of w "cw_workers c" "Fetching s"] weight_update [of w "cw_workers c" parted "Fetching s"]
      failing_update [of w "cw_workers c" "Fetching s"] returned_update [of "Fetching s" "cw_workers c" w]
    by (auto simp: crew_inv_def held_def parted_def failing_def)
next
  case (finish w c s)
  then show ?case
    using held_update [of w "cw_workers c" Idle, symmetric] weight_update [of w "cw_workers c" parted Idle]
      failing_update [of w "cw_workers c" Idle] returned_update [of Idle "cw_workers c" w]
    by (auto simp: crew_inv_def held_def parted_def failing_def)
next
  case (give_up w c s e)
  then show ?case
    using held_update [of w "cw_workers c" "Failing e", symmetric] weight_update [of w "cw_workers c" parted "Failing e"]
      failing_here [of w "cw_workers c" "Failing e"] returned_update [of "Failing e" "cw_workers c" w]
    by (auto simp: crew_inv_def held_def parted_def failing_def)
next
  case (report w c e)
  then show ?case
    using held_update [of w "cw_workers c" Reported] weight_update [of w "cw_workers c" parted Reported]
      returned_update [of Reported "cw_workers c" w]
    by (auto simp: crew_inv_def held_def parted_def)
next
  case (cancel_others w c)
  then show ?case
    using held_update [of w "cw_workers c" Returned] weight_update [of w "cw_workers c" parted Returned]
      failing_update [of w "cw_workers c" Returned]
    by (auto simp: crew_inv_def held_def parted_def failing_def)
next
  case (drained w c)
  then show ?case
    using held_update [of w "cw_workers c" Returned] weight_update [of w "cw_workers c" parted Returned]
      failing_update [of w "cw_workers c" Returned]
    by (auto simp: crew_inv_def held_def parted_def failing_def)
qed (auto simp: crew_inv_def)

interpretation crew: inductive_system "\<lambda>c. c = new_crew sz" crew_step "crew_inv sz"
proof
  show "crew_inv sz c" if "c = new_crew sz" for c
    using that by (simp add: crew_inv_def new_crew_def held_def parted_def chunk_workers_def numeral_eq_Suc)
  show "crew_inv sz d" if "crew_step c d" "crew_inv sz c" for c d
    using that
  proof (induction rule: crew_step.induct)
    case (works c d)
    then show ?case by (rule crew_inv_work)
  qed (simp add: crew_inv_def)
qed

section \<open>Progress\<close>

definition worker_weight :: "range_worker \<Rightarrow> nat" where
  "worker_weight w = (case w of Idle \<Rightarrow> 1 | Fetching s \<Rightarrow> 4 | Failing e \<Rightarrow> 3 | Reported \<Rightarrow> 2 | Returned \<Rightarrow> 0)"

definition crew_left :: "crew \<Rightarrow> nat" where
  "crew_left c = 4 * length (cw_todo c) + sum_list (map worker_weight (cw_workers c)) + (if cw_open c then 1 else 0) +
     (if cw_cancelled c then 0 else 1)"

lemma crew_step_decreases: "crew_step c d \<Longrightarrow> crew_left d < crew_left c"
proof (induction rule: crew_step.induct)
  case (works c d)
  note weight = weight_update [of _ "cw_workers c" worker_weight]
  from works show ?case
  proof (cases rule: crew_work.cases)
    case (hand s rest w)
    then show ?thesis using weight [of w "Fetching s"] by (simp add: crew_left_def worker_weight_def)
  next
    case (finish w s)
    then show ?thesis using weight [of w Idle] by (simp add: crew_left_def worker_weight_def)
  next
    case (give_up w s e)
    then show ?thesis using weight [of w "Failing e"] by (simp add: crew_left_def worker_weight_def)
  next
    case (report w e)
    then show ?thesis using weight [of w Reported] by (simp add: crew_left_def worker_weight_def)
  next
    case (cancel_others w)
    then show ?thesis using weight [of w Returned] by (simp add: crew_left_def worker_weight_def)
  next
    case (drained w)
    then show ?thesis using weight [of w Returned] by (simp add: crew_left_def worker_weight_def)
  qed (simp_all add: crew_left_def)
qed (simp add: crew_left_def)

lemma parted_le: "sum_list (map parted ws) \<le> length ws"
  by (induction ws) (simp_all add: parted_def)

lemma crew_works_on:
  assumes "crew_inv sz c" and "\<not> crew_over c"
  shows "\<exists>d. crew_work c d"
proof (cases "\<exists>w < length (cw_workers c). cw_workers c ! w \<noteq> Returned")
  case False
  then have all: "list_all (\<lambda>w. w = Returned) (cw_workers c)" by (auto simp: list_all_length)
  with assms(2) have o: "cw_open c" by (simp add: crew_over_def)
  have "Returned \<in> set (cw_workers c)"
    using assms(1) all by (cases "cw_workers c") (auto simp: crew_inv_def chunk_workers_def)
  with o assms(1) have "cw_cancelled c" by (simp add: crew_inv_def)
  with o show ?thesis by (cases "cw_todo c = []") (blast intro: stop_feeding close_jobs)+
next
  case True
  then obtain w where w: "w < length (cw_workers c)" "cw_workers c ! w \<noteq> Returned" by blast
  show ?thesis
  proof (cases "cw_workers c ! w")
    case Idle
    then show ?thesis
    proof (cases "cw_open c")
      case True
      with Idle w(1) show ?thesis by (cases "cw_todo c") (blast intro: hand close_jobs)+
    qed (use w Idle drained in blast)
  next
    case (Failing e)
    have "sum_list (map parted (cw_workers c)) < length (cw_workers c)"
      using weight_update [OF w(1), of parted Returned] parted_le [of "(cw_workers c)[w := Returned]"] Failing by (simp add: parted_def)
    then have "length (cw_errs c) < chunk_workers" using assms(1) by (simp add: crew_inv_def)
    with w(1) Failing show ?thesis by (blast intro: report)
  qed (use w finish cancel_others in blast)+
qed

section \<open>Properties\<close>

lemma crew_over_held: "list_all (\<lambda>w. w = Returned) ws \<Longrightarrow> concat (map held ws) = []"
  by (induction ws) (simp_all add: held_def)

lemma crew_over_failing: "list_all (\<lambda>w. w = Returned) ws \<Longrightarrow> \<not> list_ex failing ws"
  by (induction ws) (simp_all add: failing_def)

text \<open>(C18) The parallel download is complete or reported as failed: in every interleaving of the feeding loop, the eight
  workers, failing ranges, the deadline and a caller that goes away, when all workers returned and fetchChunks reports
  success, every range was fetched exactly once, and every byte offset of the file lies in exactly one of them.\<close>

theorem crew_complete:
  assumes "reach (\<lambda>c. c = new_crew sz) crew_step c" and "crew_over c" and "crew_result c = Inr ()"
  shows "mset (cw_done c) = mset (chunk_starts sz 0) \<and>
    (\<forall>x. 0 \<le> x \<and> x < sz \<longrightarrow> (\<exists>!s. s \<in> set (cw_done c) \<and> s \<le> x \<and> x \<le> chunk_last sz s))"
proof -
  have inv: "crew_inv sz c" using assms(1) by (rule crew.reach_inv)
  have ok: "cw_errs c = []" "\<not> cw_cancelled c" using assms(3) by (auto simp: crew_result_def split: list.splits if_splits)
  have over: "list_all (\<lambda>w. w = Returned) (cw_workers c)" "\<not> cw_open c" using assms(2) by (simp_all add: crew_over_def)
  have "cw_todo c = []" "cw_lost c = []" using inv ok over crew_over_failing [OF over(1)] by (auto simp: crew_inv_def)
  with inv crew_over_held [OF over(1)] have m: "mset (cw_done c) = mset (chunk_starts sz 0)" by (simp add: crew_inv_def)
  then have "set (cw_done c) = set (chunk_starts sz 0)" by (rule mset_eq_setD)
  with m chunk_cover show ?thesis by auto
qed

text \<open>Idle workers of a closed channel all return; a run of one range that succeeds.\<close>

lemma crew_reach: "reach I crew_step c \<Longrightarrow> crew_work c d \<Longrightarrow> reach I crew_step d"
  using reach_step works by metis

lemma crew_drain:
  "reach I crew_step c \<Longrightarrow> \<not> cw_open c \<Longrightarrow> cw_workers c = replicate k Returned @ replicate n Idle \<Longrightarrow>
    reach I crew_step (c\<lparr>cw_workers := replicate (k + n) Returned\<rparr>)"
proof (induction n arbitrary: c k)
  case (Suc n)
  let ?d = "c\<lparr>cw_workers := (cw_workers c)[k := Returned]\<rparr>"
  have "crew_work c ?d" using Suc.prems by (intro drained) (simp_all add: nth_append)
  then have "reach I crew_step ?d" using Suc.prems(1) crew_reach by metis
  moreover have "cw_workers ?d = replicate (Suc k) Returned @ replicate n Idle"
    using Suc.prems(3) by (simp add: list_update_append replicate_app_Cons_same)
  ultimately have "reach I crew_step (?d\<lparr>cw_workers := replicate (Suc k + n) Returned\<rparr>)" using Suc.prems(2) by (intro Suc.IH) simp_all
  then show ?case by simp
next
  case 0
  then have "c\<lparr>cw_workers := replicate (k + 0) Returned\<rparr> = c" by (cases c) simp
  then show ?case using 0(1) by (rule ssubst)
qed

lemma crew_one_range:
  assumes "0 < sz" and "sz \<le> chunk_size"
  shows "reach (\<lambda>c. c = new_crew sz) crew_step \<lparr>cw_todo = [], cw_open = False, cw_workers = replicate 8 Returned, cw_errs = [],
    cw_cancelled = False, cw_done = [0], cw_lost = []\<rparr>"
proof -
  define fetching :: crew where "fetching = \<lparr>cw_todo = [], cw_open = True, cw_workers = Fetching 0 # replicate 7 Idle, cw_errs = [],
    cw_cancelled = False, cw_done = [], cw_lost = []\<rparr>"
  have st: "chunk_starts sz 0 = [0]" using assms by (subst chunk_starts.simps, subst chunk_starts.simps) simp
  have r8: "replicate 8 x = x # replicate 7 x" for x :: range_worker by (simp add: numeral_eq_Suc)
  have "crew_work (new_crew sz) fetching"
    using hand [of "new_crew sz" 0 "[]" 0] by (simp add: new_crew_def st chunk_workers_def fetching_def r8)
  moreover have "crew_work fetching (fetching\<lparr>cw_workers := replicate 8 Idle, cw_done := [0]\<rparr>)"
    using finish [of 0 fetching 0] by (simp add: fetching_def r8)
  moreover have "crew_work (fetching\<lparr>cw_workers := replicate 8 Idle, cw_done := [0]\<rparr>)
      (fetching\<lparr>cw_workers := replicate 8 Idle, cw_done := [0], cw_open := False\<rparr>)"
    using close_jobs [of "fetching\<lparr>cw_workers := replicate 8 Idle, cw_done := [0]\<rparr>"] by (simp add: fetching_def)
  ultimately have "reach (\<lambda>c. c = new_crew sz) crew_step (fetching\<lparr>cw_workers := replicate 8 Idle, cw_done := [0], cw_open := False\<rparr>)"
    using reach_init [of "\<lambda>c. c = new_crew sz" "new_crew sz" crew_step] by (blast intro: crew_reach)
  from crew_drain [OF this, of 0 8] show ?thesis by (simp add: fetching_def)
qed

theorem crew_complete_witness:
  "reach (\<lambda>c. c = new_crew 5) crew_step \<lparr>cw_todo = [], cw_open = False, cw_workers = replicate 8 Returned, cw_errs = [],
    cw_cancelled = False, cw_done = [0], cw_lost = []\<rparr> \<and> mset [0] = mset (chunk_starts 5 0)"
proof -
  have r: "reach (\<lambda>c. c = new_crew 5) crew_step \<lparr>cw_todo = [], cw_open = False, cw_workers = replicate 8 Returned, cw_errs = [],
    cw_cancelled = False, cw_done = [0], cw_lost = []\<rparr>"
    by (rule crew_one_range) (simp_all add: chunk_size_def)
  from crew_complete [OF r] r show ?thesis by (simp add: crew_over_def crew_result_def list_all_iff)
qed

text \<open>(C19) The parallel download ends: in every reachable state either all workers returned and the channel is closed, or a step other
  than a cancellation from outside is possible (no deadlock: the feeding loop never waits for workers that are gone, a failing worker
  always finds room for its error), and every step lowers a bound, so no run has more steps than the bound at its start.\<close>

theorem crew_ends:
  assumes "reach (\<lambda>c. c = new_crew sz) crew_step c"
  shows "(crew_over c \<or> (\<exists>d. crew_work c d)) \<and> (\<forall>d. crew_step c d \<longrightarrow> crew_left d < crew_left c) \<and>
    crew_left c \<le> 4 * length (chunk_starts sz 0) + 10"
proof -
  have "crew_left c \<le> crew_left (new_crew sz)"
    using assms by (induction rule: reach.induct) (auto dest: crew_step_decreases)
  also have "crew_left (new_crew sz) = 4 * length (chunk_starts sz 0) + 10"
    by (simp add: crew_left_def new_crew_def worker_weight_def chunk_workers_def numeral_eq_Suc)
  finally show ?thesis
    using crew_works_on [OF crew.reach_inv [OF assms]] crew_step_decreases by blast
qed

theorem crew_ends_witness: "\<exists>d. crew_work (new_crew 5) d"
proof -
  have "\<not> crew_over (new_crew 5)" by (simp add: crew_over_def new_crew_def)
  then show ?thesis using crew_ends [OF reach_init [of "\<lambda>c. c = new_crew 5" "new_crew 5" crew_step]] by blast
qed

end
