(* ===== verification/Repo.thy ===== *)
theory Repo
  imports Router
begin

text \<open>
  The tables behind internal/repo/repo.go: what each method of the repositories selects and changes, as functions on
  the rows, and an environment whose database calls are answered from the tables.  A text column is compared under the
  collation of the schema, utf8mb4_unicode_ci, given by the parameter \<open>K\<close> (the collation key).  Every call may fail; a failed call changes
  nothing.  Building the SQL text is GORM's work.
\<close>

section \<open>Rows\<close>

type_synonym checkpoint_row = "(int \<times> gostr) \<times> gostr \<times> gostr option"

record tables =
  tb_users :: "user list"
  tb_media :: "media_file list"
  tb_failed :: "failed_task list"
  tb_checks :: "checkpoint_row list"
  tb_user_id :: int
  tb_media_id :: int
  tb_failed_id :: int

text \<open>A collation key.\<close>

type_synonym collation = "gostr \<Rightarrow> gostr"

section \<open>Users\<close>

definition users_find_by_username :: "collation \<Rightarrow> tables \<Rightarrow> gostr \<Rightarrow> user option" where
  "users_find_by_username K T n = find (\<lambda>u. K (u_name u) = K n) (tb_users T)"

definition users_find_by_id :: "tables \<Rightarrow> int \<Rightarrow> user option" where
  "users_find_by_id T i = find (\<lambda>u. u_id u = i) (tb_users T)"

definition users_count :: "collation \<Rightarrow> tables \<Rightarrow> gostr \<Rightarrow> int" where
  "users_count K T n = int (length (filter (\<lambda>u. K (u_name u) = K n) (tb_users T)))"

definition users_create :: "collation \<Rightarrow> user \<Rightarrow> tables \<Rightarrow> int res \<times> tables" where
  "users_create K u T =
     (if list_ex (\<lambda>x. K (u_name x) = K (u_name u)) (tb_users T) then (Inl ErrDuplicate, T)
      else (Inr (tb_user_id T), T\<lparr>tb_users := tb_users T @ [u\<lparr>u_id := tb_user_id T\<rparr>], tb_user_id := tb_user_id T + 1\<rparr>))"

definition users_update_password :: "int \<Rightarrow> gostr \<Rightarrow> tables \<Rightarrow> tables" where
  "users_update_password i pw T = T\<lparr>tb_users := map (\<lambda>u. if u_id u = i then u\<lparr>u_password := pw\<rparr> else u) (tb_users T)\<rparr>"

section \<open>Media\<close>

definition media_find_by_id :: "tables \<Rightarrow> int \<Rightarrow> media_file option" where
  "media_find_by_id T i = find (\<lambda>m. mf_id m = i) (tb_media T)"

definition media_insert :: "media_file \<Rightarrow> tables \<Rightarrow> int \<times> tables" where
  "media_insert m T = (tb_media_id T,
     T\<lparr>tb_media := tb_media T @ [m\<lparr>mf_id := tb_media_id T\<rparr>], tb_media_id := tb_media_id T + 1\<rparr>)"

text \<open>Only some columns are selected; the others keep their zero values.\<close>

definition list_columns :: "media_file \<Rightarrow> media_file" where
  "list_columns m = \<lparr>mf_id = mf_id m, mf_user = 0, mf_filename = mf_filename m, mf_status = mf_status m, mf_path = [], mf_hash = None,
     mf_summary = None, mf_transcript = None, mf_cover = mf_cover m, mf_uploaded = mf_uploaded m\<rparr>"

definition media_list_by_user :: "tables \<Rightarrow> int \<Rightarrow> media_file list" where
  "media_list_by_user T uid = map list_columns (sort_key (\<lambda>m. - mf_id m) (filter (\<lambda>m. mf_user m = uid) (tb_media T)))"

definition media_delete_by_id :: "int \<Rightarrow> tables \<Rightarrow> tables" where
  "media_delete_by_id i T = T\<lparr>tb_media := filter (\<lambda>m. mf_id m \<noteq> i) (tb_media T)\<rparr>"

definition media_update_analysis :: "int \<Rightarrow> gostr \<Rightarrow> gostr option \<Rightarrow> tables \<Rightarrow> tables" where
  "media_update_analysis i summary transcript T = T\<lparr>tb_media := map (\<lambda>m. if mf_id m = i
     then m\<lparr>mf_summary := Some summary, mf_transcript := (case transcript of None \<Rightarrow> mf_transcript m | Some t \<Rightarrow> Some t)\<rparr> else m) (tb_media T)\<rparr>"

definition hash_columns :: "media_file \<Rightarrow> media_file" where
  "hash_columns m = \<lparr>mf_id = mf_id m, mf_user = 0, mf_filename = [], mf_status = [], mf_path = mf_path m, mf_hash = mf_hash m,
     mf_summary = None, mf_transcript = None, mf_cover = None, mf_uploaded = 0\<rparr>"

definition same_text :: "collation \<Rightarrow> gostr option \<Rightarrow> gostr \<Rightarrow> bool" where
  "same_text K col v = (case col of None \<Rightarrow> False | Some x \<Rightarrow> K x = K v)"

definition media_find_by_content_hash :: "collation \<Rightarrow> tables \<Rightarrow> gostr \<Rightarrow> media_file list" where
  "media_find_by_content_hash K T hs =
     map hash_columns (take 5 (sort_key (\<lambda>m. - mf_id m) (filter (\<lambda>m. same_text K (mf_hash m) hs) (tb_media T))))"

definition media_count_file_references :: "collation \<Rightarrow> tables \<Rightarrow> gostr option \<Rightarrow> gostr \<Rightarrow> int" where
  "media_count_file_references K T hs path = int (length (filter (\<lambda>m.
     (case hs of None \<Rightarrow> True | Some x \<Rightarrow> x = [] \<or> same_text K (mf_hash m) x) \<and> K (mf_path m) = K path) (tb_media T)))"

definition media_update_transcript :: "int \<Rightarrow> gostr \<Rightarrow> tables \<Rightarrow> tables" where
  "media_update_transcript i t T = T\<lparr>tb_media := map (\<lambda>m. if mf_id m = i then m\<lparr>mf_transcript := Some t\<rparr> else m) (tb_media T)\<rparr>"

section \<open>Failed tasks\<close>

definition failed_insert :: "failed_task \<Rightarrow> tables \<Rightarrow> tables" where
  "failed_insert t T = T\<lparr>tb_failed := tb_failed T @ [t\<lparr>ft_id := tb_failed_id T\<rparr>], tb_failed_id := tb_failed_id T + 1\<rparr>"

definition failed_latest :: "tables \<Rightarrow> failed_task list" where
  "failed_latest T = take 100 (sort_key (\<lambda>t. - ft_id t) (tb_failed T))"

definition failed_find_by_id :: "tables \<Rightarrow> int \<Rightarrow> failed_task option" where
  "failed_find_by_id T i = find (\<lambda>t. ft_id t = i) (tb_failed T)"

definition failed_mark_requeued :: "int \<Rightarrow> int \<Rightarrow> tables \<Rightarrow> int \<times> tables" where
  "failed_mark_requeued now i T = (int (length (filter (\<lambda>t. ft_id t = i) (tb_failed T))),
     T\<lparr>tb_failed := map (\<lambda>t. if ft_id t = i then t\<lparr>ft_status := ''REQUEUED'', ft_updated := now\<rparr> else t) (tb_failed T)\<rparr>)"

section \<open>Checkpoints\<close>

definition check_key :: "collation \<Rightarrow> int \<Rightarrow> gostr \<Rightarrow> int \<times> gostr" where
  "check_key K mid key = (mid, K key)"

definition row_key :: "collation \<Rightarrow> checkpoint_row \<Rightarrow> int \<times> gostr" where
  "row_key K r = check_key K (fst (fst r)) (snd (fst r))"

definition find_check :: "collation \<Rightarrow> tables \<Rightarrow> int \<Rightarrow> gostr \<Rightarrow> checkpoint_row option" where
  "find_check K T mid key = find (\<lambda>r. row_key K r = check_key K mid key) (tb_checks T)"

definition checkpoints_find_payload :: "collation \<Rightarrow> tables \<Rightarrow> int \<Rightarrow> gostr \<Rightarrow> gostr option" where
  "checkpoints_find_payload K T mid key = (case find_check K T mid key of None \<Rightarrow> None | Some r \<Rightarrow> snd (snd r))"

definition checkpoints_find_stage :: "collation \<Rightarrow> tables \<Rightarrow> int \<Rightarrow> gostr \<Rightarrow> gostr option" where
  "checkpoints_find_stage K T mid key = (case find_check K T mid key of None \<Rightarrow> None | Some r \<Rightarrow> Some (fst (snd r)))"

text \<open>INSERT ... ON DUPLICATE KEY UPDATE of the stage and the payload.\<close>

definition checkpoints_upsert :: "collation \<Rightarrow> int \<Rightarrow> gostr \<Rightarrow> gostr \<Rightarrow> gostr option \<Rightarrow> tables \<Rightarrow> tables" where
  "checkpoints_upsert K mid key stage payload T =
     (if find_check K T mid key = None then T\<lparr>tb_checks := tb_checks T @ [((mid, key), stage, payload)]\<rparr>
      else T\<lparr>tb_checks := map (\<lambda>r. if row_key K r = check_key K mid key then (fst r, stage, payload) else r) (tb_checks T)\<rparr>)"

definition checkpoints_upsert_pair :: "collation \<Rightarrow> int \<Rightarrow> gostr \<Rightarrow> gostr \<Rightarrow> gostr \<Rightarrow> gostr \<Rightarrow> tables \<Rightarrow> tables" where
  "checkpoints_upsert_pair K mid key stage_key stage payload T =
     checkpoints_upsert K mid stage_key stage None (checkpoints_upsert K mid key stage (Some payload) T)"

section \<open>The database as an environment\<close>

text \<open>What a call that succeeds changes; \<open>now\<close> is the clock of the server.\<close>

definition db_apply :: "collation \<Rightarrow> int \<Rightarrow> call \<Rightarrow> tables \<Rightarrow> tables" where
  "db_apply K now c T = (case c of
      Media (DCreateUser u) \<Rightarrow> snd (users_create K u T)
    | Media (DUpdatePassword i pw) \<Rightarrow> users_update_password i pw T
    | Media (DInsertMedia m) \<Rightarrow> snd (media_insert m T)
    | Media (DDeleteMedia i) \<Rightarrow> media_delete_by_id i T
    | Media (DUpdateAnalysis i s t) \<Rightarrow> media_update_analysis i s t T
    | Media (DUpdateTranscript i t) \<Rightarrow> media_update_transcript i t T
    | Ledger (DInsertFailed t) \<Rightarrow> failed_insert t T
    | Ledger (DMarkRequeued i) \<Rightarrow> snd (failed_mark_requeued now i T)
    | Ledger (DUpsert mid key stage payload) \<Rightarrow> checkpoints_upsert K mid key stage payload T
    | Ledger (DUpsertPair mid key skey stage payload) \<Rightarrow> checkpoints_upsert_pair K mid key skey stage payload T
    | _ \<Rightarrow> T)"

fun db_replay :: "collation \<Rightarrow> env \<Rightarrow> tables \<Rightarrow> hist \<Rightarrow> call list \<Rightarrow> tables" where
  "db_replay K E T h [] = T"
| "db_replay K E T h (c # cs) = db_replay K E (if acked E h c then db_apply K (a_num E h c) c T else T) (h @ [c]) cs"

definition db_state :: "collation \<Rightarrow> env \<Rightarrow> tables \<Rightarrow> hist \<Rightarrow> tables" where
  "db_state K E T h = db_replay K E T [] h"

text \<open>The answer of a call that may fail.\<close>

definition or_fail :: "env \<Rightarrow> hist \<Rightarrow> call \<Rightarrow> 'a res \<Rightarrow> 'a res" where
  "or_fail E h c r = (case a_err E h c of Some e \<Rightarrow> Inl e | None \<Rightarrow> r)"

definition db_env :: "collation \<Rightarrow> tables \<Rightarrow> env \<Rightarrow> env" where
  "db_env K T E = E\<lparr>
     a_user := (\<lambda>h c. case c of
         Media (DFindUserByName n) \<Rightarrow> or_fail E h c (Inr (users_find_by_username K (db_state K E T h) n))
       | Media (DFindUser i) \<Rightarrow> or_fail E h c (Inr (users_find_by_id (db_state K E T h) i))
       | _ \<Rightarrow> a_user E h c),
     a_media := (\<lambda>h c. case c of
         Media (DFindMedia i) \<Rightarrow> or_fail E h c (Inr (media_find_by_id (db_state K E T h) i))
       | _ \<Rightarrow> a_media E h c),
     a_medias := (\<lambda>h c. case c of
         Media (DListMedia uid) \<Rightarrow> or_fail E h c (Inr (media_list_by_user (db_state K E T h) uid))
       | Media (DFindByHash hs) \<Rightarrow> or_fail E h c (Inr (media_find_by_content_hash K (db_state K E T h) hs))
       | _ \<Rightarrow> a_medias E h c),
     a_int := (\<lambda>h c. case c of
         Media (DCountUsers n) \<Rightarrow> or_fail E h c (Inr (users_count K (db_state K E T h) n))
       | Media (DCreateUser u) \<Rightarrow> or_fail E h c (fst (users_create K u (db_state K E T h)))
       | Media (DInsertMedia m) \<Rightarrow> or_fail E h c (Inr (fst (media_insert m (db_state K E T h))))
       | Media (DCountRefs hs path) \<Rightarrow> or_fail E h c (Inr (media_count_file_references K (db_state K E T h) hs path))
       | Ledger (DMarkRequeued i) \<Rightarrow> or_fail E h c (Inr (fst (failed_mark_requeued (a_num E h c) i (db_state K E T h))))
       | _ \<Rightarrow> a_int E h c),
     a_failed := (\<lambda>h c. case c of
         Ledger (DFindFailed i) \<Rightarrow> or_fail E h c (Inr (failed_find_by_id (db_state K E T h) i))
       | _ \<Rightarrow> a_failed E h c),
     a_faileds := (\<lambda>h c. case c of
         Ledger DLatestFailed \<Rightarrow> or_fail E h c (Inr (failed_latest (db_state K E T h)))
       | _ \<Rightarrow> a_faileds E h c),
     a_ostr := (\<lambda>h c. case c of
         Ledger (DFindPayload mid key) \<Rightarrow> or_fail E h c (Inr (checkpoints_find_payload K (db_state K E T h) mid key))
       | Ledger (DFindStage mid key) \<Rightarrow> or_fail E h c (Inr (checkpoints_find_stage K (db_state K E T h) mid key))
       | _ \<Rightarrow> a_ostr E h c)\<rparr>"

section \<open>Facts\<close>

lemma db_env_fields [simp]:
  "a_err (db_env K T E) = a_err E" "a_num (db_env K T E) = a_num E" "a_bool (db_env K T E) = a_bool E" "a_str (db_env K T E) = a_str E"
  "url_path (db_env K T E) = url_path E" "mn_bucket (db_env K T E) = mn_bucket E" "mn_endpoint (db_env K T E) = mn_endpoint E"
  by (simp_all add: db_env_def)

lemma or_fail_Inr [simp]: "or_fail E h c r = Inr x \<longleftrightarrow> acked E h c \<and> r = Inr x"
  by (auto simp: or_fail_def split: option.splits)

lemma db_replay_append: "db_replay K E T h (xs @ ys) = db_replay K E (db_replay K E T h xs) (h @ xs) ys"
  by (induction xs arbitrary: T h) simp_all

lemma db_state_simps [simp]:
  "db_state K E T [] = T"
  "db_state K E T (h @ [c]) = (if acked E h c then db_apply K (a_num E h c) c (db_state K E T h) else db_state K E T h)"
  by (simp_all add: db_state_def db_replay_append)

text \<open>An invariant of the tables that every call keeps holds in every state.\<close>

lemma db_state_invariant:
  assumes "I T" and "\<And>now c T. I T \<Longrightarrow> I (db_apply K now c T)"
  shows "I (db_state K E T h)"
  by (induction h rule: rev_induct) (simp_all add: assms)

lemma db_state_mono:
  assumes "prefix p q" and "\<And>T. R T T" and "\<And>S T U. R S T \<Longrightarrow> R T U \<Longrightarrow> R S U" and "\<And>now c T. R T (db_apply K now c T)"
  shows "R (db_state K E T p) (db_state K E T q)"
proof -
  from assms(1) obtain xs where "q = p @ xs" by (auto simp: prefix_def)
  moreover have "R (db_state K E T p) (db_state K E T (p @ xs))" for xs
  proof (induction xs rule: rev_induct)
    case (snoc c xs)
    have "R (db_state K E T (p @ xs)) (db_state K E T ((p @ xs) @ [c]))" unfolding db_state_simps using assms(2,4) by simp
    with snoc assms(3) show ?case by (metis append_assoc)
  qed (simp add: assms(2))
  ultimately show ?thesis by simp
qed

lemma find_SomeD: "find P xs = Some x \<Longrightarrow> x \<in> set xs \<and> P x"
  by (auto simp: find_Some_iff in_set_conv_nth)

text \<open>A query by primary key returns the row of that key: what the session check relies on.\<close>

lemma keyed_db: "keyed (db_env K T E)"
  by (auto simp: keyed_def db_env_def media_find_by_id_def dest: find_SomeD)

section \<open>Reading what was written\<close>

text \<open>The contract of a table that is written by key: a written key answers the value, other keys keep theirs.\<close>

locale keyed_rows =
  fixes lookup :: "'t \<Rightarrow> 'k \<Rightarrow> 'v option" and store :: "'k \<Rightarrow> 'v \<Rightarrow> 't \<Rightarrow> 't" and same :: "'k \<Rightarrow> 'k \<Rightarrow> bool"
  assumes lookup_same: "same k k' \<Longrightarrow> lookup (store k v t) k' = Some v"
    and lookup_other: "\<not> same k k' \<Longrightarrow> lookup (store k v t) k' = lookup t k'"
begin

lemma lookup_store: "lookup (store k v t) k' = (if same k k' then Some v else lookup t k')"
  by (simp add: lookup_same lookup_other)

lemma lookup_stores:
  "lookup (fold (\<lambda>(k, v). store k v) kvs t) k' = (case find (\<lambda>(k, v). same k k') (rev kvs) of None \<Rightarrow> lookup t k' | Some (k, v) \<Rightarrow> Some v)"
  by (induction kvs rule: rev_induct) (auto simp: lookup_store)

end

lemma find_map_key: "(\<And>r. g (f r) = g r) \<Longrightarrow> find (\<lambda>r. g r = k) (map f rs) = map_option f (find (\<lambda>r. g r = k) rs)"
  by (induction rs) simp_all

lemma find_snoc: "find P (xs @ [x]) = (case find P xs of Some y \<Rightarrow> Some y | None \<Rightarrow> if P x then Some x else None)"
  by (induction xs) auto

definition check_row :: "collation \<Rightarrow> tables \<Rightarrow> int \<times> gostr \<Rightarrow> (gostr \<times> gostr option) option" where
  "check_row K T k = map_option snd (find_check K T (fst k) (snd k))"

definition write_row :: "collation \<Rightarrow> int \<times> gostr \<Rightarrow> gostr \<times> gostr option \<Rightarrow> tables \<Rightarrow> tables" where
  "write_row K k v = checkpoints_upsert K (fst k) (snd k) (fst v) (snd v)"

definition same_row :: "collation \<Rightarrow> int \<times> gostr \<Rightarrow> int \<times> gostr \<Rightarrow> bool" where
  "same_row K k k' = (check_key K (fst k) (snd k) = check_key K (fst k') (snd k'))"

lemma check_row_upsert:
  "check_row K (checkpoints_upsert K mid key stage payload T) k =
    (if same_row K (mid, key) k then Some (stage, payload) else check_row K T k)"
proof (cases "find_check K T mid key")
  case None
  then show ?thesis
    by (auto simp: checkpoints_upsert_def find_check_def find_snoc row_key_def check_row_def same_row_def split: option.splits)
next
  case (Some r0)
  let ?f = "\<lambda>r. if row_key K r = check_key K mid key then (fst r, stage, payload) else r"
  have f: "find (\<lambda>r. row_key K r = i) (map ?f (tb_checks T)) = map_option ?f (find (\<lambda>r. row_key K r = i) (tb_checks T))" for i
    by (rule find_map_key) (simp add: row_key_def)
  have "find_check K (checkpoints_upsert K mid key stage payload T) (fst k) (snd k) = map_option ?f (find_check K T (fst k) (snd k))"
    using Some f by (simp add: checkpoints_upsert_def find_check_def)
  moreover have "row_key K r = check_key K (fst k) (snd k)" if "find_check K T (fst k) (snd k) = Some r" for r
    using find_SomeD [OF that [unfolded find_check_def]] by simp
  ultimately show ?thesis
    using Some by (cases "find_check K T (fst k) (snd k)") (auto simp: check_row_def same_row_def find_check_def)
qed

interpretation check_rows: keyed_rows "check_row K" "write_row K" "same_row K"
  by unfold_locales (auto simp: write_row_def check_row_upsert)

lemma find_payload_rows:
  "checkpoints_find_payload K T mid key = (case check_row K T (mid, key) of None \<Rightarrow> None | Some v \<Rightarrow> snd v)"
  "checkpoints_find_stage K T mid key = (case check_row K T (mid, key) of None \<Rightarrow> None | Some v \<Rightarrow> Some (fst v))"
  by (auto simp: checkpoints_find_payload_def checkpoints_find_stage_def check_row_def split: option.splits)

text \<open>The pair of a payload row and a stage row under another key.\<close>

lemma upsert_pair_rows:
  assumes "K key \<noteq> K skey"
  shows "checkpoints_find_payload K (checkpoints_upsert_pair K mid key skey stage payload T) mid key = Some payload"
    "checkpoints_find_stage K (checkpoints_upsert_pair K mid key skey stage payload T) mid skey = Some stage"
proof -
  have pair: "checkpoints_upsert_pair K mid key skey stage payload T = fold (\<lambda>(k, v). write_row K k v)
      [((mid, key), (stage, Some payload)), ((mid, skey), (stage, None))] T"
    by (simp add: checkpoints_upsert_pair_def write_row_def)
  show "checkpoints_find_payload K (checkpoints_upsert_pair K mid key skey stage payload T) mid key = Some payload"
    "checkpoints_find_stage K (checkpoints_upsert_pair K mid key skey stage payload T) mid skey = Some stage"
    using assms unfolding find_payload_rows pair check_rows.lookup_stores by (simp_all add: same_row_def check_key_def)
qed

section \<open>Keys stay unique\<close>

definition wf_tables :: "collation \<Rightarrow> tables \<Rightarrow> bool" where
  "wf_tables K T = (distinct (map u_id (tb_users T)) \<and> (\<forall>u \<in> set (tb_users T). u_id u < tb_user_id T) \<and>
     distinct (map (\<lambda>u. K (u_name u)) (tb_users T)) \<and>
     distinct (map mf_id (tb_media T)) \<and> (\<forall>m \<in> set (tb_media T). mf_id m < tb_media_id T) \<and>
     distinct (map ft_id (tb_failed T)) \<and> (\<forall>t \<in> set (tb_failed T). ft_id t < tb_failed_id T) \<and>
     distinct (map (row_key K) (tb_checks T)))"

lemma wf_distinct_filter: "distinct (map f xs) \<Longrightarrow> distinct (map f (filter P xs))"
  by (induction xs) auto

lemma keep_columns [simp]:
  "u_id (if b then u\<lparr>u_password := pw\<rparr> else u) = u_id u" "u_name (if b then u\<lparr>u_password := pw\<rparr> else u) = u_name u"
  "mf_id (if b then m\<lparr>mf_summary := s, mf_transcript := t\<rparr> else m) = mf_id m"
  "mf_id (if b then m\<lparr>mf_transcript := t\<rparr> else m) = mf_id m"
  "ft_id (if b then f\<lparr>ft_status := st, ft_updated := now\<rparr> else f) = ft_id f"
  "row_key K (if b then (fst r, stage, payload) else r) = row_key K r"
  by (simp_all add: row_key_def)

lemma wf_rows:
  assumes "wf_tables K T"
  shows "wf_tables K (snd (users_create K u T))" "wf_tables K (users_update_password i pw T)"
    "wf_tables K (snd (media_insert m T))" "wf_tables K (media_delete_by_id i T)"
    "wf_tables K (media_update_analysis i s t T)" "wf_tables K (media_update_transcript i s T)"
    "wf_tables K (failed_insert ft T)" "wf_tables K (snd (failed_mark_requeued now i T))"
  using assms
  by (auto simp: wf_tables_def users_create_def users_update_password_def media_insert_def media_delete_by_id_def media_update_analysis_def
      media_update_transcript_def failed_insert_def failed_mark_requeued_def list_ex_iff comp_def intro: wf_distinct_filter)

lemma find_None_row: "find_check K T mid key = None \<Longrightarrow> check_key K mid key \<notin> row_key K ` set (tb_checks T)"
  by (force simp: find_check_def find_None_iff)

lemma wf_upsert:
  assumes "wf_tables K T"
  shows "wf_tables K (checkpoints_upsert K mid key stage payload T)"
proof (cases "find_check K T mid key = None")
  case True
  with assms find_None_row [OF True] show ?thesis
    by (auto simp: wf_tables_def checkpoints_upsert_def row_key_def [of K "((mid, key), stage, payload)"])
next
  case False
  then show ?thesis using assms by (auto simp: wf_tables_def checkpoints_upsert_def comp_def)
qed

lemma wf_apply: "wf_tables K T \<Longrightarrow> wf_tables K (db_apply K now c T)"
  by (simp add: db_apply_def checkpoints_upsert_pair_def wf_rows wf_upsert split: call.split media_call.split ledger_call.split)

lemma ids_apply: "tb_media_id T \<le> tb_media_id (db_apply K now c T)"
  by (simp add: db_apply_def users_create_def users_update_password_def media_insert_def media_delete_by_id_def media_update_analysis_def
      media_update_transcript_def failed_insert_def failed_mark_requeued_def checkpoints_upsert_pair_def checkpoints_upsert_def
      split: call.split media_call.split ledger_call.split)

section \<open>Properties\<close>


text \<open>Rows that share the path of \<open>m\<close> share its hash.\<close>

definition shared_hash :: "collation \<Rightarrow> tables \<Rightarrow> media_file \<Rightarrow> bool" where
  "shared_hash K T m = (\<forall>x \<in> set (tb_media T). K (mf_path x) = K (mf_path m) \<longrightarrow>
     (\<forall>hs. mf_hash m = Some hs \<and> hs \<noteq> [] \<longrightarrow> same_text K (mf_hash x) hs))"

lemma no_references:
  assumes "media_count_file_references K T (mf_hash m) (mf_path m) = 0" and "shared_hash K T m" and "x \<in> set (tb_media T)"
  shows "K (mf_path x) \<noteq> K (mf_path m)"
proof
  assume "K (mf_path x) = K (mf_path m)"
  with assms(2,3) have "x \<in> set (filter (\<lambda>x. (case mf_hash m of None \<Rightarrow> True | Some h \<Rightarrow> h = [] \<or> same_text K (mf_hash x) h) \<and>
      K (mf_path x) = K (mf_path m)) (tb_media T))"
    by (auto simp: shared_hash_def split: option.splits)
  with assms(1) show False by (auto simp: media_count_file_references_def)
qed

definition tables1 :: tables where
  "tables1 = \<lparr>tb_users = [], tb_media = [media1], tb_failed = [], tb_checks = [], tb_user_id = 1, tb_media_id = 8, tb_failed_id = 1\<rparr>"


text \<open>(C22) A deleted media takes its file along only when nobody else has it: with the tables answering the queries, when deleting a media
  removes an object of the store, then at the moment of the count no row of any user referred to the path of the file,
  provided that rows that share a path share the content hash, which instant upload and the merge of an upload keep.\<close>

theorem deleted_object_unreferenced:
  assumes "run_state (delete_owned_media (db_env K T E) mid uid) h = (r, q)"
    and "Store (SRemoveObject n) \<in> set (drop (length h) q)" and "\<not> has_prefix n ''evidence-frames/''"
    and "\<And>m p. media_find_by_id (db_state K E T h) mid = Some m \<Longrightarrow> prefix h p \<Longrightarrow> shared_hash K (db_state K E T p) m"
  shows "\<exists>m p. media_find_by_id (db_state K E T h) mid = Some m \<and> mf_user m = uid \<and> object_name E (mf_path m) = Inr n \<and>
    prefix h p \<and> prefix p q \<and> made (acked E) h (Media (DDeleteMedia mid)) q \<and>
    (\<forall>x \<in> set (tb_media (db_state K E T p)). K (mf_path x) \<noteq> K (mf_path m))"
proof -
  have "removals_ok (db_env K T E) mid uid h q" by (rule wp_run [OF assms(1) removals_ok_delete])
  with assms(2,3) obtain m where m: "may_remove (db_env K T E) mid uid h m n q" by (auto simp: removals_ok_def)
  have name: "object_name (db_env K T E) = object_name E" unfolding object_name_def db_env_fields by (rule refl)
  from m have row: "media_find_by_id (db_state K E T h) mid = Some m" by (auto simp: may_remove_def db_env_def)
  from m obtain p where p: "prefix h p" "prefix (p @ [Media (DCountRefs (mf_hash m) (mf_path m))]) q"
      "media_count_file_references K (db_state K E T p) (mf_hash m) (mf_path m) = 0"
    by (auto simp: may_remove_def made_def db_env_def)
  then have "prefix p q" by (blast dest: append_prefixD)
  with m row p(1) no_references [OF p(3) assms(4) [OF row p(1)]] name show ?thesis
    by (auto simp: may_remove_def)
qed

theorem deleted_object_unreferenced_witness:
  "\<exists>(m :: media_file) p. prefix p (final (delete_owned_media (db_env id tables1 env0) 7 3) []) \<and> object_name env0 (mf_path m) = Inr ''x.mp4'' \<and>
    (\<forall>x \<in> set (tb_media (db_state id env0 tables1 p)). mf_path x \<noteq> mf_path m)"
proof -
  let ?E = "db_env id tables1 env0"
  obtain r q where run: "run_state (delete_owned_media ?E 7 3) [] = (r, q)" by fastforce
  have n: "object_name ?E ''http://m/b/x.mp4'' = Inr ''x.mp4''"
    by (simp add: object_name_def env0_def has_prefix_def validate_object_name_def) (simp add: str_eval)
  have v: "validate_object_name ''x.mp4'' = Inr ()"
    by (simp add: validate_object_name_def has_prefix_def) (simp add: str_eval)
  have b: "\<not> is_blank ''http://m/b/x.mp4''" by (simp add: str_eval)
  have mg: "is_managed_file ?E ''http://m/b/x.mp4''" by (simp add: is_managed_file_def object_root_def has_prefix_def env0_def)
  have row: "a_media ?E [] (Media (DFindMedia 7)) = Inr (Some media1)"
    by (simp add: db_env_def or_fail_def env0_def media_find_by_id_def tables1_def media1_def)
  have refs: "a_int ?E [Media (DFindMedia 7), Media (DDeleteMedia 7)] (Media (DCountRefs None ''http://m/b/x.mp4'')) = Inr 0"
    by (simp add: db_env_def or_fail_def env0_def media_count_file_references_def tables1_def media1_def db_state_def db_apply_def media_delete_by_id_def)
  have ok: "a_err ?E p c = None" for p c by (simp add: env0_def)
  have m1: "mf_user media1 = 3" "mf_hash media1 = None" "mf_path media1 = ''http://m/b/x.mp4''" by (simp_all add: media1_def)
  have "wp (delete_owned_media ?E 7 3) (\<lambda>r h'. Store (SRemoveObject ''x.mp4'') \<in> set h') []"
    by (auto simp: delete_owned_media_def require_owned_media_def object_lock_def remove_file_def remove_object_def
        wp_simps row refs ok m1 b mg n v should_delete_object_def simp del: db_env_fields intro!: ext_intros wp_quiet dest!: set_mono_prefix)
  from wp_run [OF run this] have c: "Store (SRemoveObject ''x.mp4'') \<in> set (drop (length []) q)" by simp
  have e: "\<not> has_prefix ''x.mp4'' ''evidence-frames/''" by (simp add: has_prefix_def)
  have sh: "shared_hash id (db_state id env0 tables1 p) m" if "media_find_by_id (db_state id env0 tables1 []) 7 = Some m" for m p
  proof -
    have "m = media1" using that by (simp add: media_find_by_id_def tables1_def split: if_splits)
    then show ?thesis by (simp add: shared_hash_def m1)
  qed
  have "\<exists>(m :: media_file) p. prefix p q \<and> object_name env0 (mf_path m) = Inr ''x.mp4'' \<and>
    (\<forall>x \<in> set (tb_media (db_state id env0 tables1 p)). id (mf_path x) \<noteq> id (mf_path m))"
    using deleted_object_unreferenced [OF run c e] sh by blast
  with run show ?thesis by (simp add: final_def)
qed

end
