(* ===== verification/WorkerPool.thy ===== *)
theory WorkerPool
  imports Effects
begin

text \<open>
  The bounded executor: internal/workerpool/pool.go.  Submit and the goroutine it starts are several
  atomic actions each, so the pool is a transition system: the atomic Add(1) that accepts or will be
  undone, the Add(-1) of a rejected submission, a goroutine entering the run channel, leaving it, and
  decrementing the counter.
\<close>

record pool =
  pl_workers :: nat
  pl_capacity :: int
  pl_inflight :: int
  pl_rejecting :: nat
  pl_waiting :: nat
  pl_running :: nat
  pl_leaving :: nat

definition ErrRejected :: goerr where
  "ErrRejected = Plain ''worker pool is full'' None"

definition new_pool :: "int \<Rightarrow> int \<Rightarrow> pool" where
  "new_pool workers queue = (let w = (if workers < 1 then 1 else workers) in
     \<lparr>pl_workers = nat w, pl_capacity = w + queue, pl_inflight = 0, pl_rejecting = 0,
      pl_waiting = 0, pl_running = 0, pl_leaving = 0\<rparr>)"

text \<open>The first action of Submit: whether the task is accepted is decided by this one Add.\<close>

definition submit_add :: "pool \<Rightarrow> bool \<times> pool" where
  "submit_add p =
     (if pl_inflight p + 1 > pl_capacity p
      then (False, p\<lparr>pl_inflight := pl_inflight p + 1, pl_rejecting := pl_rejecting p + 1\<rparr>)
      else (True, p\<lparr>pl_inflight := pl_inflight p + 1, pl_waiting := pl_waiting p + 1\<rparr>))"

inductive pool_step :: "pool \<Rightarrow> pool \<Rightarrow> bool" where
  pool_submit: "pool_step p (snd (submit_add p))"
| pool_reject: "0 < pl_rejecting p \<Longrightarrow>
     pool_step p (p\<lparr>pl_inflight := pl_inflight p - 1, pl_rejecting := pl_rejecting p - 1\<rparr>)"
| pool_enter: "0 < pl_waiting p \<Longrightarrow> pl_running p < pl_workers p \<Longrightarrow>
     pool_step p (p\<lparr>pl_waiting := pl_waiting p - 1, pl_running := pl_running p + 1\<rparr>)"
| pool_leave: "0 < pl_running p \<Longrightarrow>
     pool_step p (p\<lparr>pl_running := pl_running p - 1, pl_leaving := pl_leaving p + 1\<rparr>)"
| pool_done: "0 < pl_leaving p \<Longrightarrow>
     pool_step p (p\<lparr>pl_inflight := pl_inflight p - 1, pl_leaving := pl_leaving p - 1\<rparr>)"

text \<open>Submit when no other submission is half-way.\<close>

definition submit :: "pool \<Rightarrow> unit res \<times> pool" where
  "submit p = (case submit_add p of
     (False, q) \<Rightarrow> (Inl ErrRejected, q\<lparr>pl_inflight := pl_inflight q - 1, pl_rejecting := pl_rejecting q - 1\<rparr>)
   | (True, q) \<Rightarrow> (Inr (), q))"

definition accepted_tasks :: "pool \<Rightarrow> nat" where
  "accepted_tasks p = pl_waiting p + pl_running p + pl_leaving p"

definition pool_init :: "nat \<Rightarrow> int \<Rightarrow> pool \<Rightarrow> bool" where
  "pool_init w cap p = (0 \<le> cap \<and> p = \<lparr>pl_workers = w, pl_capacity = cap, pl_inflight = 0, pl_rejecting = 0,
      pl_waiting = 0, pl_running = 0, pl_leaving = 0\<rparr>)"

definition pool_inv :: "nat \<Rightarrow> int \<Rightarrow> pool \<Rightarrow> bool" where
  "pool_inv w cap p = (pl_workers p = w \<and> pl_capacity p = cap \<and>
     pl_inflight p = int (accepted_tasks p + pl_rejecting p) \<and>
     pl_running p \<le> w \<and> int (accepted_tasks p) \<le> cap)"

interpretation pool: inductive_system "pool_init w cap" pool_step "pool_inv w cap"
proof
  fix p
  show "pool_init w cap p \<Longrightarrow> pool_inv w cap p"
    by (auto simp: pool_init_def pool_inv_def accepted_tasks_def)
next
  fix p q
  show "pool_step p q \<Longrightarrow> pool_inv w cap p \<Longrightarrow> pool_inv w cap q"
    by (induction rule: pool_step.induct)
       (auto simp: pool_inv_def accepted_tasks_def submit_add_def split: if_splits)
qed

lemma new_pool_init: "1 \<le> workers \<Longrightarrow> 0 \<le> queue \<Longrightarrow> pool_init (nat workers) (workers + queue) (new_pool workers queue)"
  by (simp add: pool_init_def new_pool_def Let_def)

section \<open>Properties\<close>



text \<open>Submit fails fast exactly at saturation: without other submissions half-way it accepts while
  fewer than \<open>workers + queue\<close> tasks are accepted, rejects otherwise, and a rejection leaves the pool as
  it was.\<close>

theorem submit_spec:
  assumes "pool_inv w cap p" and "pl_rejecting p = 0"
  shows "(int (accepted_tasks p) < cap \<longrightarrow> fst (submit p) = Inr () \<and> accepted_tasks (snd (submit p)) = accepted_tasks p + 1) \<and>
         (cap \<le> int (accepted_tasks p) \<longrightarrow> submit p = (Inl ErrRejected, p))"
  using assms by (auto simp: submit_def submit_add_def pool_inv_def accepted_tasks_def)

theorem submit_spec_witness:
  "fst (submit (new_pool 1 0)) = Inr () \<and> fst (submit (snd (submit (new_pool 1 0)))) = Inl ErrRejected"
proof -
  have a: "pool_inv 1 1 (new_pool 1 0)" "pl_rejecting (new_pool 1 0) = 0" "accepted_tasks (new_pool 1 0) = 0"
    by (simp_all add: pool_inv_def new_pool_def accepted_tasks_def Let_def)
  have b: "pool_inv 1 1 (snd (submit (new_pool 1 0)))" "pl_rejecting (snd (submit (new_pool 1 0))) = 0"
    "accepted_tasks (snd (submit (new_pool 1 0))) = 1"
    by (simp_all add: pool_inv_def new_pool_def accepted_tasks_def submit_def submit_add_def Let_def)
  from submit_spec [OF a(1,2)] a(3) submit_spec [OF b(1,2)] b(3) show ?thesis by simp
qed

end
