(* ===== verification/Startup.thy ===== *)
theory Startup
  imports Config RangeWorkers Repo WorkerPool
begin

text \<open>
  Starting and stopping the server: the lifecycle rule of the bucket (internal/storage/lifecycle.go), connecting to the object
  store (New of internal/storage/minio.go), creating the topics (internal/mq/topics.go) and the run function of
  cmd/server/main.go with its deferred releases and its graceful shutdown.  Parsing a URL and constructing the clients are library calls: the
  first is the parameter \<open>P\<close> (scheme and host), the others are calls of the environment, as are the steps of run that open a connection or start a goroutine;
  the code of an error answer of the store is the parameter \<open>code\<close>, and \<open>X\<close> recognises the broker's error TopicAlreadyExists.
\<close>

section \<open>The lifecycle of the bucket (lifecycle.go)\<close>

definition ChunkUploadPrefix :: gostr where "ChunkUploadPrefix = ''chunk-uploads/''"
definition chunk_rule_id :: gostr where "chunk_rule_id = ''expire-abandoned-chunk-uploads''"
definition chunk_retention_days :: int where "chunk_retention_days = 7"

text \<open>The rule; its other fields keep their zero values.\<close>

definition chunk_rule :: lifecycle_rule where
  "chunk_rule = \<lparr>lr_id = chunk_rule_id, lr_status = ''Enabled'', lr_prefix = ChunkUploadPrefix, lr_days = chunk_retention_days, lr_rest = []\<rparr>"

definition with_chunk_expiry :: "lifecycle_rule list option \<Rightarrow> lifecycle_rule list" where
  "with_chunk_expiry cfg = (case cfg of None \<Rightarrow> [] | Some rules \<Rightarrow> filter (\<lambda>r. lr_id r \<noteq> chunk_rule_id) rules) @ [chunk_rule]"

definition ensure_chunk_expiry :: "(goerr \<Rightarrow> gostr) \<Rightarrow> env \<Rightarrow> gostr \<Rightarrow> unit op" where
  "ensure_chunk_expiry code E bucket =
     bnd (ask (a_rules E) (Store (SGetLifecycle bucket))) (\<lambda>r.
       if (case r of Inl e \<Rightarrow> code e \<noteq> ''NoSuchLifecycleConfiguration'' | Inr _ \<Rightarrow> False) then ret ()
       else thenI (ask_err (a_err E) (Store (SSetLifecycle bucket (with_chunk_expiry (case r of Inl e \<Rightarrow> None | Inr current \<Rightarrow> current))))) (ret ()))"

section \<open>Connecting to the object store (minio.go)\<close>

record minio_client =
  mc_host :: gostr
  mc_secure :: bool
  mc_access :: gostr
  mc_secret :: gostr
  mc_region :: gostr

record minio =
  mi_client :: minio_client
  mi_public :: minio_client
  mi_bucket :: gostr
  mi_endpoint :: gostr

type_synonym url_parser = "gostr \<Rightarrow> (gostr \<times> gostr) res"

text \<open>strings.TrimRight(s, "/").\<close>

definition trim_right_slash :: "gostr \<Rightarrow> gostr" where
  "trim_right_slash s = rev (dropWhile (\<lambda>c. c = CHR ''/'') (rev s))"

definition set_up :: "env \<Rightarrow> gostr \<Rightarrow> unit opE" where
  "set_up E name = ask_err (a_err E) (Os (OSetup name))"

text \<open>url.Parse and the check of the host.\<close>

definition parse_endpoint :: "url_parser \<Rightarrow> gostr \<Rightarrow> gostr \<Rightarrow> (gostr \<times> gostr) res" where
  "parse_endpoint P msg s = (case P s of
      Inl e \<Rightarrow> Inl (Internal msg (Some e))
    | Inr u \<Rightarrow> if snd u = [] then Inl (Internal msg None) else Inr u)"

definition init_fail :: "'a opE \<Rightarrow> 'a opE" where
  "init_fail m = catchE m (\<lambda>e. failE (Internal m_minio_init (Some e))) okE"

definition new_client :: "config \<Rightarrow> gostr \<times> gostr \<Rightarrow> gostr \<Rightarrow> minio_client" where
  "new_client c u region = \<lparr>mc_host = snd u, mc_secure = (fst u = ''https''), mc_access = cf_MinioAccessKey c,
     mc_secret = cf_MinioSecretKey c, mc_region = region\<rparr>"

definition ensure_bucket :: "env \<Rightarrow> gostr \<Rightarrow> unit opE" where
  "ensure_bucket E b =
     bindE (init_fail (ask (a_bool E) (Store (SBucketExists b)))) (\<lambda>exists.
     if \<not> exists then init_fail (ask_err (a_err E) (Store (SMakeBucket b))) else okE ())"

definition public_client :: "url_parser \<Rightarrow> env \<Rightarrow> config \<Rightarrow> minio_client \<Rightarrow> minio_client opE" where
  "public_client P E c cli = (let pe = trim_space (cf_MinioPublicEndpoint c) in
     if pe \<noteq> [] \<and> trim_right_slash pe \<noteq> trim_right_slash (cf_MinioEndpoint c)
     then bindE (ret (parse_endpoint P m_minio_public pe)) (\<lambda>pu.
          bindE (init_fail (set_up E ''minio client'')) (\<lambda>_. okE (new_client c pu ''us-east-1'')))
     else okE cli)"

definition storage_new :: "(goerr \<Rightarrow> gostr) \<Rightarrow> url_parser \<Rightarrow> env \<Rightarrow> config \<Rightarrow> minio opE" where
  "storage_new code P E c =
     bindE (ret (parse_endpoint P m_minio_init (cf_MinioEndpoint c))) (\<lambda>u.
     bindE (init_fail (set_up E ''minio transport'')) (\<lambda>_.
     bindE (init_fail (set_up E ''minio client'')) (\<lambda>_.
     bindE (ensure_bucket E (cf_MinioBucket c)) (\<lambda>_.
     thenI (ensure_chunk_expiry code E (cf_MinioBucket c)) (
     bindE (public_client P E c (new_client c u [])) (\<lambda>public.
     okE \<lparr>mi_client = new_client c u [], mi_public = public, mi_bucket = cf_MinioBucket c,
          mi_endpoint = trim_right_slash (cf_MinioEndpoint c)\<rparr>))))))"

section \<open>Creating the topics (topics.go)\<close>

fun create_missing :: "(goerr \<Rightarrow> bool) \<Rightarrow> env \<Rightarrow> (gostr \<times> int) list \<Rightarrow> unit opE" where
  "create_missing X E [] = okE ()"
| "create_missing X E ((name, parts) # ss) =
     catchE (ask_err (a_err E) (Kafka (KCreateTopic name parts)))
       (\<lambda>e. if \<not> list_ex X (chain e) then failE (Plain (''create '' @ name @ '': '' @ error_text e) (Some e)) else create_missing X E ss)
       (\<lambda>_. create_missing X E ss)"

text \<open>The select of the loop: a deadline that has passed ends it at once, a wait that the context cuts short answers with an error.
  The last argument bounds the number of attempts.\<close>

definition topics_error :: "goerr \<Rightarrow> goerr" where
  "topics_error e = Plain (''ensure kafka topics: '' @ error_text e) (Some e)"

definition next_backoff :: "int \<Rightarrow> int" where
  "next_backoff b = min (b * 2) (seconds 5)"

fun ensure_loop :: "(goerr \<Rightarrow> bool) \<Rightarrow> env \<Rightarrow> (gostr \<times> int) list \<Rightarrow> int \<Rightarrow> int \<Rightarrow> nat \<Rightarrow> unit opE" where
  "ensure_loop X E specs deadline backoff 0 = failE DeadlineExceeded"
| "ensure_loop X E specs deadline backoff (Suc n) =
     catchE (create_missing X E specs)
       (\<lambda>e. bnd (now_ms E) (\<lambda>now.
          if deadline \<le> now then failE (topics_error e)
          else catchE (ask_err (a_err E) (Os (OSleep backoff))) (\<lambda>_. failE (topics_error e))
            (\<lambda>_. ensure_loop X E specs deadline (next_backoff backoff) n)))
       okE"

definition ensure_topics :: "(goerr \<Rightarrow> bool) \<Rightarrow> env \<Rightarrow> (gostr \<times> int) list \<Rightarrow> int \<Rightarrow> nat \<Rightarrow> unit opE" where
  "ensure_topics X E specs max_wait n = bnd (now_ms E) (\<lambda>now. ensure_loop X E specs (now + max_wait) 500 n)"

section \<open>The server (cmd/server/main.go)\<close>

definition topics_max_wait :: int where "topics_max_wait = seconds 90"

text \<open>22 attempts are enough for 90 seconds (\<open>ensure_topics_ends\<close>).\<close>

definition topics_attempts :: nat where "topics_attempts = 22"

text \<open>Pool sizes: AI calls are bound by I/O, speech recognition by the network, text recognition by the CPUs.\<close>

definition ocr_workers :: "int \<Rightarrow> int" where
  "ocr_workers cpus = min 8 (max 1 (cpus div 2))"

definition server_pools :: "int \<Rightarrow> (gostr \<times> pool) list" where
  "server_pools cpus = [(''ai'', new_pool 8 100), (''asr'', new_pool 8 50), (''ocr'', new_pool (ocr_workers cpus) 20)]"

text \<open>A deferred call runs last, whatever the result.\<close>

definition with_defer :: "gostr \<Rightarrow> 'a op \<Rightarrow> 'a op" where
  "with_defer name m = bnd m (\<lambda>r. thenI (ask (\<lambda>h c. ()) (Os (ORelease name))) (ret r))"

text \<open>A step that may fail followed by the deferred release of what it opened, and the same for a step that cannot fail.\<close>

definition opened :: "env \<Rightarrow> gostr \<Rightarrow> 'a opE \<Rightarrow> 'a opE" where
  "opened E name m = bindE (set_up E name) (\<lambda>_. with_defer name m)"

definition started :: "gostr \<Rightarrow> unit op" where
  "started name = ask (\<lambda>h c. ()) (Os (OSetup name))"

definition scoped :: "gostr \<Rightarrow> 'a op \<Rightarrow> 'a op" where
  "scoped name m = thenI (started name) (with_defer name m)"

definition main_topics :: "(goerr \<Rightarrow> bool) \<Rightarrow> env \<Rightarrow> unit opE" where
  "main_topics X E = opened E ''admin'' (ensure_topics X E topics topics_max_wait topics_attempts)"

text \<open>The graceful shutdown: end the event streams, drain HTTP, stop fetching, wait for the poll loop, let the tasks in flight
  finish, drain the pools.\<close>

definition shutdown_steps :: "call list" where
  "shutdown_steps = [Os (OSignal ''shutdown''), Os (OAwait ''http''), Os (OSignal ''polling''), Os (OAwait ''poll loop''), Os (OAwait ''runner''),
     Os (OAwait ''ai''), Os (OAwait ''asr''), Os (OAwait ''ocr'')]"

definition graceful_shutdown :: "unit op" where
  "graceful_shutdown = scoped ''deadline'' (forI shutdown_steps (ask (\<lambda>h c. ())))"

text \<open>The select of run: the listener failed, or a signal ended the context.\<close>

definition serve_until_signal :: "env \<Rightarrow> unit opE" where
  "serve_until_signal E = thenI (started ''http'') (
     bindE (ask_err (a_err E) (Os (OAwait ''serve''))) (\<lambda>_. thenI graceful_shutdown (okE ())))"

definition run_consumers :: "env \<Rightarrow> unit opE" where
  "run_consumers E =
     opened E ''producer'' (
     thenI (started ''hub'') (
     bindE (set_up E ''runner'') (\<lambda>_.
     scoped ''polling'' (thenI (started ''poll loop'') (serve_until_signal E)))))"

definition run_services :: "(goerr \<Rightarrow> bool) \<Rightarrow> (goerr \<Rightarrow> gostr) \<Rightarrow> url_parser \<Rightarrow> env \<Rightarrow> int \<Rightarrow> config \<Rightarrow> unit opE" where
  "run_services X code P E cpus c =
     scoped ''redis'' (
     bindE (set_up E ''redis tracing'') (\<lambda>_.
     bindE (storage_new code P E c) (\<lambda>store.
     thenI (forI (map fst (server_pools cpus)) started) (
     opened E ''agent'' (
     bindE (main_topics X E) (\<lambda>_. run_consumers E))))))"

definition server_run :: "library \<Rightarrow> variables \<Rightarrow> (goerr \<Rightarrow> bool) \<Rightarrow> (goerr \<Rightarrow> gostr) \<Rightarrow> url_parser \<Rightarrow> env \<Rightarrow> int \<Rightarrow> unit opE" where
  "server_run B L X code P E cpus = (case load_config B L of
      Inl e \<Rightarrow> failE e
    | Inr c \<Rightarrow> scoped ''signals'' (
        opened E ''tracing'' (
        bindE (set_up E ''migrations'') (\<lambda>_.
        opened E ''db'' (run_services X code P E cpus c)))))"

text \<open>What the configuration gives the spend ledger and the API; \<open>limit\<close> is the limit as a number.\<close>

definition server_ledger :: "config \<Rightarrow> rat \<Rightarrow> ledger" where
  "server_ledger c limit = \<lparr>lg_limit = limit, lg_unlimited = cf_BillingUnlimited c\<rparr>"

definition wire :: "config \<Rightarrow> rat \<Rightarrow> web \<Rightarrow> web" where
  "wire c limit W = W\<lparr>w_dispatcher := (w_dispatcher W)\<lparr>ds_billing := Some (server_ledger c limit)\<rparr>,
     w_invite := cf_InviteCode c, w_demo_user := cf_DemoUsername c, w_demo_password := cf_DemoPassword c, w_demo_limit := limit,
     w_origins := cf_CORSOrigins c\<rparr>"

section \<open>Lifecycle and topics\<close>

lemma chunk_rules:
  "with_chunk_expiry (Some (with_chunk_expiry cfg)) = with_chunk_expiry cfg"
  "filter (\<lambda>r. lr_id r = chunk_rule_id) (with_chunk_expiry cfg) = [chunk_rule]"
  "filter (\<lambda>r. lr_id r \<noteq> chunk_rule_id) (with_chunk_expiry (Some rules)) = filter (\<lambda>r. lr_id r \<noteq> chunk_rule_id) rules"
  by (auto simp: with_chunk_expiry_def chunk_rule_def split: option.splits)

lemma chunk_rule_scope: "chunk_object_name E up idx = Inr n \<Longrightarrow> has_prefix n (lr_prefix chunk_rule)"
  by (auto simp: chunk_object_name_def chunk_rule_def ChunkUploadPrefix_def has_prefix_def split: sum.splits)

text \<open>The time that \<open>n\<close> waits of the loop take.\<close>

fun waited :: "int \<Rightarrow> nat \<Rightarrow> int" where
  "waited b 0 = 0"
| "waited b (Suc n) = b + waited (next_backoff b) n"

lemma waited_22: "topics_max_wait \<le> waited 500 21"
  by (simp add: topics_max_wait_def next_backoff_def eval_nat_numeral)

lemma waited_mono: "0 \<le> b \<Longrightarrow> 0 \<le> waited b n"
  by (induction n arbitrary: b) (auto simp: next_backoff_def)

lemma extends_create [ext_intros]: "extends (create_missing X E specs)"
proof (induction specs)
  case (Cons s specs)
  then show ?case by (cases s) (auto intro!: ext_intros)
qed (simp add: ext_intros)

lemma ensure_loop_steps:
  assumes "clock_ok E"
  shows "0 \<le> b \<Longrightarrow> deadline - a_num E h (Os ONow) \<le> waited b n \<Longrightarrow>
    run_state (ensure_loop X E specs deadline b (Suc n + k)) h = run_state (ensure_loop X E specs deadline b (Suc n)) h"
proof (induction n arbitrary: b h)
  case 0
  obtain r h1 where m: "run_state (create_missing X E specs) h = (r, h1)" by fastforce
  have "prefix h h1" using extendsD [OF extends_create, of h X E specs] m by (simp add: final_def)
  then have "deadline \<le> a_num E h1 (Os ONow)" using clock_mono [OF assms] 0 by fastforce
  then show ?case by (simp add: catchE_def m now_ms_def failE_def split: sum.splits)
next
  case (Suc n)
  obtain r h1 where m: "run_state (create_missing X E specs) h = (r, h1)" by fastforce
  let ?h2 = "h1 @ [Os ONow]" and ?now = "a_num E h1 (Os ONow)"
  let ?h3 = "?h2 @ [Os (OSleep b)]"
  have pre: "prefix h h1" using extendsD [OF extends_create, of h X E specs] m by (simp add: final_def)
  have "run_state (ensure_loop X E specs deadline (next_backoff b) (Suc n + k)) ?h3
      = run_state (ensure_loop X E specs deadline (next_backoff b) (Suc n)) ?h3" if "a_err E ?h2 (Os (OSleep b)) = None"
  proof (rule Suc.IH)
    show "0 \<le> next_backoff b" using Suc.prems(1) by (simp add: next_backoff_def)
    show "deadline - a_num E ?h3 (Os ONow) \<le> waited (next_backoff b) n"
      using clock_sleep [OF assms that] clock_mono [OF assms pre] clock_mono [OF assms, of h1 ?h2] Suc.prems(2) by simp
  qed
  then show ?case by (simp add: catchE_def m now_ms_def failE_def okE_def ask_err_def split: sum.splits option.splits)
qed

text \<open>What is known of a topic: at some point the broker created it, or said that it exists.\<close>

definition topic_ready :: "(goerr \<Rightarrow> bool) \<Rightarrow> env \<Rightarrow> hist \<Rightarrow> hist \<Rightarrow> gostr \<times> int \<Rightarrow> bool" where
  "topic_ready X E h q s = made (\<lambda>p c. case a_err E p c of None \<Rightarrow> True | Some e \<Rightarrow> list_ex X (chain e)) h (Kafka (KCreateTopic (fst s) (snd s))) q"

lemma topic_ready_mono: "topic_ready X E h1 q1 s \<Longrightarrow> prefix h h1 \<Longrightarrow> prefix q1 q \<Longrightarrow> topic_ready X E h q s"
  by (simp add: topic_ready_def made_weaken)

lemma wp_create_missing: "wp (create_missing X E specs) (\<lambda>r q. prefix h q \<and> (r = Inr () \<longrightarrow> (\<forall>s \<in> set specs. topic_ready X E h q s))) h"
proof (induction specs arbitrary: h rule: list.induct)
  case Nil
  then show ?case by (simp add: wp_simps)
next
  case (Cons s ss)
  obtain name parts where s: "s = (name, parts)" by fastforce
  let ?h = "h @ [Kafka (KCreateTopic name parts)]"
  have ready: "topic_ready X E h q s" if "prefix ?h q" "case a_err E h (Kafka (KCreateTopic name parts)) of None \<Rightarrow> True | Some e \<Rightarrow> list_ex X (chain e)" for q
    using that by (auto simp: topic_ready_def made_def s)
  have "wp (create_missing X E ss) (\<lambda>r q. prefix h q \<and> (r = Inr () \<longrightarrow> (\<forall>s \<in> set (s # ss). topic_ready X E h q s))) ?h"
    if "case a_err E h (Kafka (KCreateTopic name parts)) of None \<Rightarrow> True | Some e \<Rightarrow> list_ex X (chain e)"
    by (rule wp_mono [OF Cons.IH]) (auto intro: ready that append_prefixD topic_ready_mono [of X E ?h])
  then show ?case by (simp add: s wp_simps split: option.splits)
qed

lemma wp_ensure_loop: "wp (ensure_loop X E specs deadline b n) (\<lambda>r q. prefix h q \<and> (r = Inr () \<longrightarrow> (\<forall>s \<in> set specs. topic_ready X E h q s))) h"
proof (induction n arbitrary: b h)
  case (Suc n)
  have "wp (ensure_loop X E specs deadline (next_backoff b) n) (\<lambda>r q. prefix h q \<and> (r = Inr () \<longrightarrow> (\<forall>s \<in> set specs. topic_ready X E h q s))) h2"
    if "prefix h h2" for h2
    by (rule wp_mono [OF Suc.IH]) (use that in \<open>auto intro: topic_ready_mono prefix_order.trans\<close>)
  then show ?case
    by (simp add: wp_simps) (rule wp_mono [OF wp_create_missing], auto simp: wp_simps split: sum.splits option.splits)
qed (simp add: wp_simps)

section \<open>Releases\<close>

text \<open>The stack of open resources after some calls; \<open>None\<close> when a release does not match the last one opened.  Of the steps that cannot fail the
  answer does not matter.\<close>

definition resources :: "gostr list" where
  "resources = [''signals'', ''tracing'', ''db'', ''redis'', ''agent'', ''admin'', ''producer'', ''polling'', ''deadline'']"

definition infallible :: "gostr list" where
  "infallible = [''signals'', ''redis'', ''polling'', ''deadline'']"

definition opens :: "env \<Rightarrow> hist \<Rightarrow> gostr \<Rightarrow> bool" where
  "opens E h n = (n \<in> set resources \<and> (n \<in> set infallible \<or> a_err E h (Os (OSetup n)) = None))"

definition open_step :: "env \<Rightarrow> hist \<Rightarrow> call \<Rightarrow> gostr list \<Rightarrow> gostr list option" where
  "open_step E h c st = (case c of
      Os (OSetup n) \<Rightarrow> Some (if opens E h n then n # st else st)
    | Os (ORelease n) \<Rightarrow> (case st of [] \<Rightarrow> None | x # st' \<Rightarrow> if x = n then Some st' else None)
    | _ \<Rightarrow> Some st)"

fun open_after :: "env \<Rightarrow> hist \<Rightarrow> call list \<Rightarrow> gostr list \<Rightarrow> gostr list option" where
  "open_after E h [] st = Some st"
| "open_after E h (c # cs) st = (case open_step E h c st of None \<Rightarrow> None | Some st' \<Rightarrow> open_after E (h @ [c]) cs st')"

lemma open_after_append:
  "open_after E h (xs @ ys) st = (case open_after E h xs st of None \<Rightarrow> None | Some st' \<Rightarrow> open_after E (h @ xs) ys st')"
  by (induction xs arbitrary: h st) (simp_all split: option.split)

definition balanced :: "env \<Rightarrow> 'a op \<Rightarrow> bool" where
  "balanced E m = (\<forall>h. wp m (\<lambda>r q. \<exists>xs. q = h @ xs \<and> (\<forall>st. open_after E h xs st = Some st)) h)"

lemma balancedD: "balanced E m \<Longrightarrow> wp m (\<lambda>r q. \<exists>xs. q = h @ xs \<and> (\<forall>st. open_after E h xs st = Some st)) h"
  by (simp add: balanced_def)

lemma balanced_bnd: "balanced E m \<Longrightarrow> (\<And>x. balanced E (f x)) \<Longrightarrow> balanced E (bnd m f)"
  unfolding balanced_def wp_bnd
proof (intro allI)
  fix h
  assume m: "\<forall>h. wp m (\<lambda>r q. \<exists>xs. q = h @ xs \<and> (\<forall>st. open_after E h xs st = Some st)) h"
    and f: "\<And>x. \<forall>h. wp (f x) (\<lambda>r q. \<exists>xs. q = h @ xs \<and> (\<forall>st. open_after E h xs st = Some st)) h"
  have "wp (f r) (\<lambda>r q. \<exists>xs. q = h @ xs \<and> (\<forall>st. open_after E h xs st = Some st)) (h @ xs)"
    if "\<forall>st. open_after E h xs st = Some st" for r xs
    by (rule wp_mono [OF f [THEN spec]]) (auto simp: open_after_append that)
  then show "wp m (\<lambda>r q. wp (f r) (\<lambda>r q. \<exists>xs. q = h @ xs \<and> (\<forall>st. open_after E h xs st = Some st)) q) h"
    by (intro wp_mono [OF m [THEN spec]]) auto
qed

definition plain_call :: "call \<Rightarrow> bool" where
  "plain_call c = (case c of Os (OSetup n) \<Rightarrow> n \<notin> set resources | Os (ORelease n) \<Rightarrow> False | _ \<Rightarrow> True)"

lemma open_after_plain: "list_all plain_call xs \<Longrightarrow> open_after E h xs st = Some st"
  by (induction xs arbitrary: h) (auto simp: plain_call_def opens_def open_step_def split: call.splits os_call.splits)

lemma balanced_uses: "uses plain_call m \<Longrightarrow> balanced E m"
  unfolding balanced_def by (intro allI wp_usesI) (auto simp: open_after_plain)

lemma balanced_bindE: "balanced E m \<Longrightarrow> (\<And>x. balanced E (f x)) \<Longrightarrow> balanced E (bindE m f)"
  unfolding bindE_def by (intro balanced_bnd) (auto simp: balanced_def wp_simps split: sum.splits)

lemma balanced_thenI: "balanced E m \<Longrightarrow> balanced E k \<Longrightarrow> balanced E (thenI m k)"
  unfolding thenI_def by (intro balanced_bnd)

lemma release_closes:
  assumes "balanced E m" and "opens E h n"
  shows "wp (with_defer n m) (\<lambda>r q. \<exists>xs. q = h @ xs \<and> (\<forall>st. open_after E h xs st = Some st)) (h @ [Os (OSetup n)])"
  unfolding with_defer_def wp_simps
  by (rule wp_mono [OF balancedD [OF assms(1)]]) (auto simp: open_after_append open_step_def assms(2))

lemma balanced_scoped: "n \<in> set infallible \<Longrightarrow> balanced E m \<Longrightarrow> balanced E (scoped n m)"
  unfolding balanced_def [of E "scoped n m"]
  by (auto simp: scoped_def started_def wp_thenI wp_ask opens_def infallible_def resources_def intro!: release_closes)

lemma balanced_opened: "n \<in> set resources \<Longrightarrow> n \<notin> set infallible \<Longrightarrow> balanced E m \<Longrightarrow> balanced E (opened E n m)"
  unfolding balanced_def [of E "opened E n m"]
  by (auto simp: opened_def set_up_def wp_bindE wp_ask_err opens_def open_step_def split: option.split intro!: release_closes)

lemmas balanced_intros = balanced_scoped balanced_opened balanced_bindE balanced_thenI

lemma plain_steps [use_intros]:
  "uses plain_call (create_missing X E specs)" "uses plain_call (ensure_loop X E specs deadline b n)"
  "uses plain_call (ensure_chunk_expiry code E bucket)"
proof -
  show create: "uses plain_call (create_missing X E specs)" for specs
  proof (induction specs)
    case (Cons s specs)
    then show ?case by (cases s) (auto intro!: use_intros simp: plain_call_def)
  qed (simp add: use_intros)
  show "uses plain_call (ensure_loop X E specs deadline b n)"
    by (induction n arbitrary: b) (auto intro!: use_intros create simp: plain_call_def now_ms_def)
  show "uses plain_call (ensure_chunk_expiry code E bucket)"
    by (auto intro!: use_intros simp: plain_call_def ensure_chunk_expiry_def)
qed

lemma plain_set_up: "n \<notin> set resources \<Longrightarrow> uses plain_call (set_up E n)" "n \<notin> set resources \<Longrightarrow> uses plain_call (started n)"
  by (auto simp: set_up_def started_def plain_call_def intro!: use_intros)

lemma plain_storage: "uses plain_call (storage_new code P E c)"
  unfolding storage_new_def ensure_bucket_def public_client_def init_fail_def Let_def
  by (intro use_intros plain_set_up) (simp_all add: plain_call_def resources_def)

lemma balanced_run: "balanced E (server_run B L X code P E cpus)"
proof -
  have plain: "balanced E (set_up E n)" "balanced E (started n)" if "n \<notin> set resources" for n
    using plain_set_up [OF that] by (auto intro: balanced_uses)
  have shutdown: "balanced E graceful_shutdown"
    unfolding graceful_shutdown_def
    by (intro balanced_scoped balanced_uses use_intros) (auto simp: infallible_def shutdown_steps_def plain_call_def)
  have serve: "balanced E (serve_until_signal E)"
    unfolding serve_until_signal_def
    by (intro balanced_intros shutdown plain balanced_uses use_intros) (simp_all add: plain_call_def resources_def)
  have consumers: "balanced E (run_consumers E)"
    unfolding run_consumers_def by (intro balanced_intros plain serve) (simp_all add: resources_def infallible_def)
  have topics: "balanced E (main_topics X E)"
    unfolding main_topics_def ensure_topics_def
    by (intro balanced_intros balanced_uses use_intros) (simp_all add: resources_def infallible_def plain_call_def now_ms_def use_intros)
  have services: "balanced E (run_services X code P E cpus c)" for c
    unfolding run_services_def
    by (intro balanced_intros plain topics consumers balanced_uses [OF plain_storage] balanced_uses [OF uses_forI] plain_set_up)
       (auto simp: resources_def infallible_def server_pools_def)
  have "balanced E (failE e)" for e :: goerr by (intro balanced_uses use_intros)
  then show ?thesis unfolding server_run_def
    by (auto split: sum.splits intro!: balanced_intros plain services) (simp_all add: resources_def infallible_def)
qed

section \<open>Before the listener\<close>

abbreviation (input) "listening \<equiv> Os (OSetup ''http'')"

text \<open>If \<open>m\<close> starts the listener, \<open>F\<close> holds of the history at its start and its end; \<open>F\<close> only speaks of calls made in between.\<close>

definition grows :: "(hist \<Rightarrow> hist \<Rightarrow> bool) \<Rightarrow> bool" where
  "grows F = (\<forall>h h1 q1 q. F h1 q1 \<longrightarrow> prefix h h1 \<longrightarrow> prefix q1 q \<longrightarrow> F h q)"

lemma growsD: "grows F \<Longrightarrow> F h1 q1 \<Longrightarrow> prefix h h1 \<Longrightarrow> prefix q1 q \<Longrightarrow> F h q"
  unfolding grows_def by blast

definition before :: "(hist \<Rightarrow> hist \<Rightarrow> bool) \<Rightarrow> 'a op \<Rightarrow> bool" where
  "before F m = (\<forall>h. wp m (\<lambda>r q. \<exists>xs. q = h @ xs \<and> (listening \<in> set xs \<longrightarrow> F h q)) h)"

abbreviation (input) "no_listener \<equiv> uses (\<lambda>c. c \<noteq> listening)"

lemma before_skip:
  assumes "grows F" and "no_listener m" and "\<And>x. before F (k x)"
  shows "before F (bnd m k)"
proof -
  have "wp (k r) (\<lambda>r q. \<exists>ys. q = h @ ys \<and> (listening \<in> set ys \<longrightarrow> F h q)) (h @ xs)" if "list_all (\<lambda>c. c \<noteq> listening) xs" for r h xs
  proof -
    have F: "F h q" if "F (h @ xs) q" for q by (rule growsD [OF assms(1) that]) simp_all
    have no: "listening \<notin> set xs" using that by (auto simp: list_all_iff)
    from assms(3) have "wp (k r) (\<lambda>r q. \<exists>ys. q = (h @ xs) @ ys \<and> (listening \<in> set ys \<longrightarrow> F (h @ xs) q)) (h @ xs)"
      unfolding before_def by blast
    then show ?thesis
    proof (rule wp_mono)
      fix r q
      assume "\<exists>ys. q = (h @ xs) @ ys \<and> (listening \<in> set ys \<longrightarrow> F (h @ xs) q)"
      then obtain ys where ys: "q = (h @ xs) @ ys" "listening \<in> set ys \<longrightarrow> F (h @ xs) q" by blast
      with F no show "\<exists>ys. q = h @ ys \<and> (listening \<in> set ys \<longrightarrow> F h q)" by (intro exI [of _ "xs @ ys"]) auto
    qed
  qed
  then show ?thesis unfolding before_def wp_bnd by (intro allI wp_usesI [OF assms(2)])
qed

lemma before_skipE: "grows F \<Longrightarrow> no_listener m \<Longrightarrow> (\<And>x. before F (k x)) \<Longrightarrow> before F (bindE m k)"
  unfolding bindE_def by (rule before_skip) (auto simp: before_def wp_simps split: sum.splits)

lemma before_thenI: "grows F \<Longrightarrow> no_listener m \<Longrightarrow> before F k \<Longrightarrow> before F (thenI m k)"
  unfolding thenI_def by (rule before_skip)

text \<open>\<open>F\<close> holds when \<open>m\<close> succeeds.\<close>

definition ready :: "(hist \<Rightarrow> hist \<Rightarrow> bool) \<Rightarrow> 'a opE \<Rightarrow> bool" where
  "ready F m = (\<forall>h. wp m (\<lambda>r q. \<forall>x. r = Inr x \<longrightarrow> F h q) h)"

lemma readyD: "ready F m \<Longrightarrow> wp m (\<lambda>r q. \<forall>x. r = Inr x \<longrightarrow> F h q) h"
  by (simp add: ready_def)

lemma ready_first:
  fixes m :: "'a opE" and k :: "'a \<Rightarrow> 'b opE"
  assumes "grows F" and "ready F m" and "\<And>x. extends (k x)"
  shows "ready F (bindE m k)"
  unfolding ready_def wp_bindE
proof (intro allI wp_mono [OF readyD [OF assms(2)]])
  fix h q :: hist and r :: "'a res" assume r: "\<forall>x. r = Inr x \<longrightarrow> F h q"
  have "wp (k x) (\<lambda>r q. \<forall>x. r = Inr x \<longrightarrow> F h q) q" if "r = Inr x" for x
    using r that by (intro wp_mono [OF wp_extends [OF assms(3)]]) (blast intro: growsD [OF assms(1) _ prefix_order.refl])
  then show "case r of Inl e \<Rightarrow> \<forall>x. Inl e = Inr x \<longrightarrow> F h q | Inr x \<Rightarrow> wp (k x) (\<lambda>r q. \<forall>x. r = Inr x \<longrightarrow> F h q) q"
    by (cases r) simp_all
qed

lemma ready_second:
  fixes m :: "'a opE" and k :: "'a \<Rightarrow> 'b opE"
  assumes "grows F" and "extends m" and "\<And>x. ready F (k x)"
  shows "ready F (bindE m k)"
  unfolding ready_def wp_bindE
proof (intro allI wp_mono [OF wp_extends [OF assms(2)]])
  fix h q :: hist and r :: "'a res" assume q: "prefix h q"
  have "wp (k x) (\<lambda>r q. \<forall>x. r = Inr x \<longrightarrow> F h q) q" for x
    by (rule wp_mono [OF readyD [OF assms(3)]]) (blast intro: growsD [OF assms(1) _ q prefix_order.refl])
  then show "case r of Inl e \<Rightarrow> \<forall>x. Inl e = Inr x \<longrightarrow> F h q | Inr x \<Rightarrow> wp (k x) (\<lambda>r q. \<forall>x. r = Inr x \<longrightarrow> F h q) q"
    by (cases r) simp_all
qed

lemma before_here:
  fixes m :: "'b opE"
  assumes "grows F" and "no_listener m" and "ready F m" and "\<And>x. extends (k x)"
  shows "before F (bindE m k)"
  unfolding before_def wp_bindE
proof (intro allI wp_uses_conj [OF assms(2) readyD [OF assms(3)]])
  fix h xs and r :: "'b res"
  assume xs: "list_all (\<lambda>c. c \<noteq> listening) xs" and r: "\<forall>x. r = Inr x \<longrightarrow> F h (h @ xs)"
  have "wp (k x) (\<lambda>r q. \<exists>ys. q = h @ ys \<and> (listening \<in> set ys \<longrightarrow> F h q)) (h @ xs)" if "r = Inr x" for x
  proof (rule wp_mono [OF wp_extends [OF assms(4)]])
    fix q assume q: "prefix (h @ xs) q"
    from r that have "F h (h @ xs)" by blast
    then have "F h q" by (rule growsD [OF assms(1) _ prefix_order.refl q])
    with q show "\<exists>ys. q = h @ ys \<and> (listening \<in> set ys \<longrightarrow> F h q)" by (auto simp: prefix_def)
  qed
  moreover have "listening \<notin> set xs" using xs by (auto simp: list_all_iff)
  ultimately show "case r of Inl e \<Rightarrow> \<exists>ys. h @ xs = h @ ys \<and> (listening \<in> set ys \<longrightarrow> F h (h @ xs))
      | Inr x \<Rightarrow> wp (k x) (\<lambda>r q. \<exists>ys. q = h @ ys \<and> (listening \<in> set ys \<longrightarrow> F h q)) (h @ xs)"
    by (cases r) simp_all
qed

lemma before_defer:
  assumes "grows F" and "before F m"
  shows "before F (with_defer n m)"
  unfolding before_def with_defer_def wp_simps
proof (intro allI)
  fix h
  from assms(2) have "wp m (\<lambda>r q. \<exists>xs. q = h @ xs \<and> (listening \<in> set xs \<longrightarrow> F h q)) h" unfolding before_def by blast
  then show "wp m (\<lambda>r q. \<exists>xs. q @ [Os (ORelease n)] = h @ xs \<and> (listening \<in> set xs \<longrightarrow> F h (q @ [Os (ORelease n)]))) h"
  proof (rule wp_mono)
    fix q assume "\<exists>xs. q = h @ xs \<and> (listening \<in> set xs \<longrightarrow> F h q)"
    then obtain xs where xs: "q = h @ xs" "listening \<in> set xs \<longrightarrow> F h q" by blast
    have "F h q \<Longrightarrow> F h (q @ [Os (ORelease n)])" by (erule growsD [OF assms(1)]) simp_all
    with xs show "\<exists>xs. q @ [Os (ORelease n)] = h @ xs \<and> (listening \<in> set xs \<longrightarrow> F h (q @ [Os (ORelease n)]))"
      by (intro exI [of _ "xs @ [Os (ORelease n)]"]) auto
  qed
qed

lemma before_scoped: "grows F \<Longrightarrow> n \<noteq> ''http'' \<Longrightarrow> before F m \<Longrightarrow> before F (scoped n m)"
  unfolding scoped_def started_def by (intro before_thenI before_defer use_intros) simp_all

lemma before_opened: "grows F \<Longrightarrow> n \<noteq> ''http'' \<Longrightarrow> before F m \<Longrightarrow> before F (opened E n m)"
  unfolding opened_def set_up_def by (intro before_skipE before_defer use_intros) simp_all

text \<open>The steps of run append calls and do not start the listener.\<close>

lemma extends_steps [ext_intros]:
  "extends (set_up E n)" "extends (started n)"
  unfolding set_up_def started_def by (intro ext_intros)+

lemma extends_defer [ext_intros]: "extends m \<Longrightarrow> extends (with_defer n m)"
  unfolding with_defer_def by (intro ext_intros)

lemma extends_scoped [ext_intros]: "extends m \<Longrightarrow> extends (scoped n m)"
  unfolding scoped_def by (intro ext_intros)

lemma extends_opened [ext_intros]: "extends m \<Longrightarrow> extends (opened E n m)"
  unfolding opened_def by (intro ext_intros)

lemma extends_serve [ext_intros]: "extends (run_consumers E)"
  unfolding run_consumers_def serve_until_signal_def graceful_shutdown_def by (intro ext_intros)

lemma no_listener_steps:
  "n \<noteq> ''http'' \<Longrightarrow> no_listener (set_up E n)" "n \<noteq> ''http'' \<Longrightarrow> no_listener (started n)"
  "n \<noteq> ''http'' \<Longrightarrow> no_listener m \<Longrightarrow> no_listener (opened E n m)"
  unfolding opened_def set_up_def started_def with_defer_def by (intro use_intros; simp)+

lemma no_listener_create: "no_listener (create_missing X E specs)"
proof (induction specs)
  case (Cons s specs)
  then show ?case by (cases s) (auto intro!: use_intros)
qed (simp add: use_intros)

lemma no_listener_topics: "no_listener (ensure_topics X E specs w n)"
proof -
  have "no_listener (ensure_loop X E specs deadline b n)" for deadline b
    by (induction n arbitrary: b) (auto intro!: use_intros no_listener_create simp: now_ms_def)
  then show ?thesis unfolding ensure_topics_def now_ms_def by (intro use_intros) simp_all
qed

lemma no_listener_run:
  "no_listener (storage_new code P E c)" "no_listener (main_topics X E)" "no_listener (forI (map fst (server_pools cpus)) started)"
  unfolding storage_new_def ensure_bucket_def public_client_def init_fail_def Let_def ensure_chunk_expiry_def main_topics_def server_pools_def
  by (intro use_intros no_listener_steps no_listener_topics; auto intro: no_listener_steps)+

section \<open>The end of a run\<close>

text \<open>The last calls of an operation that ends without an error.\<close>

definition finishes :: "call list \<Rightarrow> unit opE \<Rightarrow> bool" where
  "finishes ys m = (\<forall>h. wp m (\<lambda>r q. r = Inr () \<longrightarrow> (\<exists>xs. q = h @ xs \<and> suffix ys xs)) h)"

lemma suffix_later: "prefix h h1 \<Longrightarrow> q = h1 @ xs \<Longrightarrow> suffix ys xs \<Longrightarrow> \<exists>xs. q = h @ xs \<and> suffix ys xs"
  by (auto simp: prefix_def suffix_def)

lemma finishes_bnd:
  assumes "extends m" and "\<And>x. finishes ys (k x)"
  shows "finishes ys (bnd m k)"
  unfolding finishes_def wp_bnd
proof (intro allI wp_mono [OF wp_extends [OF assms(1)]])
  fix h h1 x assume h1: "prefix h (h1 :: hist)"
  from assms(2) have "wp (k x) (\<lambda>r q. r = Inr () \<longrightarrow> (\<exists>xs. q = h1 @ xs \<and> suffix ys xs)) h1" unfolding finishes_def by blast
  then show "wp (k x) (\<lambda>r q. r = Inr () \<longrightarrow> (\<exists>xs. q = h @ xs \<and> suffix ys xs)) h1"
    by (rule wp_mono) (blast intro: suffix_later [OF h1])
qed

lemma finishes_thenI: "extends m \<Longrightarrow> finishes ys k \<Longrightarrow> finishes ys (thenI m k)"
  unfolding thenI_def by (rule finishes_bnd)

lemma finishes_bindE: "extends m \<Longrightarrow> (\<And>x. finishes ys (f x)) \<Longrightarrow> finishes ys (bindE m f)"
  unfolding bindE_def by (intro finishes_bnd) (auto simp: finishes_def wp_simps split: sum.split)

lemma finishes_defer: "finishes ys m \<Longrightarrow> finishes (ys @ [Os (ORelease n)]) (with_defer n m)"
  unfolding finishes_def with_defer_def wp_simps
  by (intro allI, erule allE, erule wp_mono) (auto simp: suffix_def)

lemma finishes_scoped: "finishes ys m \<Longrightarrow> finishes (ys @ [Os (ORelease n)]) (scoped n m)"
  unfolding scoped_def by (intro finishes_thenI finishes_defer ext_intros)

lemma finishes_opened: "finishes ys m \<Longrightarrow> finishes (ys @ [Os (ORelease n)]) (opened E n m)"
  unfolding opened_def by (intro finishes_bindE finishes_defer ext_intros)

text \<open>What a run does after the signal.\<close>

definition run_down :: "call list" where
  "run_down = Os (OSetup ''deadline'') # shutdown_steps @ map (\<lambda>n. Os (ORelease n))
     [''deadline'', ''polling'', ''producer'', ''agent'', ''redis'', ''db'', ''tracing'', ''signals'']"

lemma shutdown_run: "wp graceful_shutdown Q h = Q () (h @ Os (OSetup ''deadline'') # shutdown_steps @ [Os (ORelease ''deadline'')])"
  by (simp add: graceful_shutdown_def scoped_def started_def with_defer_def shutdown_steps_def wp_simps)

lemma finishes_run: "finishes (Os (OAwait ''serve'') # run_down) (server_run B L X code P E cpus)"
proof (cases "load_config B L")
  case (Inl e)
  then show ?thesis by (simp add: server_run_def finishes_def wp_simps)
next
  case (Inr c)
  let ?ys = "Os (OAwait ''serve'') # Os (OSetup ''deadline'') # shutdown_steps @ [Os (ORelease ''deadline'')]"
  have serve: "finishes ?ys (serve_until_signal E)"
    unfolding serve_until_signal_def
    by (intro finishes_thenI ext_intros) (simp add: finishes_def wp_simps shutdown_run split: option.splits)
  have eq: "Os (OAwait ''serve'') # run_down = (((((((?ys @ [Os (ORelease ''polling'')]) @ [Os (ORelease ''producer'')]) @ [Os (ORelease ''agent'')])
      @ [Os (ORelease ''redis'')]) @ [Os (ORelease ''db'')]) @ [Os (ORelease ''tracing'')]) @ [Os (ORelease ''signals'')])"
    by (simp add: run_down_def)
  show ?thesis unfolding eq server_run_def Inr sum.case run_services_def run_consumers_def
    by (intro finishes_scoped finishes_opened finishes_bindE finishes_thenI serve ext_intros uses_extends [OF no_listener_run(1)]
        uses_extends [OF no_listener_run(2)])
qed

section \<open>What must be there before the server listens\<close>

definition bucket_ready :: "env \<Rightarrow> gostr \<Rightarrow> hist \<Rightarrow> hist \<Rightarrow> bool" where
  "bucket_ready E b h q = (made (\<lambda>p c. a_bool E p c = Inr True) h (Store (SBucketExists b)) q \<or> made (acked E) h (Store (SMakeBucket b)) q)"

lemma grows_facts:
  "grows (\<lambda>h q. made Q h c q)" "grows (bucket_ready E b)" "grows (\<lambda>h q. \<forall>s \<in> S. topic_ready X E h q s)"
  unfolding grows_def bucket_ready_def by (meson made_weaken, meson made_weaken, meson topic_ready_mono)

lemma ready_topics: "ready (\<lambda>h q. \<forall>s \<in> set topics. topic_ready X E h q s) (main_topics X E)"
  unfolding ready_def
proof
  fix h
  let ?ok = "\<lambda>h r q. \<forall>x. r = Inr x \<longrightarrow> (\<forall>s \<in> set topics. topic_ready X E h q s)"
  have "wp (ensure_topics X E topics topics_max_wait topics_attempts) (?ok (h @ [Os (OSetup ''admin'')])) (h @ [Os (OSetup ''admin'')])"
    unfolding ensure_topics_def wp_simps
    by (rule wp_mono [OF wp_ensure_loop]) (auto elim!: topic_ready_mono dest!: bspec)
  then have "wp (ensure_topics X E topics topics_max_wait topics_attempts) (\<lambda>r q. ?ok h r (q @ [Os (ORelease ''admin'')])) (h @ [Os (OSetup ''admin'')])"
    by (rule wp_mono) (auto elim!: topic_ready_mono dest!: bspec)
  then show "wp (main_topics X E) (?ok h) h" by (simp add: main_topics_def opened_def set_up_def with_defer_def wp_simps split: option.split)
qed

lemma ready_storage: "ready (bucket_ready E (cf_MinioBucket c)) (storage_new code P E c)"
proof -
  let ?b = "cf_MinioBucket c"
  have bucket: "ready (bucket_ready E ?b) (ensure_bucket E ?b)"
    by (auto simp: ready_def ensure_bucket_def init_fail_def wp_simps bucket_ready_def made_append split: sum.split option.split)
  show ?thesis unfolding storage_new_def
    by (intro ready_second [OF grows_facts(2)] ready_first [OF grows_facts(2) bucket])
       (auto simp: init_fail_def public_client_def ensure_chunk_expiry_def Let_def intro!: ext_intros)
qed

lemma ready_set_up: "ready (\<lambda>h q. made (acked E) h (Os (OSetup n)) q) (set_up E n)"
  by (auto simp: ready_def set_up_def wp_simps made_append split: option.split)

definition prepared :: "(goerr \<Rightarrow> bool) \<Rightarrow> env \<Rightarrow> gostr \<Rightarrow> hist \<Rightarrow> hist \<Rightarrow> bool" where
  "prepared X E b h q = (made (acked E) h (Os (OSetup ''migrations'')) q \<and> bucket_ready E b h q \<and> (\<forall>s \<in> set topics. topic_ready X E h q s))"

lemma before_conj: "before F m \<Longrightarrow> before G m \<Longrightarrow> before (\<lambda>h q. F h q \<and> G h q) m"
  by (auto simp: before_def wp_def)

lemma before_run:
  assumes "load_config B L = Inr c"
  shows "before (prepared X E (cf_MinioBucket c)) (server_run B L X code P E cpus)"
proof -
  have storage: "extends (storage_new code P E c)" and topics: "extends (main_topics X E)"
    by (rule uses_extends [OF no_listener_run(1)], rule uses_extends [OF no_listener_run(2)])
  have ext: "extends (run_services X code P E cpus c)"
    unfolding run_services_def by (intro ext_intros storage topics)
  note skip = before_scoped before_opened before_skipE before_thenI no_listener_steps no_listener_run
  have "before (\<lambda>h q. made (acked E) h (Os (OSetup ''migrations'')) q) (server_run B L X code P E cpus)"
    unfolding server_run_def assms sum.case
    by (intro skip before_here [OF _ _ ready_set_up] grows_facts ext_intros ext topics) simp_all
  moreover have "before (bucket_ready E (cf_MinioBucket c)) (server_run B L X code P E cpus)"
    unfolding server_run_def assms sum.case run_services_def
    by (intro skip before_here [OF _ _ ready_storage] grows_facts ext_intros ext topics) simp_all
  moreover have "before (\<lambda>h q. \<forall>s \<in> set topics. topic_ready X E h q s) (server_run B L X code P E cpus)"
    unfolding server_run_def assms sum.case run_services_def
    by (intro skip before_here [OF _ _ ready_topics] grows_facts ext_intros ext topics) simp_all
  ultimately show ?thesis unfolding prepared_def by (intro before_conj)
qed

section \<open>The client of the object store\<close>

lemma no_trailing_slash: "trim_right_slash s \<noteq> t @ ''/''"
proof
  assume "trim_right_slash s = t @ ''/''"
  then have d: "dropWhile (\<lambda>c. c = CHR ''/'') (rev s) = CHR ''/'' # rev t" by (simp add: trim_right_slash_def rev_swap)
  have "hd (dropWhile (\<lambda>c. c = CHR ''/'') (rev s)) \<noteq> CHR ''/''" by (rule hd_dropWhile) (simp add: d)
  with d show False by simp
qed

text \<open>The rules that are written come out of \<open>with_chunk_expiry\<close>.\<close>

definition writes_expiry :: "call \<Rightarrow> bool" where
  "writes_expiry c = (case c of Store (SSetLifecycle b rules) \<Rightarrow> \<exists>cfg. rules = with_chunk_expiry cfg | _ \<Rightarrow> True)"

lemma uses_writes_expiry: "uses writes_expiry (storage_new code P E c)"
  unfolding storage_new_def ensure_bucket_def public_client_def init_fail_def Let_def ensure_chunk_expiry_def set_up_def
  by (intro use_intros) (auto simp: writes_expiry_def)

definition connected :: "url_parser \<Rightarrow> config \<Rightarrow> minio \<Rightarrow> bool" where
  "connected P c m = (\<exists>u. P (cf_MinioEndpoint c) = Inr u \<and> snd u \<noteq> [] \<and> mi_client m = new_client c u [] \<and> mi_bucket m = cf_MinioBucket c \<and>
     (let pe = trim_space (cf_MinioPublicEndpoint c) in
      if pe \<noteq> [] \<and> trim_right_slash pe \<noteq> mi_endpoint m
      then (\<exists>v. P pe = Inr v \<and> snd v \<noteq> [] \<and> mi_public m = new_client c v ''us-east-1'') else mi_public m = mi_client m))"

definition init_error :: "goerr \<Rightarrow> bool" where
  "init_error e = (is_typed e \<and> err_kind e = KindInternal)"

lemma init_error_Internal [simp]: "init_error (Internal m cause)"
  by (simp add: init_error_def Internal_def)

lemma parse_endpoint_cases:
  "(case parse_endpoint P msg s of Inl e \<Rightarrow> init_error e | Inr u \<Rightarrow> P s = Inr u \<and> snd u \<noteq> [])"
  by (auto simp: parse_endpoint_def split: sum.split)

lemma wp_init_fail: "extends m \<Longrightarrow> (\<And>e q. init_error e \<Longrightarrow> Q (Inl e) q) \<Longrightarrow> (\<And>x q. prefix h q \<Longrightarrow> Q (Inr x) q) \<Longrightarrow> wp (init_fail m) Q h"
  unfolding init_fail_def wp_catchE by (rule wp_mono [OF wp_extends]) (auto simp: wp_simps split: sum.split)

lemma wp_public_client:
  "wp (public_client P E c cli) (\<lambda>r q. case r of Inl e \<Rightarrow> init_error e | Inr m \<Rightarrow>
     (let pe = trim_space (cf_MinioPublicEndpoint c) in
      if pe \<noteq> [] \<and> trim_right_slash pe \<noteq> trim_right_slash (cf_MinioEndpoint c)
      then (\<exists>v. P pe = Inr v \<and> snd v \<noteq> [] \<and> m = new_client c v ''us-east-1'') else m = cli)) h"
  using parse_endpoint_cases [of P "trim_space (cf_MinioPublicEndpoint c)" m_minio_public]
  by (auto simp: public_client_def Let_def wp_simps split: sum.splits intro!: wp_init_fail ext_intros)

lemma wp_ensure_bucket: "(\<And>e q. init_error e \<Longrightarrow> Q (Inl e) q) \<Longrightarrow> (\<And>q. Q (Inr ()) q) \<Longrightarrow> wp (ensure_bucket E b) Q h"
  by (auto simp: ensure_bucket_def wp_simps intro!: wp_init_fail ext_intros)

lemma wp_storage_new:
  "wp (storage_new code P E c) (\<lambda>r q. case r of Inl e \<Rightarrow> init_error e | Inr m \<Rightarrow> connected P c m \<and> (\<forall>t. mi_endpoint m \<noteq> t @ ''/'')) h"
proof (cases "parse_endpoint P m_minio_init (cf_MinioEndpoint c)")
  case (Inl e)
  with parse_endpoint_cases [of P "cf_MinioEndpoint c" m_minio_init] show ?thesis by (simp add: storage_new_def wp_simps)
next
  case (Inr u)
  with parse_endpoint_cases [of P "cf_MinioEndpoint c" m_minio_init] have u: "P (cf_MinioEndpoint c) = Inr u" "snd u \<noteq> []" by auto
  let ?Q = "\<lambda>r q. case r of Inl e \<Rightarrow> init_error e | Inr m \<Rightarrow> connected P c m \<and> (\<forall>t. mi_endpoint m \<noteq> t @ ''/'')"
  let ?k = "\<lambda>public. okE \<lparr>mi_client = new_client c u [], mi_public = public, mi_bucket = cf_MinioBucket c,
      mi_endpoint = trim_right_slash (cf_MinioEndpoint c)\<rparr>"
  have public: "wp (bindE (public_client P E c (new_client c u [])) ?k) ?Q h1" for h1
    unfolding wp_bindE by (rule wp_mono [OF wp_public_client])
      (auto simp: wp_simps connected_def u no_trailing_slash Let_def split: sum.splits if_splits)
  have "wp (bindE (ensure_bucket E (cf_MinioBucket c)) (\<lambda>_. thenI (ensure_chunk_expiry code E (cf_MinioBucket c))
      (bindE (public_client P E c (new_client c u [])) ?k))) ?Q h1" for h1
    unfolding wp_bindE [of "ensure_bucket E (cf_MinioBucket c)"] wp_thenI
    by (rule wp_ensure_bucket) (simp_all add: wp_any public)
  then show ?thesis unfolding storage_new_def Inr
    by (auto simp: wp_bindE wp_ret intro!: wp_init_fail ext_intros)
qed

section \<open>Properties\<close>

text \<open>(C25) Creating the topics ends, whatever the broker answers: 22 attempts are enough for the waits of at most five seconds to use up the 90
  seconds, so further fuel changes nothing; and it succeeds only when the broker created every topic or said that it exists.\<close>

theorem ensure_topics_ends:
  assumes "clock_ok E"
  shows "run_state (ensure_topics X E specs topics_max_wait (topics_attempts + k)) h = run_state (ensure_topics X E specs topics_max_wait topics_attempts) h \<and>
    (result (ensure_topics X E specs topics_max_wait topics_attempts) h = Inr () \<longrightarrow>
       (\<forall>s \<in> set specs. topic_ready X E h (final (ensure_topics X E specs topics_max_wait topics_attempts) h) s))"
proof (intro conjI impI)
  let ?h = "h @ [Os ONow]" and ?d = "a_num E h (Os ONow) + topics_max_wait"
  have "?d - a_num E ?h (Os ONow) \<le> waited 500 21"
    using clock_mono [OF assms, of h ?h] waited_22 by simp
  from ensure_loop_steps [OF assms _ this, of X specs k]
  show "run_state (ensure_topics X E specs topics_max_wait (topics_attempts + k)) h = run_state (ensure_topics X E specs topics_max_wait topics_attempts) h"
    by (simp add: ensure_topics_def now_ms_def topics_attempts_def)
next
  have "wp (ensure_topics X E specs topics_max_wait topics_attempts) (\<lambda>r q. r = Inr () \<longrightarrow> (\<forall>s \<in> set specs. topic_ready X E h q s)) h"
    unfolding ensure_topics_def wp_simps by (rule wp_mono [OF wp_ensure_loop]) (auto elim!: topic_ready_mono dest!: bspec)
  moreover assume "result (ensure_topics X E specs topics_max_wait topics_attempts) h = Inr ()"
  ultimately show "\<forall>s \<in> set specs. topic_ready X E h (final (ensure_topics X E specs topics_max_wait topics_attempts) h) s"
    by (simp add: wp_def)
qed

theorem ensure_topics_ends_witness:
  "topic_ready (\<lambda>e. False) env0 [] (final (ensure_topics (\<lambda>e. False) env0 topics topics_max_wait topics_attempts) []) (TopicAnalysis, 6) \<and>
   run_state (ensure_topics (\<lambda>e. False) env0 topics topics_max_wait (topics_attempts + 5)) []
     = run_state (ensure_topics (\<lambda>e. False) env0 topics topics_max_wait topics_attempts) []"
proof -
  have "result (ensure_topics (\<lambda>e. False) env0 topics topics_max_wait topics_attempts) [] = Inr ()"
    by (simp add: ensure_topics_def now_ms_def topics_def topics_attempts_def eval_nat_numeral catchE_def ask_err_def env0_def okE_def result_def)
  with ensure_topics_ends [OF clock_ok_env0, of "\<lambda>e. False" topics 5 "[]"] show ?thesis by (simp add: topics_def)
qed



text \<open>Connecting to the object store gives clients of the configured host, credentials and bucket, with the endpoint without trailing slashes
  (so that object URLs have the form the rest of the server expects); playback URLs are signed for the public endpoint when one is configured that
  differs from the internal one by more than trailing slashes, in a fixed region; the bucket exists; a failure is an internal error.  Of the lifecycle rules the
  server writes, one is its own, it covers every chunk of an upload, and the others are those it read; installing it again changes nothing.\<close>

theorem storage_new_spec:
  assumes "run_state (storage_new code P E c) h = (r, q)"
  shows "(case r of Inl e \<Rightarrow> init_error e
      | Inr m \<Rightarrow> connected P c m \<and> (\<forall>t. mi_endpoint m \<noteq> t @ ''/'') \<and> bucket_ready E (cf_MinioBucket c) h q) \<and>
    (\<forall>b rules. Store (SSetLifecycle b rules) \<in> set (drop (length h) q) \<longrightarrow>
       filter (\<lambda>l. lr_id l = chunk_rule_id) rules = [chunk_rule] \<and> with_chunk_expiry (Some rules) = rules) \<and>
    (\<forall>up idx n. chunk_object_name E up idx = Inr n \<longrightarrow> has_prefix n (lr_prefix chunk_rule))"
proof (intro conjI allI impI)
  have "bucket_ready E (cf_MinioBucket c) h q" if "r = Inr m" for m
    using wp_run [OF assms readyD [OF ready_storage]] that by blast
  with wp_run [OF assms wp_storage_new]
  show "case r of Inl e \<Rightarrow> init_error e | Inr m \<Rightarrow> connected P c m \<and> (\<forall>t. mi_endpoint m \<noteq> t @ ''/'') \<and> bucket_ready E (cf_MinioBucket c) h q"
    by (cases r) simp_all
next
  fix b rules assume set: "Store (SSetLifecycle b rules) \<in> set (drop (length h) q)"
  have "\<exists>xs. q = h @ xs \<and> list_all writes_expiry xs" by (rule wp_run [OF assms wp_uses [OF uses_writes_expiry]])
  then obtain xs where "q = h @ xs" "list_all writes_expiry xs" by blast
  with set have w: "writes_expiry (Store (SSetLifecycle b rules))" unfolding list_all_iff by simp
  obtain cfg where "rules = with_chunk_expiry cfg" using w by (auto simp: writes_expiry_def)
  then show "filter (\<lambda>l. lr_id l = chunk_rule_id) rules = [chunk_rule]" "with_chunk_expiry (Some rules) = rules"
    by (simp_all add: chunk_rules)
qed (rule chunk_rule_scope)

theorem storage_new_spec_witness:
  "\<exists>m q. run_state (storage_new (\<lambda>e. []) (\<lambda>s. Inr (''http'', s)) env0 (config_init variables0)) [] = (Inr m, q) \<and>
     connected (\<lambda>s. Inr (''http'', s)) (config_init variables0) m \<and> bucket_ready env0 ''media'' [] q"
proof -
  let ?c = "config_init variables0"
  have cf: "cf_MinioBucket ?c = ''media''" "cf_MinioPublicEndpoint ?c = []" "cf_MinioEndpoint ?c = ''http://localhost:9000''"
    by (simp_all add: config_init_def config_get_def variables0_def)
  obtain r q where run: "run_state (storage_new (\<lambda>e. []) (\<lambda>s. Inr (''http'', s)) env0 ?c) [] = (r, q)" by fastforce
  have "wp (storage_new (\<lambda>e. []) (\<lambda>s. Inr (''http'', s)) env0 ?c) (\<lambda>r q. \<exists>m. r = Inr m) []"
    by (simp add: storage_new_def parse_endpoint_def init_fail_def set_up_def ensure_bucket_def ensure_chunk_expiry_def public_client_def cf
        wp_simps env0_def with_chunk_expiry_def trim_right_slash_def) (simp add: str_eval wp_simps)
  from wp_run [OF run this] obtain m where "r = Inr m" by blast
  with storage_new_spec [OF run] run show ?thesis by (simp add: cf)
qed

text \<open>A user listed in BILLING_UNLIMITED_USER_IDS is let through by the spend cap, whatever the limit, without a call.\<close>

theorem exempt_users:
  assumes "load_config B L = Inr c" and "s \<in> set (unlimited_ids L)" and "parse_int 64 s = Some uid"
  shows "run_state (billing_check E day (ds_billing (w_dispatcher (wire c limit W))) uid) h = (Inr (), h)"
proof -
  have "Some uid \<in> set (map (parse_int 64) (unlimited_ids L))" using assms(2,3) by force
  then have "uid \<in> set (cf_BillingUnlimited c)" unfolding load_config_ids [OF assms(1)] by auto
  then have "\<not> limited (ds_billing (w_dispatcher (wire c limit W))) uid" by (auto simp: wire_def server_ledger_def limited_def)
  then show ?thesis by (simp add: billing_check_def okE_def)
qed

end
