(* ===== verification/Spec2Isabelle.thy ===== *)
theory Spec2Isabelle
  imports Group Router Startup
begin

text \<open>
  A verification library of the Go server of Vparser (src/server-go), a gateway that lets a user upload or import videos and have
  them analysed by an agent service.

  \<^bold>\<open>The program.\<close>  A request enters through the router (internal/httpapi), which resolves the session (internal/auth), checks who owns the media and
  calls a service: uploads (internal/upload), imports by link (internal/ytdlp), media and their files (internal/media), analyses
  and transcriptions (internal/analysis).  Submitting an analysis reserves an idempotency key in Redis, takes a token of the
  rate limiter, checks the spend cap and publishes a task record to Kafka (internal/mq).  A runner polls the records, one worker per partition hands them to
  the consumer, which takes the task lock (internal/redislock), runs the analysis and commits, forwards the record to
  a retry topic or dead-letters it.  The analysis builds a video context (internal/videocontext: speech, key frames, text recognition), keeps it as a checkpoint
  (internal/checkpoint over MySQL and Redis) and asks the agent over gRPC (internal/agentclient).  Progress goes to the
  browser over the event hub (internal/taskevents).  cmd/server/main.go reads the configuration, connects everything and shuts it down.

  \<^bold>\<open>How it is modelled.\<close>  Pure functions are HOL functions.  An operation that talks to Redis, MySQL, Kafka, MinIO, the agent, the file system, a child process or the
  clock is a function in the effect monad of theory Prelude: its state is the history of the calls made so far, and the answer to a call is
  given by the environment \<open>env\<close> (theory Effects) as a function of the whole history.  A theorem about every environment is a theorem
  about every behaviour of the services, failures at any point included; what is relied on of a service is a named hypothesis (\<open>clock_ok\<close>, \<open>keyed\<close>, the
  laws of \<open>redis_lease\<close>).  An error is a value of \<open>goerr\<close>, a chain as errors.Unwrap walks it, and \<open>bindE\<close> is the early return of \<^verbatim>\<open>if err != nil\<close>.
  Postconditions are computed with \<open>wp\<close> (collection \<open>wp_simps\<close>); \<open>uses\<close> is the footprint of an operation, \<open>made\<close> that a call was made and how it was answered,
  \<open>guarded\<close> that every call was preceded by what it needs.  Components with real concurrency are transition systems (\<open>inductive_system\<close>): the
  lock protocol, the worker pool, the event hub, the consumer group and its partitions, the goroutines of a parallel download.

  \<^item> Prelude, GoStrings, Messages, Errors, Model, Effects: the calculus; strings, runes, numbers and UTF-8 of Go's library; the
    texts of the server; internal/common; internal/model; the calls.
  \<^item> TaskKeys, RedisLock, RateLimit, WorkerPool, Billing, TaskEvents: the packages of those names.  The lock is shown exclusive for many
    clients against the scripts it runs; the bucket keeps its bounds and admits at most its rate; the pool never exceeds its sizes.
  \<^item> Mq, Consumer, Runner, Group: internal/mq, from the wire format of a task to the commit of its offset, for one record, one partition and the
    whole group.  Nothing that failed is committed as done, retries are bounded, every offset below an acknowledged commit was handled, and the shutdown of the group ends.
  \<^item> Checkpoint, FailedTasks, Storage, VideoFrames, VideoContext, Media, Analyzer, Dispatch, Transcription: internal/checkpoint, storage, videocontext, media and analysis.
  \<^item> Upload, Instant: internal/upload; Addresses, Downloader, RangeWorkers: internal/ytdlp.  The address check equals a table of networks, a download
    stays within the checked hosts, a file fetched in pieces is the file, and the parallel workers neither deadlock nor lose a range.
  \<^item> Auth, AgentClient: internal/auth (passwords, sessions, throttling) and internal/agentclient (messages, deadlines, errors).
  \<^item> Http, HttpApi, Router: internal/httpapi, parameter by parameter, handler by handler, route by route.  Every response has a shape of
    the contract, and no request reaches data its session does not own (the theorem below).
  \<^item> Repo: internal/repo/repo.go as functions on tables, and \<open>db_env\<close>, the environment whose database calls are answered from them; the
    theorems that assume an answer of the database hold there of the rows (\<open>serve_owner_rows\<close> below, \<open>deleted_object_unreferenced\<close>).
  \<^item> Config, Startup: internal/config, and the life of the process: bucket and lifecycle rule, topics, deferred releases, graceful shutdown.

  \<^bold>\<open>Interfaces.\<close>  \<open>codec\<close> (encode and decode give back the value) is interpreted for decimal numbers, base64, hexadecimal, stages, lists of
  values, modes and feedback on the wire.  \<open>inductive_system\<close> (an invariant of a transition system) carries the concurrent components.  \<open>redis_lease\<close> states what Redis
  promises of a key with an expiry, and \<open>lock_protocol\<close> builds the protocol on it; a key store with a clock is its model.  \<open>analysis_worker\<close> is what
  the consumer needs of an analysis, interpreted on the analyzer; \<open>record_handler\<close> what a partition worker needs of a handler, interpreted on the consumer;
  \<open>keyed_rows\<close> the laws of a table with an upsert, interpreted on the checkpoint rows.

  \<^bold>\<open>Bounds and fuel.\<close>  Loops over data are structural.  TryLock polls at most \<open>poll_bound\<close> times, which \<open>try_lock_fuel_enough\<close> shows is never used
  up when sleeping lets time pass; creating the topics takes at most 22 attempts (\<open>ensure_topics_ends\<close>).  Redelivery and speech recognition take the number of attempts as an argument: the former goes on as long
  as the handler fails, the latter has three.  The loops of a download end by measures (bytes still missing and stalls), stated with their functions; the parallel download by the measure of \<open>crew_ends\<close>, the shutdown of the group by that of \<open>group_shutdown\<close>.
  Integers are unbounded where the code only counts; hashes and pixels of frames are words, addresses are lists of bytes, configuration and parameters wrap at or are checked against 64 bits.
  Times are in milliseconds, in Config in nanoseconds.

  \<^bold>\<open>Not modelled.\<close>  Metrics, tracing and log lines (internal/obs) have no effect on a result.  SQL text, migrations and the options of the drivers (internal/repo/db.go, internal/migrations) belong to
  GORM and MySQL; the generated protocol code to protobuf; floating-point text that ffmpeg logs is an answer.  JSON and URL parsing, hash
  functions, the validator's rules and the web framework are parameters.  The DateTime adapters of internal/model format columns.  Two sequential readings of concurrent code are
  kept next to each other: the branches of a context build run one after the other (they share only counters and a list of uploaded frames), and a parallel download is both a
  sequence (\<open>fill_chunks\<close>) and a transition system (\<open>crew\<close>).  The agent service (src/agent-py) and the web client (src/client) are other programs.
\<close>

section \<open>The server as a whole\<close>



text \<open>With the tables of the database behind the server: whenever a request makes the agent, the rows or the checkpoints of a media be touched, the
  media table held at some earlier point of the request a row of that id that belongs to the user of the session.\<close>

theorem serve_owner_rows:
  assumes "run_state (serve (W\<lparr>w_download := download D E0\<rparr>) (\<lambda>u. db_env K T (E u)) req) h = (r, q)"
    and "c \<in> set (drop (length h) q)" and "media_of c = Some mid"
  shows "\<exists>p uid m. prefix h p \<and> prefix p q \<and> session_of (\<lambda>u. db_env K T (E u)) req uid h q \<and>
    m \<in> set (tb_media (db_state K (E (Some uid)) T p)) \<and> mf_id m = mid \<and> mf_user m = uid"
proof -
  have "\<exists>p. prefix h p \<and> prefix (p @ [c]) q \<and>
    (\<forall>mid. media_of c = Some mid \<longrightarrow> (\<exists>uid. session_of (\<lambda>u. db_env K T (E u)) req uid h p \<and> owned (db_env K T (E (Some uid))) uid mid h p)) \<and>
    (ledger_admin c \<longrightarrow> (\<exists>uid. session_of (\<lambda>u. db_env K T (E u)) req uid h p \<and> admin (db_env K T (E (Some uid))) uid h p))"
    by (rule serve_authority [OF _ keyed_db assms(1,2)]) (simp add: anon_download)
  with assms(3) obtain p uid where p: "prefix (p @ [c]) q" "session_of (\<lambda>u. db_env K T (E u)) req uid h p"
      "owned (db_env K T (E (Some uid))) uid mid h p" by blast
  then have pq: "prefix p q" by (blast dest: append_prefixD)
  from p(3) obtain m p1 where m: "mf_user m = uid" "prefix h p1" "prefix (p1 @ [Media (DFindMedia mid)]) p"
      "a_media (db_env K T (E (Some uid))) p1 (Media (DFindMedia mid)) = Inr (Some m)"
    by (auto simp: owned_def made_def)
  from m(4) have "media_find_by_id (db_state K (E (Some uid)) T p1) mid = Some m" by (simp add: db_env_def)
  then have "m \<in> set (tb_media (db_state K (E (Some uid)) T p1))" "mf_id m = mid"
    by (auto simp: media_find_by_id_def dest: find_SomeD)
  moreover have "session_of (\<lambda>u. db_env K T (E u)) req uid h q"
    using p(2) pq unfolding session_of_def by (blast intro: made_later)
  moreover have "prefix p1 q" using m(3) pq by (meson append_prefixD prefix_order.trans)
  ultimately show ?thesis using m(1,2) by blast
qed

end
